(* ===== verification/Prelude.thy ===== *)
theory Prelude
  imports Main "HOL-Library.Word" "HOL-Library.Multiset"
begin

text \<open>
  Shared vocabulary of the development: the result of a fallible Rust function (value,
  error, panic), computations that pass the agent's state, a small calculus for
  invariants and frame conditions of such computations, and the generic lemmas the
  component theories use.  The error type is the enum of \<^verbatim>\<open>src/src/errors.rs\<close>; the
  panic payload is what \<^verbatim>\<open>std::panic::catch_unwind\<close> hands to
  \<^verbatim>\<open>catch_unwind_result\<close> of \<^verbatim>\<open>src/src/util.rs\<close>.
\<close>

named_theorems outcome_simps \<open>computation rules of the state-passing combinators\<close>
named_theorems keeps_intros \<open>rules that propagate an invariant through a computation\<close>

section \<open>Machine integers and text\<close>

type_synonym i64 = "64 word"
type_synonym i32 = "32 word"
type_synonym u32 = "32 word"
type_synonym byte = "8 word"

text \<open>A PHP string is a sequence of bytes: HOL's \<open>char\<close> is one byte.\<close>

type_synonym bytes = string

section \<open>Results\<close>

datatype error = PHPer string | Anyhow string

text \<open>The conversions of texts, UTF-8 errors and URL errors into the error type.\<close>

definition error_from :: "string \<Rightarrow> error" where [simp]:
  "error_from e = Anyhow e"

datatype payload = PanicStr string | PanicString string | PanicOther

datatype 'a outcome = Ok 'a | Err error | Panic payload

text \<open>\<^verbatim>\<open>.context("...")\<close> on an \<^verbatim>\<open>Option\<close>.\<close>

fun with_context :: "string \<Rightarrow> 'a option \<Rightarrow> 'a outcome" where
  "with_context msg None = Err (Anyhow msg)"
| "with_context msg (Some x) = Ok x"

lemma with_context_Ok_iff [simp]: "with_context msg x = Ok y \<longleftrightarrow> x = Some y"
  by (cases x) auto

lemma with_context_no_panic [simp]: "with_context msg x \<noteq> Panic p"
  by (cases x) auto

section \<open>State-passing computations\<close>

type_synonym ('s, 'a) act = "'s \<Rightarrow> 'a outcome \<times> 's"

definition ret :: "'a \<Rightarrow> ('s, 'a) act" where
  "ret x = (\<lambda>s. (Ok x, s))"

definition fail :: "error \<Rightarrow> ('s, 'a) act" where
  "fail e = (\<lambda>s. (Err e, s))"

definition panic :: "payload \<Rightarrow> ('s, 'a) act" where
  "panic p = (\<lambda>s. (Panic p, s))"

definition lift :: "'a outcome \<Rightarrow> ('s, 'a) act" where
  "lift r = (\<lambda>s. (r, s))"

definition reads :: "('s \<Rightarrow> 'a) \<Rightarrow> ('s, 'a) act" where
  "reads f = (\<lambda>s. (Ok (f s), s))"

definition modify :: "('s \<Rightarrow> 's) \<Rightarrow> ('s, unit) act" where
  "modify f = (\<lambda>s. (Ok (), f s))"

text \<open>The \<^verbatim>\<open>?\<close> operator: go on with the value, or leave with the error or the panic.\<close>

definition andthen :: "('s, 'a) act \<Rightarrow> ('a \<Rightarrow> ('s, 'b) act) \<Rightarrow> ('s, 'b) act" where
  "andthen m f = (\<lambda>s. case m s of
     (Ok x, s') \<Rightarrow> f x s'
   | (Err e, s') \<Rightarrow> (Err e, s')
   | (Panic p, s') \<Rightarrow> (Panic p, s'))"

text \<open>Observe how a computation ended, as a \<^verbatim>\<open>match\<close> on its result does.\<close>

definition attempt :: "('s, 'a) act \<Rightarrow> ('s, 'a outcome) act" where
  "attempt m = (\<lambda>s. case m s of (r, s') \<Rightarrow> (Ok r, s'))"

text \<open>
  Scope exit: the second computation runs however the first one ends, as the drop of a
  local variable does; the first one's result is the result.
\<close>

definition on_exit :: "('s, 'a) act \<Rightarrow> ('s \<Rightarrow> 's) \<Rightarrow> ('s, 'a) act" where
  "on_exit m d = (\<lambda>s. case m s of (r, s') \<Rightarrow> (r, d s'))"

text \<open>Drop on the failing paths only: the value is moved out when the body succeeds.\<close>

definition on_failure :: "('s, 'a) act \<Rightarrow> ('s \<Rightarrow> 's) \<Rightarrow> ('s, 'a) act" where
  "on_failure m d = (\<lambda>s. case m s of
     (Ok x, s') \<Rightarrow> (Ok x, s')
   | (Err e, s') \<Rightarrow> (Err e, d s')
   | (Panic p, s') \<Rightarrow> (Panic p, d s'))"

lemma andthen_ret [outcome_simps, simp]: "andthen (ret x) f s = f x s"
  by (simp add: andthen_def ret_def)

lemma andthen_fail [outcome_simps, simp]: "andthen (fail e) f s = (Err e, s)"
  by (simp add: andthen_def fail_def)

lemma andthen_panic [outcome_simps, simp]: "andthen (panic p) f s = (Panic p, s)"
  by (simp add: andthen_def panic_def)

lemma andthen_reads [outcome_simps, simp]: "andthen (reads g) f s = f (g s) s"
  by (simp add: andthen_def reads_def)

lemma andthen_modify [outcome_simps, simp]: "andthen (modify g) f s = f () (g s)"
  by (simp add: andthen_def modify_def)

lemma andthen_lift_Ok [outcome_simps, simp]: "andthen (lift (Ok x)) f s = f x s"
  by (simp add: andthen_def lift_def)

lemma andthen_lift_Err [outcome_simps, simp]: "andthen (lift (Err e)) f s = (Err e, s)"
  by (simp add: andthen_def lift_def)

lemma andthen_lift_Panic [outcome_simps, simp]: "andthen (lift (Panic p)) f s = (Panic p, s)"
  by (simp add: andthen_def lift_def)

lemma act_apply [outcome_simps, simp]:
  "ret x s = (Ok x, s)" "fail e s = (Err e, s)" "panic p s = (Panic p, s)"
  "lift r s = (r, s)" "reads h s = (Ok (h s), s)" "modify g s = (Ok (), g s)"
  by (simp_all add: ret_def fail_def panic_def lift_def reads_def modify_def)

lemma andthen_assoc [simp]: "andthen (andthen m f) g = andthen m (\<lambda>x. andthen (f x) g)"
  by (auto simp: andthen_def fun_eq_iff split: outcome.splits prod.splits)

lemma andthen_eqs:
  "m s = (Ok x, s') \<Longrightarrow> andthen m f s = f x s'"
  "m s = (Err e, s') \<Longrightarrow> andthen m f s = (Err e, s')"
  "m s = (Panic p, s') \<Longrightarrow> andthen m f s = (Panic p, s')"
  by (simp_all add: andthen_def)

lemma andthen_attempt [simp]: "andthen (attempt m) f s = (case m s of (r, s') \<Rightarrow> f r s')"
  by (simp add: andthen_def attempt_def split: prod.split)

lemma andthen_if [simp]: "andthen (if b then m else n) f s = (if b then andthen m f s else andthen n f s)"
  by simp

lemma attempt_eq: "m s = (r, s') \<Longrightarrow> attempt m s = (Ok r, s')"
  by (simp add: attempt_def)

lemma on_exit_eq: "m s = (r, s') \<Longrightarrow> on_exit m d s = (r, d s')"
  by (simp add: on_exit_def)

lemma on_failure_eqs:
  "m s = (Ok x, s') \<Longrightarrow> on_failure m d s = (Ok x, s')"
  "m s = (Err e, s') \<Longrightarrow> on_failure m d s = (Err e, d s')"
  "m s = (Panic p, s') \<Longrightarrow> on_failure m d s = (Panic p, d s')"
  by (simp_all add: on_failure_def)

lemma andthen_OkE:
  assumes "andthen m f s = (Ok y, s')"
  obtains x s1 where "m s = (Ok x, s1)" "f x s1 = (Ok y, s')"
  using assms by (auto simp: andthen_def split: outcome.splits prod.splits)

section \<open>Invariants and frame conditions\<close>

text \<open>
  \<open>keeps I m\<close>: every run of \<open>m\<close> from a state with \<open>I\<close> ends, however it ends, in a
  state with \<open>I\<close>.  \<open>leaves f m\<close>: no run of \<open>m\<close> changes the observation \<open>f\<close>.
\<close>

definition keeps :: "('s \<Rightarrow> bool) \<Rightarrow> ('s, 'a) act \<Rightarrow> bool" where
  "keeps I m \<longleftrightarrow> (\<forall>s. I s \<longrightarrow> I (snd (m s)))"

definition leaves :: "('s \<Rightarrow> 'b) \<Rightarrow> ('s, 'a) act \<Rightarrow> bool" where
  "leaves f m \<longleftrightarrow> (\<forall>s. f (snd (m s)) = f s)"

lemma keepsD: "keeps I m \<Longrightarrow> I s \<Longrightarrow> I (snd (m s))"
  by (simp add: keeps_def)

lemma keepsD_eq: "keeps I m \<Longrightarrow> I s \<Longrightarrow> m s = (r, s') \<Longrightarrow> I s'"
  by (metis keepsD snd_conv)

lemma leavesD: "leaves f m \<Longrightarrow> f (snd (m s)) = f s"
  by (simp add: leaves_def)

lemma leavesD_eq: "leaves f m \<Longrightarrow> m s = (r, s') \<Longrightarrow> f s' = f s"
  by (metis leavesD snd_conv)

lemma leaves_iff_keeps: "leaves f m \<longleftrightarrow> (\<forall>c. keeps (\<lambda>s. f s = c) m)"
  by (auto simp: leaves_def keeps_def)

lemma keeps_simple [keeps_intros, simp]:
  "keeps I (ret x)" "keeps I (fail e)" "keeps I (panic p)" "keeps I (lift r)"
  "keeps I (reads g)"
  by (simp_all add: keeps_def)

lemma keeps_modify [keeps_intros]: "(\<And>s. I s \<Longrightarrow> I (g s)) \<Longrightarrow> keeps I (modify g)"
  by (simp add: keeps_def)

lemma keeps_andthen [keeps_intros]:
  "keeps I m \<Longrightarrow> (\<And>x. keeps I (f x)) \<Longrightarrow> keeps I (andthen m f)"
  by (fastforce simp: keeps_def andthen_def split: outcome.splits prod.splits dest: keepsD_eq)

lemma keeps_attempt [keeps_intros]: "keeps I m \<Longrightarrow> keeps I (attempt m)"
  by (auto simp: keeps_def attempt_def split: prod.splits)

lemma keeps_on_exit [keeps_intros]:
  "keeps I m \<Longrightarrow> (\<And>s. I s \<Longrightarrow> I (d s)) \<Longrightarrow> keeps I (on_exit m d)"
  by (auto simp: keeps_def on_exit_def split: prod.splits)

lemma keeps_on_failure [keeps_intros]:
  "keeps I m \<Longrightarrow> (\<And>s. I s \<Longrightarrow> I (d s)) \<Longrightarrow> keeps I (on_failure m d)"
  by (fastforce simp: keeps_def on_failure_def split: outcome.splits prod.splits dest: keepsD_eq)

lemma keeps_if [keeps_intros]: "(b \<Longrightarrow> keeps I m) \<Longrightarrow> (\<not> b \<Longrightarrow> keeps I n) \<Longrightarrow> keeps I (if b then m else n)"
  by simp

lemma keeps_case_option [keeps_intros]:
  "keeps I m \<Longrightarrow> (\<And>x. keeps I (f x)) \<Longrightarrow> keeps I (case v of None \<Rightarrow> m | Some x \<Rightarrow> f x)"
  by (simp split: option.split)

lemma keeps_case_outcome [keeps_intros]:
  "(\<And>x. keeps I (f x)) \<Longrightarrow> (\<And>e. keeps I (g e)) \<Longrightarrow> (\<And>p. keeps I (h p)) \<Longrightarrow>
   keeps I (case v of Ok x \<Rightarrow> f x | Err e \<Rightarrow> g e | Panic p \<Rightarrow> h p)"
  by (simp split: outcome.split)

lemma leaves_simple [keeps_intros, simp]:
  "leaves f (ret x)" "leaves f (fail e)" "leaves f (panic p)" "leaves f (lift r)"
  "leaves f (reads g)"
  by (simp_all add: leaves_def)

lemma leaves_modify [keeps_intros]: "(\<And>s. f (g s) = f s) \<Longrightarrow> leaves f (modify g)"
  by (simp add: leaves_def)

lemma leaves_andthen [keeps_intros]:
  "leaves f m \<Longrightarrow> (\<And>x. leaves f (k x)) \<Longrightarrow> leaves f (andthen m k)"
  by (simp add: leaves_iff_keeps keeps_andthen)

lemma leaves_attempt [keeps_intros]: "leaves f m \<Longrightarrow> leaves f (attempt m)"
  by (simp add: leaves_iff_keeps keeps_attempt)

lemma leaves_on_exit [keeps_intros]:
  "leaves f m \<Longrightarrow> (\<And>s. f (d s) = f s) \<Longrightarrow> leaves f (on_exit m d)"
  by (simp add: leaves_iff_keeps keeps_on_exit)

lemma leaves_on_failure [keeps_intros]:
  "leaves f m \<Longrightarrow> (\<And>s. f (d s) = f s) \<Longrightarrow> leaves f (on_failure m d)"
  by (simp add: leaves_iff_keeps keeps_on_failure)

lemma leaves_if [keeps_intros]: "(b \<Longrightarrow> leaves f m) \<Longrightarrow> (\<not> b \<Longrightarrow> leaves f n) \<Longrightarrow> leaves f (if b then m else n)"
  by simp

lemma leaves_case_option [keeps_intros]:
  "leaves f m \<Longrightarrow> (\<And>x. leaves f (k x)) \<Longrightarrow> leaves f (case v of None \<Rightarrow> m | Some x \<Rightarrow> k x)"
  by (simp split: option.split)

lemma leaves_case_outcome [keeps_intros]:
  "(\<And>x. leaves f (k x)) \<Longrightarrow> (\<And>e. leaves f (g e)) \<Longrightarrow> (\<And>p. leaves f (h p)) \<Longrightarrow>
   leaves f (case v of Ok x \<Rightarrow> k x | Err e \<Rightarrow> g e | Panic p \<Rightarrow> h p)"
  by (simp split: outcome.split)

section \<open>Panics\<close>

text \<open>No run of \<open>m\<close> panics.\<close>

definition panic_free :: "('s, 'a) act \<Rightarrow> bool" where
  "panic_free m \<longleftrightarrow> (\<forall>s p. fst (m s) \<noteq> Panic p)"

lemma panic_freeD: "panic_free m \<Longrightarrow> m s = (r, s') \<Longrightarrow> r \<noteq> Panic p"
  by (metis fst_conv panic_free_def)

lemma panic_free_basic [intro]:
  "panic_free (ret x)" "panic_free (fail e)" "panic_free (reads g)" "panic_free (modify u)"
  by (simp_all add: panic_free_def)

lemma panic_free_lift [intro]: "(\<And>p. r \<noteq> Panic p) \<Longrightarrow> panic_free (lift r)"
  by (simp add: panic_free_def)

lemma panic_free_andthen [intro]: "panic_free m \<Longrightarrow> (\<And>x. panic_free (f x)) \<Longrightarrow> panic_free (andthen m f)"
  by (auto simp: panic_free_def andthen_def split: outcome.splits prod.splits) (metis fst_conv)+

lemma panic_free_on_exit [intro]: "panic_free m \<Longrightarrow> panic_free (on_exit m d)"
  by (simp add: panic_free_def on_exit_def split: prod.split) (metis fst_conv)

lemma panic_free_on_failure [intro]: "panic_free m \<Longrightarrow> panic_free (on_failure m d)"
  by (simp add: panic_free_def on_failure_def split: prod.split outcome.split) (metis fst_conv)

text \<open>What \<open>attempt\<close> observes of a computation without panics is no panic either.\<close>

lemma panic_free_attempt [intro]:
  "panic_free m \<Longrightarrow> (\<And>r. (\<And>p. r \<noteq> Panic p) \<Longrightarrow> panic_free (f r)) \<Longrightarrow> panic_free (andthen (attempt m) f)"
  unfolding panic_free_def by (simp split: prod.split) (metis fst_conv)

lemma panic_free_if [intro]: "(b \<Longrightarrow> panic_free m) \<Longrightarrow> (\<not> b \<Longrightarrow> panic_free n) \<Longrightarrow> panic_free (if b then m else n)"
  by simp

lemma panic_free_option [intro]:
  "(v = None \<Longrightarrow> panic_free m) \<Longrightarrow> (\<And>x. v = Some x \<Longrightarrow> panic_free (f x)) \<Longrightarrow>
   panic_free (case v of None \<Rightarrow> m | Some x \<Rightarrow> f x)"
  by (simp split: option.split)

lemma panic_free_outcome [intro]:
  "(\<And>x. w = Ok x \<Longrightarrow> panic_free (f x)) \<Longrightarrow> (\<And>e. w = Err e \<Longrightarrow> panic_free (g e)) \<Longrightarrow> (\<And>p. w \<noteq> Panic p) \<Longrightarrow>
   panic_free (case w of Ok x \<Rightarrow> f x | Err e \<Rightarrow> g e | Panic p \<Rightarrow> h p)"
  by (simp split: outcome.split)

lemmas panic_free_intros = panic_free_attempt panic_free_basic panic_free_lift panic_free_andthen panic_free_on_exit
  panic_free_on_failure panic_free_if panic_free_option panic_free_outcome

section \<open>Maps\<close>

definition map_remove :: "('k \<rightharpoonup> 'v) \<Rightarrow> 'k \<Rightarrow> ('k \<rightharpoonup> 'v)" where
  "map_remove m k = m(k := None)"

lemma map_remove_apply [simp]: "map_remove m k j = (if j = k then None else m j)"
  by (simp add: map_remove_def)

lemma dom_map_remove [simp]: "dom (map_remove m k) = dom m - {k}"
  by (auto simp: dom_def)

lemma map_remove_idem: "m k = None \<Longrightarrow> map_remove m k = m"
  by (auto simp: map_remove_def)

lemma map_remove_insert: "m k = None \<Longrightarrow> map_remove (m(k \<mapsto> v)) k = m"
  by (auto simp: map_remove_def)

end
