(* ===== verification/Text.thy ===== *)
theory Text
  imports Prelude "HOL-Library.Char_ord"
begin

text \<open>
  The string operations of Rust's standard library that the agent uses, on byte strings:
  UTF-8 validation (\<^verbatim>\<open>str::from_utf8\<close>, the check behind \<^verbatim>\<open>ZStr::to_str\<close>), case mapping,
  \<^verbatim>\<open>split\<close>, \<^verbatim>\<open>splitn(2, c)\<close>, \<^verbatim>\<open>starts_with\<close>, \<^verbatim>\<open>contains\<close>, decimal output of integers
  and \<^verbatim>\<open>str::parse::<i32>\<close>.
\<close>

section \<open>UTF-8\<close>

definition in_range :: "nat \<Rightarrow> nat \<Rightarrow> nat \<Rightarrow> bool" where
  "in_range lo hi b \<longleftrightarrow> lo \<le> b \<and> b \<le> hi"

text \<open>
  The well-formed byte sequences.  \<open>utf8_tail k lo hi s\<close> expects one continuation byte in
  \<open>lo..hi\<close> and then \<open>k\<close> more in the full range, then the next character.
\<close>

fun utf8_lead :: "nat \<Rightarrow> (nat \<times> nat \<times> nat) option" where
  "utf8_lead b =
     (if in_range 0xC2 0xDF b then Some (0, 0x80, 0xBF)
      else if b = 0xE0 then Some (1, 0xA0, 0xBF)
      else if in_range 0xE1 0xEC b \<or> in_range 0xEE 0xEF b then Some (1, 0x80, 0xBF)
      else if b = 0xED then Some (1, 0x80, 0x9F)
      else if b = 0xF0 then Some (2, 0x90, 0xBF)
      else if in_range 0xF1 0xF3 b then Some (2, 0x80, 0xBF)
      else if b = 0xF4 then Some (2, 0x80, 0x8F)
      else None)"

fun utf8_run :: "(nat \<times> nat \<times> nat) option \<Rightarrow> bytes \<Rightarrow> bool" where
  "utf8_run None [] = True"
| "utf8_run (Some _) [] = False"
| "utf8_run None (c # s) =
     (if of_char c < (0x80 :: nat) then utf8_run None s
      else case utf8_lead (of_char c) of None \<Rightarrow> False | Some e \<Rightarrow> utf8_run (Some e) s)"
| "utf8_run (Some (k, lo, hi)) (c # s) =
     (in_range lo hi (of_char c) \<and>
      utf8_run (case k of 0 \<Rightarrow> None | Suc k' \<Rightarrow> Some (k', 0x80, 0xBF)) s)"

definition utf8_valid :: "bytes \<Rightarrow> bool" where
  "utf8_valid s \<longleftrightarrow> utf8_run None s"

definition is_ascii :: "bytes \<Rightarrow> bool" where
  "is_ascii s \<longleftrightarrow> (\<forall>c \<in> set s. of_char c < (0x80 :: nat))"

lemma is_ascii_simps [simp]:
  "is_ascii []" "is_ascii (c # s) \<longleftrightarrow> of_char c < (0x80 :: nat) \<and> is_ascii s"
  "is_ascii (s @ t) \<longleftrightarrow> is_ascii s \<and> is_ascii t"
  by (auto simp: is_ascii_def)

lemma utf8_run_ascii: "is_ascii s \<Longrightarrow> utf8_run None (s @ t) = utf8_run None t"
  by (induction s) auto

lemma utf8_valid_ascii [simp]: "is_ascii s \<Longrightarrow> utf8_valid s"
  using utf8_run_ascii [of s "[]"] by (simp add: utf8_valid_def)

lemma utf8_valid_ascii_append: "is_ascii s \<Longrightarrow> utf8_valid (s @ t) = utf8_valid t"
  by (simp add: utf8_valid_def utf8_run_ascii)

text \<open>\<^verbatim>\<open>ZStr::to_str\<close>: the string if it is valid UTF-8.\<close>

definition to_str :: "bytes \<Rightarrow> bytes option" where
  "to_str s = (if utf8_valid s then Some s else None)"

lemma to_str_Some [simp]: "to_str s = Some t \<longleftrightarrow> utf8_valid s \<and> t = s"
  by (auto simp: to_str_def)

lemma to_str_None [simp]: "to_str s = None \<longleftrightarrow> \<not> utf8_valid s"
  by (auto simp: to_str_def)

section \<open>Case mapping\<close>

definition ascii_lower :: "char \<Rightarrow> char" where
  "ascii_lower c = (if in_range 65 90 (of_char c) then char_of (of_char c + 32 :: nat) else c)"

definition ascii_upper :: "char \<Rightarrow> char" where
  "ascii_upper c = (if in_range 97 122 (of_char c) then char_of (of_char c - 32 :: nat) else c)"

definition to_ascii_lowercase :: "bytes \<Rightarrow> bytes" where
  "to_ascii_lowercase s = map ascii_lower s"

lemma ascii_lower_idem [simp]: "ascii_lower (ascii_lower c) = ascii_lower c"
  by (auto simp: ascii_lower_def in_range_def)

lemma to_ascii_lowercase_idem [simp]:
  "to_ascii_lowercase (to_ascii_lowercase s) = to_ascii_lowercase s"
  by (simp add: to_ascii_lowercase_def)

lemma length_to_ascii_lowercase [simp]: "length (to_ascii_lowercase s) = length s"
  by (simp add: to_ascii_lowercase_def)

lemma to_ascii_lowercase_append:
  "to_ascii_lowercase (s @ t) = to_ascii_lowercase s @ to_ascii_lowercase t"
  by (simp add: to_ascii_lowercase_def)

lemma drop_to_ascii_lowercase:
  "drop n (to_ascii_lowercase s) = to_ascii_lowercase (drop n s)"
  by (simp add: to_ascii_lowercase_def drop_map)

lemma of_char_lower_high: "0x80 \<le> (of_char c :: nat) \<Longrightarrow> ascii_lower c = c"
  by (simp add: ascii_lower_def in_range_def)

lemma of_char_lower_low: "(of_char c :: nat) < 0x80 \<Longrightarrow> (of_char (ascii_lower c) :: nat) < 0x80"
  by (auto simp: ascii_lower_def in_range_def)

lemma ascii_lower_not_upper: "\<not> in_range 65 90 (of_char (ascii_lower c))"
  by (auto simp: ascii_lower_def in_range_def)

text \<open>
  \<^verbatim>\<open>str::to_uppercase\<close> and \<^verbatim>\<open>str::to_lowercase\<close> are Unicode mappings.  The agent compares
  their results with ASCII constants only, so the model maps every character whose image is
  ASCII (the table lists the non-ASCII ones: dotless i, long s, sharp s and the Latin
  ligatures upwards, the Kelvin sign downwards) and leaves any other non-ASCII character as
  it is, which keeps it non-ASCII.
\<close>

definition upper_table :: "(bytes \<times> bytes) list" where
  "upper_table =
     [([CHR 0xC4, CHR 0xB1], ''I''), ([CHR 0xC5, CHR 0xBF], ''S''),
      ([CHR 0xC3, CHR 0x9F], ''SS''),
      ([CHR 0xEF, CHR 0xAC, CHR 0x80], ''FF''), ([CHR 0xEF, CHR 0xAC, CHR 0x81], ''FI''),
      ([CHR 0xEF, CHR 0xAC, CHR 0x82], ''FL''), ([CHR 0xEF, CHR 0xAC, CHR 0x83], ''FFI''),
      ([CHR 0xEF, CHR 0xAC, CHR 0x84], ''FFL''), ([CHR 0xEF, CHR 0xAC, CHR 0x85], ''ST''),
      ([CHR 0xEF, CHR 0xAC, CHR 0x86], ''ST'')]"

definition lower_table :: "(bytes \<times> bytes) list" where
  "lower_table = [([CHR 0xE2, CHR 0x84, CHR 0xAA], ''k'')]"

fun case_map :: "(bytes \<times> bytes) list \<Rightarrow> (char \<Rightarrow> char) \<Rightarrow> nat \<Rightarrow> bytes \<Rightarrow> bytes" where
  "case_map tbl f n [] = []"
| "case_map tbl f (Suc n) (c # s) = case_map tbl f n s"
| "case_map tbl f 0 (c # s) =
     (case find (\<lambda>(k, _). take (length k) (c # s) = k) tbl of
        Some (k, v) \<Rightarrow> v @ case_map tbl f (length k - 1) s
      | None \<Rightarrow> f c # case_map tbl f 0 s)"

definition to_uppercase :: "bytes \<Rightarrow> bytes" where
  "to_uppercase s = case_map upper_table ascii_upper 0 s"

definition to_lowercase :: "bytes \<Rightarrow> bytes" where
  "to_lowercase s = case_map lower_table ascii_lower 0 s"

definition non_ascii_keys :: "(bytes \<times> bytes) list \<Rightarrow> bool" where
  "non_ascii_keys tbl \<longleftrightarrow> list_all (\<lambda>(k, _). k \<noteq> [] \<and> \<not> of_char (hd k) < (0x80 :: nat)) tbl"

lemma find_non_ascii_None:
  "non_ascii_keys tbl \<Longrightarrow> of_char c < (0x80 :: nat) \<Longrightarrow>
   find (\<lambda>(k, _). take (length k) (c # s) = k) tbl = None"
  by (fastforce simp: non_ascii_keys_def list_all_iff find_None_iff neq_Nil_conv)

lemma case_map_ascii: "non_ascii_keys tbl \<Longrightarrow> is_ascii s \<Longrightarrow> case_map tbl f 0 s = map f s"
  by (induction s) (auto simp: find_non_ascii_None)

lemma to_uppercase_ascii: "is_ascii s \<Longrightarrow> to_uppercase s = map ascii_upper s"
  unfolding to_uppercase_def
  by (rule case_map_ascii) (simp_all add: non_ascii_keys_def upper_table_def)

lemma to_lowercase_ascii: "is_ascii s \<Longrightarrow> to_lowercase s = to_ascii_lowercase s"
  unfolding to_lowercase_def to_ascii_lowercase_def
  by (rule case_map_ascii) (simp_all add: non_ascii_keys_def lower_table_def)

section \<open>Searching and splitting\<close>

definition starts_with :: "bytes \<Rightarrow> bytes \<Rightarrow> bool" where
  "starts_with s p \<longleftrightarrow> take (length p) s = p"

lemma starts_with_append [simp]: "starts_with (p @ s) p"
  by (simp add: starts_with_def)

lemma starts_with_length: "starts_with s p \<Longrightarrow> length p \<le> length s"
  unfolding starts_with_def by (metis length_take min.cobounded1)

lemma starts_with_drop: "starts_with s p \<Longrightarrow> s = p @ drop (length p) s"
  unfolding starts_with_def by (metis append_take_drop_id)

fun contains_sub :: "bytes \<Rightarrow> bytes \<Rightarrow> bool" where
  "contains_sub [] p \<longleftrightarrow> p = []"
| "contains_sub (c # s) p \<longleftrightarrow> starts_with (c # s) p \<or> contains_sub s p"

text \<open>
  \<^verbatim>\<open>&s[n..]\<close>: panics when \<open>n\<close> is beyond the end or in the middle of a character.
\<close>

definition is_continuation :: "char \<Rightarrow> bool" where
  "is_continuation c \<longleftrightarrow> in_range 0x80 0xBF (of_char c)"

definition str_slice_from :: "nat \<Rightarrow> bytes \<Rightarrow> bytes outcome" where
  "str_slice_from n s =
     (if n = length s \<or> n < length s \<and> \<not> is_continuation (s ! n) then Ok (drop n s)
      else Panic (PanicString ''byte index is not a char boundary''))"

lemma is_continuation_lower: "is_continuation (ascii_lower c) = is_continuation c"
  using of_char_lower_high [of c] of_char_lower_low [of c]
  by (cases "0x80 \<le> (of_char c :: nat)") (auto simp: is_continuation_def in_range_def)

lemma utf8_valid_hd: "utf8_valid (c # s) \<Longrightarrow> \<not> is_continuation c"
  by (auto simp: utf8_valid_def is_continuation_def in_range_def split: option.splits if_splits)

lemma str_slice_prefix:
  assumes "utf8_valid s" "starts_with s p" "is_ascii p"
  shows "str_slice_from (length p) s = Ok (drop (length p) s)"
proof -
  obtain t where s: "s = p @ t" using assms(2) by (metis starts_with_drop)
  have "utf8_valid t" using assms(1,3) by (simp add: s utf8_valid_ascii_append)
  then show ?thesis
    by (cases t) (auto simp: s str_slice_from_def dest: utf8_valid_hd)
qed

lemma str_slice_lower:
  "str_slice_from n s = Ok t \<Longrightarrow> str_slice_from n (to_ascii_lowercase s) = Ok (to_ascii_lowercase t)"
  by (auto simp: str_slice_from_def drop_map is_continuation_lower to_ascii_lowercase_def
      split: if_splits)

text \<open>\<^verbatim>\<open>s.split(c)\<close>: always at least one piece.\<close>

fun split :: "char \<Rightarrow> bytes \<Rightarrow> bytes list" where
  "split c [] = [[]]"
| "split c (x # s) =
     (if x = c then [] # split c s
      else case split c s of [] \<Rightarrow> [[x]] | p # ps \<Rightarrow> (x # p) # ps)"

lemma split_ne [simp]: "split c s \<noteq> []"
  by (induction s) (auto split: list.splits)

fun join :: "bytes \<Rightarrow> bytes list \<Rightarrow> bytes" where
  "join d [] = []"
| "join d [p] = p"
| "join d (p # q # ps) = p @ d @ join d (q # ps)"

lemma join_Cons: "ps \<noteq> [] \<Longrightarrow> join d (p # ps) = p @ d @ join d ps"
  by (cases ps) auto

lemma join_cons_hd: "ps \<noteq> [] \<Longrightarrow> join d ((x # hd ps) # tl ps) = x # join d ps"
  by (cases ps; cases "tl ps") auto

lemma join_split: "join [c] (split c s) = s"
proof (induction s)
  case (Cons x s)
  then show ?case
    using join_cons_hd [of "split c s" "[c]" x] split_ne [of c s]
    by (auto simp: join_Cons split: list.splits)
qed simp

lemma split_no_sep: "c \<notin> set s \<Longrightarrow> split c s = [s]"
  by (induction s) auto

lemma split_append_sep: "c \<notin> set p \<Longrightarrow> split c (p @ c # s) = p # split c s"
  by (induction p) auto

lemma split_join:
  "ps \<noteq> [] \<Longrightarrow> (\<forall>p \<in> set ps. c \<notin> set p) \<Longrightarrow> split c (join [c] ps) = ps"
  by (induction "[c]" ps rule: join.induct) (auto simp: split_no_sep split_append_sep)

text \<open>\<^verbatim>\<open>s.splitn(2, c)\<close>: the first piece and, if there is a separator, the rest.\<close>

definition splitn2 :: "char \<Rightarrow> bytes \<Rightarrow> bytes \<times> bytes option" where
  "splitn2 c s =
     (takeWhile (\<lambda>x. x \<noteq> c) s,
      case dropWhile (\<lambda>x. x \<noteq> c) s of [] \<Rightarrow> None | _ # r \<Rightarrow> Some r)"

lemma splitn2_sep: "c \<notin> set k \<Longrightarrow> splitn2 c (k @ c # v) = (k, Some v)"
proof -
  assume "c \<notin> set k"
  then have "\<forall>x \<in> set k. x \<noteq> c" by auto
  then have "takeWhile (\<lambda>x. x \<noteq> c) (k @ c # v) = k"
      and "dropWhile (\<lambda>x. x \<noteq> c) (k @ c # v) = c # v"
    by (simp_all add: takeWhile_append2 dropWhile_append2)
  then show ?thesis by (simp add: splitn2_def)
qed

lemma splitn2_no_sep: "c \<notin> set s \<Longrightarrow> splitn2 c s = (s, None)"
proof -
  assume "c \<notin> set s"
  then have "\<forall>x \<in> set s. x \<noteq> c" by auto
  then have tw: "takeWhile (\<lambda>x. x \<noteq> c) s = s" and dw: "dropWhile (\<lambda>x. x \<noteq> c) s = []"
    by (simp_all add: takeWhile_eq_all_conv dropWhile_eq_Nil_conv)
  show ?thesis by (simp only: splitn2_def tw dw list.case)
qed

lemma splitn2_cases:
  obtains "c \<notin> set s" "splitn2 c s = (s, None)"
  | k v where "s = k @ c # v" "c \<notin> set k" "splitn2 c s = (k, Some v)"
proof (cases "c \<in> set s")
  case True
  then obtain k v where "s = k @ c # v" "c \<notin> set k" by (metis split_list_first)
  then show ?thesis using that(2) splitn2_sep by blast
next
  case False
  then show ?thesis using that(1) splitn2_no_sep by blast
qed

lemma splitn2_NoneD: "splitn2 c s = (k, None) \<Longrightarrow> c \<notin> set s"
  by (cases c s rule: splitn2_cases) simp_all

lemma splitn2_SomeD: "splitn2 c s = (k, Some v) \<Longrightarrow> s = k @ c # v \<and> c \<notin> set k"
  by (cases c s rule: splitn2_cases) simp_all

section \<open>Decimal integers\<close>

fun show_nat :: "nat \<Rightarrow> bytes" where
  "show_nat n = (if n < 10 then [char_of (48 + n)] else show_nat (n div 10) @ [char_of (48 + n mod 10)])"

declare show_nat.simps [simp del]

definition show_int :: "int \<Rightarrow> bytes" where
  "show_int i = (if i < 0 then CHR ''-'' # show_nat (nat (- i)) else show_nat (nat i))"

definition show_i64 :: "i64 \<Rightarrow> bytes" where
  "show_i64 w = show_int (sint w)"

definition show_i32 :: "i32 \<Rightarrow> bytes" where
  "show_i32 w = show_int (sint w)"

definition is_digit :: "char \<Rightarrow> bool" where
  "is_digit c \<longleftrightarrow> in_range 48 57 (of_char c)"

fun digits_val :: "nat \<Rightarrow> bytes \<Rightarrow> nat option" where
  "digits_val n [] = Some n"
| "digits_val n (c # s) = (if is_digit c then digits_val (10 * n + (of_char c - 48)) s else None)"

text \<open>\<^verbatim>\<open>str::parse::<i32>\<close>: an optional sign, at least one digit, and no overflow.\<close>

definition parse_i32 :: "bytes \<Rightarrow> i32 option" where
  "parse_i32 s =
     (let neg = starts_with s ''-'';
          body = (if starts_with s ''-'' \<or> starts_with s ''+'' then tl s else s)
      in if body = [] then None
         else case digits_val 0 body of
           None \<Rightarrow> None
         | Some n \<Rightarrow>
             if neg then (if n \<le> 2 ^ 31 then Some (word_of_int (- int n)) else None)
             else (if n < 2 ^ 31 then Some (word_of_int (int n)) else None))"

lemma digit_char: "n < 10 \<Longrightarrow> of_char (char_of (48 + n) :: char) = 48 + n" for n :: nat
  by simp

lemma show_nat_ne [simp]: "show_nat n \<noteq> []"
  by (subst show_nat.simps) simp

lemma show_nat_digits: "\<forall>c \<in> set (show_nat n). is_digit c"
proof (induction n rule: show_nat.induct)
  case (1 n)
  then show ?case
    by (subst show_nat.simps) (auto simp: is_digit_def in_range_def)
qed

lemma is_digit_ascii: "is_digit c \<Longrightarrow> of_char c < (0x80 :: nat)"
  by (simp add: is_digit_def in_range_def)

lemma show_nat_ascii [simp]: "is_ascii (show_nat n)"
  using show_nat_digits is_digit_ascii by (auto simp: is_ascii_def)

lemma show_int_ascii [simp]: "is_ascii (show_int i)"
  by (simp add: show_int_def)

lemma show_i64_ascii [simp]: "is_ascii (show_i64 w)"
  by (simp add: show_i64_def)

lemma show_int_chars: "c \<in> set (show_int i) \<Longrightarrow> is_digit c \<or> c = CHR ''-''"
  using show_nat_digits by (auto simp: show_int_def split: if_splits)

lemma show_i64_no_colon [simp]: "CHR '':'' \<notin> set (show_i64 w)"
  using show_int_chars [of "CHR '':''" "sint w"] by (auto simp: show_i64_def is_digit_def in_range_def)

lemma digits_val_append:
  "digits_val n (s @ t) = (case digits_val n s of None \<Rightarrow> None | Some m \<Rightarrow> digits_val m t)"
  by (induction s arbitrary: n) auto

lemma digits_val_show_nat: "digits_val 0 (show_nat n) = Some n"
proof (induction n rule: show_nat.induct)
  case (1 n)
  then show ?case
    by (subst show_nat.simps) (auto simp: digits_val_append is_digit_def in_range_def)
qed

lemma show_nat_no_sign: "\<not> starts_with (show_nat n) ''-''" "\<not> starts_with (show_nat n) ''+''"
proof -
  obtain c s where cs: "show_nat n = c # s" by (cases "show_nat n") auto
  then have "is_digit c" using show_nat_digits [of n] by simp
  then have "c \<noteq> CHR ''-''" "c \<noteq> CHR ''+''" by (auto simp: is_digit_def in_range_def)
  then show "\<not> starts_with (show_nat n) ''-''" "\<not> starts_with (show_nat n) ''+''"
    by (simp_all add: cs starts_with_def)
qed

lemma parse_show_i32: "parse_i32 (show_i32 w) = Some w"
proof -
  have lo: "- (2 ^ 31) \<le> sint w" and hi: "sint w < 2 ^ 31"
    using sint_greater_eq [of w] sint_less [of w] by simp_all
  show ?thesis
  proof (cases "sint w < 0")
    case True
    then have "show_i32 w = CHR ''-'' # show_nat (nat (- sint w))"
      by (simp add: show_i32_def show_int_def)
    with True lo show ?thesis
      by (auto simp: parse_i32_def Let_def starts_with_def digits_val_show_nat nat_le_iff)
  next
    case False
    then have "show_i32 w = show_nat (nat (sint w))"
      by (simp add: show_i32_def show_int_def)
    with False hi show ?thesis
      by (auto simp: parse_i32_def Let_def show_nat_no_sign digits_val_show_nat nat_less_iff)
  qed
qed

end
