(* ===== verification/Log_Level.thy ===== *)
theory Log_Level
  imports Text
begin

text \<open>
  \<^verbatim>\<open>src/src/log.rs\<close>: the PSR-3 levels, their derived order (the order of the variants, with
  \<open>Off\<close> least), parsing from a string and display.
\<close>

datatype psr_level = Off | Debug | Info | Notice | Warning | Error | Critical | Alert | Emergency

fun level_rank :: "psr_level \<Rightarrow> nat" where
  "level_rank Off = 0"
| "level_rank Debug = 1"
| "level_rank Info = 2"
| "level_rank Notice = 3"
| "level_rank Warning = 4"
| "level_rank Error = 5"
| "level_rank Critical = 6"
| "level_rank Alert = 7"
| "level_rank Emergency = 8"

lemma level_rank_inj: "level_rank a = level_rank b \<longleftrightarrow> a = b"
  by (cases a; cases b) auto

text \<open>\<^verbatim>\<open>#[derive(PartialOrd, Ord)]\<close> on an enum compares the positions of the variants.\<close>

instantiation psr_level :: linorder
begin

definition less_eq_psr_level :: "psr_level \<Rightarrow> psr_level \<Rightarrow> bool" where
  "less_eq_psr_level a b \<longleftrightarrow> level_rank a \<le> level_rank b"

definition less_psr_level :: "psr_level \<Rightarrow> psr_level \<Rightarrow> bool" where
  "less_psr_level a b \<longleftrightarrow> level_rank a < level_rank b"

instance
  by standard (auto simp: less_eq_psr_level_def less_psr_level_def level_rank_inj)

end

lemma Off_least [simp]: "Off \<le> l"
  by (simp add: less_eq_psr_level_def)

lemma Off_less_iff [simp]: "Off < l \<longleftrightarrow> l \<noteq> Off"
  by (cases l) (simp_all add: less_psr_level_def)

definition level_of_str :: "bytes \<Rightarrow> psr_level" where
  "level_of_str s =
     (let u = to_uppercase s in
      if u = ''DEBUG'' then Debug
      else if u = ''INFO'' then Info
      else if u = ''NOTICE'' then Notice
      else if u = ''WARNING'' then Warning
      else if u = ''ERROR'' then Error
      else if u = ''CRITICAL'' then Critical
      else if u = ''ALERT'' then Alert
      else if u = ''EMERGENCY'' then Emergency
      else Off)"

fun level_display :: "psr_level \<Rightarrow> bytes" where
  "level_display Off = ''OFF''"
| "level_display Debug = ''DEBUG''"
| "level_display Info = ''INFO''"
| "level_display Notice = ''NOTICE''"
| "level_display Warning = ''WARNING''"
| "level_display Error = ''ERROR''"
| "level_display Critical = ''CRITICAL''"
| "level_display Alert = ''ALERT''"
| "level_display Emergency = ''EMERGENCY''"

lemma to_uppercase_level_display: "to_uppercase (level_display l) = level_display l"
  by (cases l) (simp_all add: to_uppercase_ascii ascii_upper_def in_range_def)

lemma level_of_str_display: "level_of_str (level_display l) = l"
  by (cases l) (simp_all add: level_of_str_def to_uppercase_level_display [of Off, simplified]
      to_uppercase_level_display [of Debug, simplified]
      to_uppercase_level_display [of Info, simplified]
      to_uppercase_level_display [of Notice, simplified]
      to_uppercase_level_display [of Warning, simplified]
      to_uppercase_level_display [of Error, simplified]
      to_uppercase_level_display [of Critical, simplified]
      to_uppercase_level_display [of Alert, simplified]
      to_uppercase_level_display [of Emergency, simplified])

end
