(* ===== verification/Php.thy ===== *)
theory Php
  imports Log_Level
begin

text \<open>
  The PHP values and call frames the agent inspects: the variants of \<^verbatim>\<open>zval\<close> by type tag,
  with the accessors of the \<^verbatim>\<open>phper\<close> crate that the source uses (each returns a value exactly
  for its own tag), and \<^verbatim>\<open>zend_execute_data\<close> with its argument slots, its \<^verbatim>\<open>$this\<close> and the
  chain of callers.  Also the small accessors of \<^verbatim>\<open>src/src/execute.rs\<close> (\<^verbatim>\<open>validate_num_args\<close>,
  \<^verbatim>\<open>get_this_mut\<close>), \<^verbatim>\<open>z_val_to_string\<close> of \<^verbatim>\<open>src/src/util.rs\<close> and the calling styles of
  \<^verbatim>\<open>src/src/plugin/style.rs\<close>.
\<close>

section \<open>Values\<close>

datatype zkey = Index i64 | Key bytes

datatype zval =
    ZNull
  | ZBool bool
  | ZLong i64
  | ZDouble "64 word"
  | ZStr bytes
  | ZArr "(zkey \<times> zval) list"
  | ZObj zobj
  | ZRes i64
  | ZRef zval
and zobj = Zobj (obj_handle: u32) (obj_class: bytes) (obj_props: "(bytes \<times> zval) list")

type_synonym zarr = "(zkey \<times> zval) list"

fun as_null :: "zval \<Rightarrow> unit option" where
  "as_null ZNull = Some ()" | "as_null _ = None"

fun as_bool :: "zval \<Rightarrow> bool option" where
  "as_bool (ZBool b) = Some b" | "as_bool _ = None"

fun as_long :: "zval \<Rightarrow> i64 option" where
  "as_long (ZLong n) = Some n" | "as_long _ = None"

fun as_double :: "zval \<Rightarrow> 64 word option" where
  "as_double (ZDouble d) = Some d" | "as_double _ = None"

fun as_z_str :: "zval \<Rightarrow> bytes option" where
  "as_z_str (ZStr s) = Some s" | "as_z_str _ = None"

fun as_z_arr :: "zval \<Rightarrow> zarr option" where
  "as_z_arr (ZArr a) = Some a" | "as_z_arr _ = None"

fun as_z_obj :: "zval \<Rightarrow> zobj option" where
  "as_z_obj (ZObj ob) = Some ob" | "as_z_obj _ = None"

fun as_z_res :: "zval \<Rightarrow> i64 option" where
  "as_z_res (ZRes h) = Some h" | "as_z_res _ = None"

fun as_z_ref :: "zval \<Rightarrow> zval option" where
  "as_z_ref (ZRef v) = Some v" | "as_z_ref _ = None"

lemma as_eq_Some_iff [simp]:
  "as_bool v = Some b \<longleftrightarrow> v = ZBool b" "as_long v = Some n \<longleftrightarrow> v = ZLong n"
  "as_z_str v = Some t \<longleftrightarrow> v = ZStr t" "as_z_arr v = Some a \<longleftrightarrow> v = ZArr a"
  "as_z_obj v = Some ob \<longleftrightarrow> v = ZObj ob" "as_z_res v = Some h \<longleftrightarrow> v = ZRes h"
  "as_z_ref v = Some w \<longleftrightarrow> v = ZRef w"
  by (cases v; auto)+

text \<open>The \<^verbatim>\<open>expect_*\<close> accessors fail with an error of the \<^verbatim>\<open>phper\<close> crate.\<close>

definition expect :: "bytes \<Rightarrow> 'a option \<Rightarrow> 'a outcome" where
  "expect ty v = (case v of None \<Rightarrow> Err (PHPer (''type error: expect '' @ ty)) | Some x \<Rightarrow> Ok x)"

lemma expect_simps [simp]: "expect ty (Some x) = Ok x" "expect ty None = Err (PHPer (''type error: expect '' @ ty))"
  by (simp_all add: expect_def)

text \<open>\<^verbatim>\<open>to_str()?\<close>: the string, or the UTF-8 error.\<close>

definition expect_utf8 :: "bytes \<Rightarrow> bytes outcome" where
  "expect_utf8 s = (case to_str s of None \<Rightarrow> Err (error_from ''invalid utf-8 sequence'') | Some t \<Rightarrow> Ok t)"

lemma expect_utf8_valid [simp]: "utf8_valid s \<Longrightarrow> expect_utf8 s = Ok s"
  by (simp add: expect_utf8_def to_str_def)

lemma expect_utf8_Ok_iff: "expect_utf8 s = Ok t \<longleftrightarrow> utf8_valid s \<and> t = s"
  by (auto simp: expect_utf8_def to_str_def)

definition arr_get :: "zarr \<Rightarrow> zkey \<Rightarrow> zval option" where
  "arr_get a k = map_of a k"

definition get_property :: "zobj \<Rightarrow> bytes \<Rightarrow> zval" where
  "get_property ob p = (case map_of (obj_props ob) p of None \<Rightarrow> ZNull | Some v \<Rightarrow> v)"

text \<open>Insert or overwrite one key, keeping the position of a key that is there.\<close>

fun arr_insert :: "('k \<times> 'v) list \<Rightarrow> 'k \<Rightarrow> 'v \<Rightarrow> ('k \<times> 'v) list" where
  "arr_insert [] k v = [(k, v)]"
| "arr_insert ((k', v') # a) k v =
     (if k' = k then (k, v) # a else (k', v') # arr_insert a k v)"

lemma map_of_arr_insert [simp]: "map_of (arr_insert a k v) = (map_of a)(k \<mapsto> v)"
  by (induction a k v rule: arr_insert.induct) auto

definition arr_delete :: "('k \<times> 'v) list \<Rightarrow> 'k \<Rightarrow> ('k \<times> 'v) list" where
  "arr_delete a k = filter (\<lambda>(k', _). k' \<noteq> k) a"

lemma map_of_arr_delete [simp]: "map_of (arr_delete a k) = map_remove (map_of a) k"
  by (induction a) (auto simp: arr_delete_def fun_eq_iff)

lemma set_keys_arr_insert [simp]: "fst ` set (arr_insert a k v) = insert k (fst ` set a)"
  by (induction a k v rule: arr_insert.induct) auto

lemma distinct_arr_insert [simp]: "distinct (map fst (arr_insert a k v)) = distinct (map fst a)"
proof (induction a k v rule: arr_insert.induct)
  case (2 k' v' a k v)
  have "fst ` set (arr_insert a k v) = insert k (fst ` set a)" by (rule set_keys_arr_insert)
  with 2 show ?case by (auto simp: image_iff)
qed simp

lemma distinct_arr_delete: "distinct (map fst a) \<Longrightarrow> distinct (map fst (arr_delete a k))"
  by (induction a) (auto simp: arr_delete_def)

fun set_property :: "zobj \<Rightarrow> bytes \<Rightarrow> zval \<Rightarrow> zobj" where
  "set_property (Zobj h c ps) p v = Zobj h c (arr_insert ps p v)"

lemma get_set_property [simp]: "get_property (set_property ob p v) p = v"
  by (cases ob) (simp add: get_property_def)

lemma get_set_property_other: "q \<noteq> p \<Longrightarrow> get_property (set_property ob p v) q = get_property ob q"
  by (cases ob) (simp add: get_property_def)

text \<open>Writing back a property that is set changes nothing.\<close>

lemma arr_insert_same: "map_of a k = Some v \<Longrightarrow> arr_insert a k v = a"
  by (induction a) (auto split: if_splits)

lemma set_property_same [simp]: "get_property ob p = ZArr a \<Longrightarrow> set_property ob p (ZArr a) = ob"
  by (cases ob) (auto simp: get_property_def arr_insert_same split: option.splits)

text \<open>
  \<^verbatim>\<open>InsertKey::NextIndex\<close> appends under the array's next free index, which the engine keeps.
\<close>

definition arr_push :: "i64 \<Rightarrow> zarr \<Rightarrow> zval \<Rightarrow> zarr" where
  "arr_push i a v = a @ [(Index i, v)]"

definition z_val_to_string :: "zval \<Rightarrow> bytes option" where
  "z_val_to_string zv = Option.bind (as_z_str zv) to_str"

lemma z_val_to_string_Some: "z_val_to_string zv = Some s \<longleftrightarrow> zv = ZStr s \<and> utf8_valid s"
  by (cases zv) (auto simp: z_val_to_string_def)

text \<open>A class name with its namespaces, which PHP separates by a backslash.\<close>

definition class_path :: "bytes list \<Rightarrow> bytes" where
  "class_path ps = join [CHR 0x5C] ps"

section \<open>Call frames\<close>

text \<open>
  \<open>slots\<close> are the argument slots behind the frame header.  Only the first \<open>num_args\<close> hold
  arguments; \<^verbatim>\<open>get_parameter(i)\<close> reads slot \<open>i\<close> without a bound check, so what it finds
  beyond \<open>num_args\<close> is whatever the VM stack holds there.  \<open>address\<close> is the frame's address.
\<close>

record frame =
  fn_name :: "bytes option"
  fn_class :: "bytes option"
  num_args :: nat
  slots :: "nat \<Rightarrow> zval"
  this_obj :: "zobj option"
  address :: nat

record exec_data = frame +
  callers :: "frame list"

definition get_parameter :: "'a frame_scheme \<Rightarrow> nat \<Rightarrow> zval" where
  "get_parameter f i = slots f i"

definition set_parameter :: "exec_data \<Rightarrow> nat \<Rightarrow> zval \<Rightarrow> exec_data" where
  "set_parameter ed i v = ed\<lparr>slots := (slots ed)(i := v)\<rparr>"

definition validate_num_args :: "exec_data \<Rightarrow> nat \<Rightarrow> unit outcome" where
  "validate_num_args ed n =
     (if num_args ed < n then Err (Anyhow ''argument count incorrect'') else Ok ())"

definition get_this_mut :: "exec_data \<Rightarrow> zobj outcome" where
  "get_this_mut ed = with_context ''$this is empty'' (this_obj ed)"

lemma validate_num_args_Ok [simp]: "validate_num_args ed n = Ok u \<longleftrightarrow> n \<le> num_args ed"
  by (auto simp: validate_num_args_def)

lemma get_this_mut_Ok [simp]: "get_this_mut ed = Ok ob \<longleftrightarrow> this_obj ed = Some ob"
  by (simp add: get_this_mut_def)

lemma get_this_mut_Some [simp]: "this_obj ed = Some ob \<Longrightarrow> get_this_mut ed = Ok ob"
  by simp

lemma validate_num_args_ge [simp]: "n \<le> num_args ed \<Longrightarrow> validate_num_args ed n = Ok ()"
  by simp

text \<open>
  Two frames are the same to a caller that only looks at passed arguments if they differ at
  most in the slots beyond them.
\<close>

definition same_args :: "exec_data \<Rightarrow> exec_data \<Rightarrow> bool" where
  "same_args ed ed' \<longleftrightarrow>
     fn_name ed = fn_name ed' \<and> fn_class ed = fn_class ed' \<and> num_args ed = num_args ed' \<and>
     this_obj ed = this_obj ed' \<and> address ed = address ed' \<and> callers ed = callers ed' \<and>
     (\<forall>i < num_args ed. slots ed i = slots ed' i)"

lemma same_args_parameter: "same_args ed ed' \<Longrightarrow> i < num_args ed \<Longrightarrow> get_parameter ed i = get_parameter ed' i"
  by (simp add: same_args_def get_parameter_def)

section \<open>Calling styles\<close>

datatype api_style = ObjectOriented | Procedural

fun style_this_mut :: "api_style \<Rightarrow> exec_data \<Rightarrow> zobj outcome" where
  "style_this_mut ObjectOriented ed = get_this_mut ed"
| "style_this_mut Procedural ed =
     with_context ''first argument isn't object'' (as_z_obj (get_parameter ed 0))"

definition style_index :: "api_style \<Rightarrow> nat \<Rightarrow> nat" where
  "style_index st i = (case st of ObjectOriented \<Rightarrow> i | Procedural \<Rightarrow> i + 1)"

definition style_parameter :: "api_style \<Rightarrow> exec_data \<Rightarrow> nat \<Rightarrow> zval" where
  "style_parameter st ed i = get_parameter ed (style_index st i)"

definition style_validate_num_args :: "api_style \<Rightarrow> exec_data \<Rightarrow> nat \<Rightarrow> unit outcome" where
  "style_validate_num_args st ed n = validate_num_args ed (style_index st n)"

fun generate_operation_name :: "api_style \<Rightarrow> bytes option \<Rightarrow> bytes \<Rightarrow> bytes" where
  "generate_operation_name ObjectOriented cls fn =
     (case cls of None \<Rightarrow> [] | Some c \<Rightarrow> c) @ ''->'' @ fn"
| "generate_operation_name Procedural cls fn = fn"

end
