(* ===== verification/Agent.thy ===== *)
theory Agent
  imports Php
begin

text \<open>
  The state of the agent process and its environment.  The record \<open>agent\<close> has one field
  for every \<^verbatim>\<open>static\<close> and \<^verbatim>\<open>thread_local!\<close> of the source, together with what the agent does
  to the outside: the spans that are open (\<open>spans\<close>), the spans that were dropped and hence
  finished (\<open>finished\<close>), and a chronological log of the calls it makes (\<open>log\<close>).

  The record \<open>env\<close> collects the code the agent relies on and that is not part of it: the
  PHP engine, the \<^verbatim>\<open>skywalking\<close> and \<^verbatim>\<open>url\<close> crates and the configuration.  It is an argument
  of every definition that needs it; its answers may depend on everything logged so far.

  A span is what the agent asks of the tracing crate: the arguments it was created with and
  the calls made on it, in order.  Nothing is assumed about how the crate stores them.
\<close>

section \<open>Constants\<close>

text \<open>\<^verbatim>\<open>src/src/component.rs\<close>\<close>

definition COMPONENT_PHP_ID :: int where "COMPONENT_PHP_ID = 8001"
definition COMPONENT_PHP_CURL_ID :: int where "COMPONENT_PHP_CURL_ID = 8002"
definition COMPONENT_PHP_PDO_ID :: int where "COMPONENT_PHP_PDO_ID = 8003"
definition COMPONENT_PHP_MYSQLI_ID :: int where "COMPONENT_PHP_MYSQLI_ID = 8004"
definition COMPONENT_PHP_PREDIS_ID :: int where "COMPONENT_PHP_PREDIS_ID = 8006"
definition COMPONENT_PHP_MEMCACHED_ID :: int where "COMPONENT_PHP_MEMCACHED_ID = 20"
definition COMPONENT_PHP_REDIS_ID :: int where "COMPONENT_PHP_REDIS_ID = 7"
definition COMPONENT_AMQP_PRODUCER_ID :: int where "COMPONENT_AMQP_PRODUCER_ID = 144"
definition COMPONENT_MONGODB_ID :: int where "COMPONENT_MONGODB_ID = 9"

text \<open>\<^verbatim>\<open>src/src/tag.rs\<close>\<close>

definition TAG_CACHE_TYPE :: bytes where "TAG_CACHE_TYPE = ''cache.type''"
definition TAG_CACHE_OP :: bytes where "TAG_CACHE_OP = ''cache.op''"
definition TAG_CACHE_CMD :: bytes where "TAG_CACHE_CMD = ''cache.cmd''"
definition TAG_CACHE_KEY :: bytes where "TAG_CACHE_KEY = ''cache.key''"
definition TAG_DB_STATEMENT :: bytes where "TAG_DB_STATEMENT = ''db.statement''"
definition TAG_DB_TYPE :: bytes where "TAG_DB_TYPE = ''db.type''"
definition TAG_MQ_BROKER :: bytes where "TAG_MQ_BROKER = ''mq.broker''"
definition TAG_MQ_TOPIC :: bytes where "TAG_MQ_TOPIC = ''mq.topic''"
definition TAG_MQ_QUEUE :: bytes where "TAG_MQ_QUEUE = ''mq.queue''"

datatype cache_op = Read | Write

fun cache_op_display :: "cache_op \<Rightarrow> bytes" where
  "cache_op_display Read = ''read''"
| "cache_op_display Write = ''write''"

section \<open>Spans\<close>

datatype span_layer = LayerDatabase | LayerHttp | LayerMq | LayerCache

text \<open>A decoded \<^verbatim>\<open>sw8\<close> header, as an opaque token.\<close>

type_synonym propagation = nat

datatype span_kind = EntrySpan "propagation option" | ExitSpan bytes

datatype span_call =
    SetLayer span_layer
  | SetComponent int
  | AddTag bytes bytes
  | SetError bool
  | SetPeer bytes
  | AddLog "(bytes \<times> bytes) list"
  | PrepareForAsync

record span =
  sp_ctx :: nat
  sp_kind :: span_kind
  sp_operation :: bytes
  sp_calls :: "span_call list"

definition span_tags :: "span \<Rightarrow> (bytes \<times> bytes) list" where
  "span_tags sp = List.map_filter (\<lambda>c. case c of AddTag k v \<Rightarrow> Some (k, v) | _ \<Rightarrow> None) (sp_calls sp)"

fun last_error :: "bool \<Rightarrow> span_call list \<Rightarrow> bool" where
  "last_error b [] = b"
| "last_error b (c # cs) = last_error (case c of SetError b' \<Rightarrow> b' | _ \<Rightarrow> b) cs"

text \<open>A span starts without error; the last write of \<^verbatim>\<open>is_error\<close> decides.\<close>

definition span_is_error :: "span \<Rightarrow> bool" where
  "span_is_error sp = last_error False (sp_calls sp)"

lemma last_error_append [simp]: "last_error b (cs @ ds) = last_error (last_error b cs) ds"
  by (induction cs arbitrary: b) auto

lemma span_tags_append:
  "span_tags (sp\<lparr>sp_calls := cs @ ds\<rparr>) = span_tags (sp\<lparr>sp_calls := cs\<rparr>) @ span_tags (sp\<lparr>sp_calls := ds\<rparr>)"
  by (induction cs) (auto simp: span_tags_def List.map_filter_def)

section \<open>Events\<close>

text \<open>Calls into the engine: a global function, a method of an object, a constructor.\<close>

datatype callee = GlobalFn bytes | MethodOf u32 bytes | NewObject bytes

record log_record =
  lr_content :: bytes
  lr_ctx :: nat
  lr_endpoint :: bytes
  lr_span :: nat
  lr_tags :: "(bytes \<times> bytes) list"

datatype event =
    PhpCall callee "zval list"
  | ContextCreated nat
  | ContextDropped nat
  | SpanOpened nat
  | SpanClosed nat
  | OriginalCalled "bytes option"
  | EngineDtorRun nat u32
  | EngineFreeRun nat u32
  | LogReported log_record

section \<open>Component states\<close>

record req_ctx =
  tracing_context :: nat
  entry_span :: nat

record curl_multi_info =
  exec_spans :: "(i64 \<times> nat) list option"
  curl_handles :: "(i64 \<times> zval) list"

record dsn =
  db_type :: bytes
  data_source :: bytes
  peer :: bytes

text \<open>
  The function pointers \<^verbatim>\<open>dtor_obj\<close> and \<^verbatim>\<open>free_obj\<close> of the engine's handlers tables: one of the
  engine's own functions (numbered), or one the agent installs.
\<close>

datatype dtor_fn = EngineDtor nat | PdoDtor | PdoStatementDtor

datatype free_fn = EngineFree nat | RedisDtor

text \<open>What a before hook hands to its after hook (\<^verbatim>\<open>Box<dyn Any>\<close>).\<close>

datatype hook_data = DUnit | DSpan nat | DBool bool

text \<open>
  The hook closures, each named by the method that builds it and the variables it captures.
\<close>

datatype hook_id =
    HCurlSetopt | HCurlSetoptArray | HCurlExec | HCurlClose
  | HCurlMultiAddHandle | HCurlMultiRemoveHandle | HCurlMultiExec | HCurlMultiClose
  | HPdoConstruct | HPdoMethods bytes | HPdoStatementMethods bytes
  | HMysqliConnect "bytes option" bytes api_style
  | HMysqliMethods "bytes option" bytes api_style
  | HSwooleOn | HSwooleHandle | HSwooleStatus
  | HPredisExecuteCommand bytes
  | HMemcachedEmpty bytes bytes | HMemcachedKey bytes bytes | HMemcachedServerKey bytes bytes
  | HRedisConstruct | HRedisConnect bytes bytes | HRedisMethods bytes bytes
  | HAmqpBasicPublish bytes bytes
  | HMongoNamespace bytes | HMongoDb bytes
  | HMemcacheServer "bytes option" bytes api_style
  | HMemcacheEmpty "bytes option" bytes api_style
  | HMemcacheKey "bytes option" bytes api_style
  | HPsrLogMethods bytes bytes psr_level | HPsrLog bytes bytes

record agent =
  log :: "event list"
  spans :: "nat \<rightharpoonup> span"
  finished :: "span list"
  next_id :: nat
  request_context :: "i64 option \<rightharpoonup> req_ctx"
  symbol_table :: "bytes \<rightharpoonup> zval"
  swoole_status :: "i64 \<rightharpoonup> i32"
  ori_on_request :: "zval option"
  is_swoole :: bool
  hook_map :: "(bytes option \<times> bytes) \<rightharpoonup> hook_id option"
  result_map :: "nat \<rightharpoonup> hook_data"
  curl_headers :: "i64 \<rightharpoonup> zval"
  curl_multi :: "i64 \<rightharpoonup> curl_multi_info"
  dsn_map :: "u32 \<rightharpoonup> dsn"
  dtor_map :: "u32 \<rightharpoonup> dtor_fn option"
  redis_peers :: "u32 \<rightharpoonup> bytes"
  redis_free_map :: "u32 \<rightharpoonup> free_fn option"
  memcache_peers :: "u32 \<rightharpoonup> bytes"
  dtor_obj :: "nat \<Rightarrow> dtor_fn option"
  free_obj :: "nat \<Rightarrow> free_fn option"

type_synonym 'a agent_act = "(agent, 'a) act"

definition init_agent :: agent where
  "init_agent =
     \<lparr>log = [], spans = Map.empty, finished = [], next_id = 0,
      request_context = Map.empty, symbol_table = Map.empty,
      swoole_status = Map.empty, ori_on_request = None, is_swoole = False,
      hook_map = Map.empty, result_map = Map.empty,
      curl_headers = Map.empty, curl_multi = Map.empty,
      dsn_map = Map.empty, dtor_map = Map.empty,
      redis_peers = Map.empty, redis_free_map = Map.empty, memcache_peers = Map.empty,
      dtor_obj = (\<lambda>t. Some (EngineDtor t)), free_obj = (\<lambda>t. Some (EngineFree t))\<rparr>"

section \<open>Environment\<close>

record url =
  url_scheme :: bytes
  url_host :: "bytes option"
  url_port :: "nat option"
  url_path :: bytes
  url_string :: bytes

record config =
  psr_logging_level :: psr_level
  skywalking_version :: i64
  inject_context :: bool

record env =
  cfg :: config
  php_call :: "event list \<Rightarrow> callee \<Rightarrow> zval list \<Rightarrow> bytes + zval"
  pending_exception :: "event list \<Rightarrow> zobj option"
  class_exists :: "event list \<Rightarrow> bytes \<Rightarrow> bool"
  instance_of :: "event list \<Rightarrow> bytes \<Rightarrow> bytes \<Rightarrow> bool"
  handlers_of :: "zobj \<Rightarrow> nat"
  next_free_index :: "zarr \<Rightarrow> i64"
  iter_order :: "event list \<Rightarrow> (i64 \<times> zval) list \<Rightarrow> (i64 \<times> zval) list"
  show_f64 :: "64 word \<Rightarrow> bytes"
  parse_url :: "bytes \<Rightarrow> url option"
  decode_propagation :: "bytes \<Rightarrow> bytes + propagation"
  encode_propagation :: "event list \<Rightarrow> nat \<Rightarrow> bytes \<Rightarrow> bytes \<Rightarrow> bytes"
  ctx_service :: "nat \<Rightarrow> bytes"
  ctx_service_instance :: "nat \<Rightarrow> bytes"
  ctx_trace_id :: "nat \<Rightarrow> bytes"
  class_not_found :: "bytes \<Rightarrow> bytes"
  no_tracer :: "payload option"
  auto_globals_jit :: bool
  auto_global :: "bytes \<Rightarrow> (bytes \<rightharpoonup> zval) \<Rightarrow> (bytes \<rightharpoonup> zval)"

section \<open>Calls into the engine\<close>

definition emit :: "event \<Rightarrow> agent \<Rightarrow> agent" where
  "emit ev s = s\<lparr>log := log s @ [ev]\<rparr>"

text \<open>
  \<^verbatim>\<open>phper::functions::call\<close> and \<^verbatim>\<open>ZObj::call\<close>: the call is logged, then answered by the
  engine, with an error when PHP throws or the function does not exist.
\<close>

definition call :: "env \<Rightarrow> callee \<Rightarrow> zval list \<Rightarrow> zval agent_act" where
  "call E c args = (\<lambda>s.
     (case php_call E (log s) c args of Inl m \<Rightarrow> Err (PHPer m) | Inr v \<Rightarrow> Ok v,
      emit (PhpCall c args) s))"

definition call_method :: "env \<Rightarrow> zobj \<Rightarrow> bytes \<Rightarrow> zval list \<Rightarrow> zval agent_act" where
  "call_method E ob m args = call E (MethodOf (obj_handle ob) m) args"

section \<open>Contexts and spans\<close>

text \<open>
  The global tracer makes a context, if the start of the extension has set one; if not, the
  tracing library does not return normally.
\<close>

definition create_trace_context :: "env \<Rightarrow> nat agent_act" where
  "create_trace_context E =
     (case no_tracer E of
        Some p \<Rightarrow> panic p
      | None \<Rightarrow> (\<lambda>s. (Ok (next_id s), emit (ContextCreated (next_id s)) (s\<lparr>next_id := Suc (next_id s)\<rparr>))))"

definition drop_context :: "nat \<Rightarrow> agent \<Rightarrow> agent" where
  "drop_context c s = emit (ContextDropped c) s"

definition open_span :: "span \<Rightarrow> nat agent_act" where
  "open_span sp = (\<lambda>s.
     (Ok (next_id s),
      emit (SpanOpened (next_id s))
        (s\<lparr>spans := (spans s)(next_id s \<mapsto> sp), next_id := Suc (next_id s)\<rparr>)))"

definition create_entry_span :: "nat \<Rightarrow> bytes \<Rightarrow> propagation option \<Rightarrow> nat agent_act" where
  "create_entry_span c op p =
     open_span \<lparr>sp_ctx = c, sp_kind = EntrySpan p, sp_operation = op, sp_calls = []\<rparr>"

definition create_exit_span :: "nat \<Rightarrow> bytes \<Rightarrow> bytes \<Rightarrow> nat agent_act" where
  "create_exit_span c op pr =
     open_span \<lparr>sp_ctx = c, sp_kind = ExitSpan pr, sp_operation = op, sp_calls = []\<rparr>"

definition upd_span :: "nat \<Rightarrow> span_call list \<Rightarrow> agent \<Rightarrow> agent" where
  "upd_span i cs s =
     (case spans s i of None \<Rightarrow> s
      | Some sp \<Rightarrow> s\<lparr>spans := (spans s)(i \<mapsto> sp\<lparr>sp_calls := sp_calls sp @ cs\<rparr>)\<rparr>)"

definition on_span :: "nat \<Rightarrow> span_call list \<Rightarrow> unit agent_act" where
  "on_span i cs = modify (upd_span i cs)"

text \<open>The drop of a span finishes it.\<close>

definition close_span :: "nat \<Rightarrow> agent \<Rightarrow> agent" where
  "close_span i s =
     (case spans s i of None \<Rightarrow> s
      | Some sp \<Rightarrow> emit (SpanClosed i)
          (s\<lparr>spans := map_remove (spans s) i, finished := finished s @ [sp]\<rparr>))"

end
