(* ===== verification/Context.thy ===== *)
theory Context
  imports Agent
begin

text \<open>
  \<^verbatim>\<open>src/src/context.rs\<close>: the table of request contexts, keyed by the request id (\<open>None\<close> under
  PHP-FPM, the connection's descriptor under Swoole).  A \<open>RequestContext\<close> owns a tracing
  context and its entry span; replacing or removing an entry drops or moves what it owns.

  Also the interface of the keyed tables of the agent (\<^verbatim>\<open>DashMap\<close>, \<^verbatim>\<open>HashMap\<close>) as a locale,
  with the isolation of keys under interleaved operations proved once, and the frame lemmas
  of the tracing primitives.
\<close>

section \<open>Frame lemmas of the tracing primitives\<close>

lemma emit_sel [simp]:
  "log (emit ev s) = log s @ [ev]" "spans (emit ev s) = spans s"
  "finished (emit ev s) = finished s" "next_id (emit ev s) = next_id s"
  "request_context (emit ev s) = request_context s" "symbol_table (emit ev s) = symbol_table s"
  "swoole_status (emit ev s) = swoole_status s" "ori_on_request (emit ev s) = ori_on_request s"
  "is_swoole (emit ev s) = is_swoole s" "hook_map (emit ev s) = hook_map s"
  "result_map (emit ev s) = result_map s" "curl_headers (emit ev s) = curl_headers s"
  "curl_multi (emit ev s) = curl_multi s" "dsn_map (emit ev s) = dsn_map s"
  "dtor_map (emit ev s) = dtor_map s" "redis_peers (emit ev s) = redis_peers s"
  "redis_free_map (emit ev s) = redis_free_map s" "memcache_peers (emit ev s) = memcache_peers s"
  "dtor_obj (emit ev s) = dtor_obj s" "free_obj (emit ev s) = free_obj s"
  by (simp_all add: emit_def)

lemma upd_span_sel [simp]:
  "log (upd_span i cs s) = log s" "dom (spans (upd_span i cs s)) = dom (spans s)"
  "finished (upd_span i cs s) = finished s" "next_id (upd_span i cs s) = next_id s"
  "request_context (upd_span i cs s) = request_context s"
  "symbol_table (upd_span i cs s) = symbol_table s"
  "swoole_status (upd_span i cs s) = swoole_status s"
  "ori_on_request (upd_span i cs s) = ori_on_request s"
  "is_swoole (upd_span i cs s) = is_swoole s" "hook_map (upd_span i cs s) = hook_map s"
  "result_map (upd_span i cs s) = result_map s" "curl_headers (upd_span i cs s) = curl_headers s"
  "curl_multi (upd_span i cs s) = curl_multi s" "dsn_map (upd_span i cs s) = dsn_map s"
  "dtor_map (upd_span i cs s) = dtor_map s" "redis_peers (upd_span i cs s) = redis_peers s"
  "redis_free_map (upd_span i cs s) = redis_free_map s"
  "memcache_peers (upd_span i cs s) = memcache_peers s"
  "dtor_obj (upd_span i cs s) = dtor_obj s" "free_obj (upd_span i cs s) = free_obj s"
  by (auto simp: upd_span_def split: option.split)

lemma spans_upd_span:
  "spans (upd_span i cs s) =
     (case spans s i of None \<Rightarrow> spans s
      | Some sp \<Rightarrow> (spans s)(i \<mapsto> sp\<lparr>sp_calls := sp_calls sp @ cs\<rparr>))"
  by (simp add: upd_span_def split: option.split)

lemma close_span_sel [simp]:
  "dom (spans (close_span i s)) = dom (spans s) - {i}"
  "next_id (close_span i s) = next_id s"
  "request_context (close_span i s) = request_context s"
  "symbol_table (close_span i s) = symbol_table s"
  "swoole_status (close_span i s) = swoole_status s"
  "ori_on_request (close_span i s) = ori_on_request s"
  "is_swoole (close_span i s) = is_swoole s" "hook_map (close_span i s) = hook_map s"
  "result_map (close_span i s) = result_map s" "curl_headers (close_span i s) = curl_headers s"
  "curl_multi (close_span i s) = curl_multi s" "dsn_map (close_span i s) = dsn_map s"
  "dtor_map (close_span i s) = dtor_map s" "redis_peers (close_span i s) = redis_peers s"
  "redis_free_map (close_span i s) = redis_free_map s"
  "memcache_peers (close_span i s) = memcache_peers s"
  "dtor_obj (close_span i s) = dtor_obj s" "free_obj (close_span i s) = free_obj s"
  by (auto simp: close_span_def split: option.split)

lemma spans_close_span [simp]: "spans (close_span i s) = map_remove (spans s) i"
  by (auto simp: close_span_def map_remove_idem split: option.split)

lemma finished_close_span:
  "spans s i = Some sp \<Longrightarrow> finished (close_span i s) = finished s @ [sp]"
  by (simp add: close_span_def)

lemma drop_context_sel [simp]:
  "spans (drop_context c s) = spans s" "finished (drop_context c s) = finished s"
  "next_id (drop_context c s) = next_id s" "is_swoole (drop_context c s) = is_swoole s"
  "request_context (drop_context c s) = request_context s"
  "symbol_table (drop_context c s) = symbol_table s"
  "swoole_status (drop_context c s) = swoole_status s"
  "ori_on_request (drop_context c s) = ori_on_request s"
  "hook_map (drop_context c s) = hook_map s" "result_map (drop_context c s) = result_map s"
  "curl_headers (drop_context c s) = curl_headers s" "curl_multi (drop_context c s) = curl_multi s"
  by (simp_all add: drop_context_def)

definition call_result :: "env \<Rightarrow> agent \<Rightarrow> callee \<Rightarrow> zval list \<Rightarrow> zval outcome" where
  "call_result E s c args =
     (case php_call E (log s) c args of Inl m \<Rightarrow> Err (PHPer m) | Inr v \<Rightarrow> Ok v)"

lemma call_eq: "call E c args s = (call_result E s c args, emit (PhpCall c args) s)"
  by (simp add: call_def call_result_def)

lemma call_result_no_panic [simp]: "call_result E s c args \<noteq> Panic p"
  by (simp add: call_result_def split: sum.split)

lemma andthen_call [simp]:
  "andthen (call E c args) f s =
     (case call_result E s c args of
        Ok v \<Rightarrow> f v (emit (PhpCall c args) s)
      | Err e \<Rightarrow> (Err e, emit (PhpCall c args) s)
      | Panic p \<Rightarrow> (Panic p, emit (PhpCall c args) s))"
  by (simp add: andthen_def call_eq split: outcome.split)

lemma andthen_on_span [simp]: "andthen (on_span i cs) f s = f () (upd_span i cs s)"
  by (simp add: on_span_def)

lemma on_span_eq [simp]: "on_span i cs s = (Ok (), upd_span i cs s)"
  by (simp add: on_span_def)

lemma keeps_call [keeps_intros]:
  "(\<And>s. I s \<Longrightarrow> I (emit (PhpCall c args) s)) \<Longrightarrow> keeps I (call E c args)"
  by (simp add: keeps_def call_eq)

lemma leaves_call [keeps_intros]:
  "(\<And>s. f (emit (PhpCall c args) s) = f s) \<Longrightarrow> leaves f (call E c args)"
  by (simp add: leaves_def call_eq)

lemma leaves_call_method [keeps_intros]:
  "(\<And>s. f (emit (PhpCall (MethodOf (obj_handle ob) m) args) s) = f s) \<Longrightarrow> leaves f (call_method E ob m args)"
  by (simp add: call_method_def leaves_call)

lemma leaves_on_span [keeps_intros]: "(\<And>s. f (upd_span i cs s) = f s) \<Longrightarrow> leaves f (on_span i cs)"
  by (simp add: on_span_def leaves_modify)

section \<open>Keyed tables\<close>

text \<open>
  The contract of the agent's tables: a lookup sees the last insertion under its own key.
  \<open>'s\<close> is the whole state in which the table lives.
\<close>

datatype ('k, 'v) table_op = Insert 'k 'v | Remove 'k

fun op_key :: "('k, 'v) table_op \<Rightarrow> 'k" where
  "op_key (Insert k v) = k" | "op_key (Remove k) = k"

locale keyed_table =
  fixes get :: "'s \<Rightarrow> 'k \<Rightarrow> 'v option"
    and put :: "'k \<Rightarrow> 'v \<Rightarrow> 's \<Rightarrow> 's"
    and del :: "'k \<Rightarrow> 's \<Rightarrow> 's"
  assumes get_put: "get (put k v s) j = (if j = k then Some v else get s j)"
    and get_del: "get (del k s) j = (if j = k then None else get s j)"
begin

fun apply_op :: "('k, 'v) table_op \<Rightarrow> 's \<Rightarrow> 's" where
  "apply_op (Insert k v) s = put k v s"
| "apply_op (Remove k) s = del k s"

definition run :: "('k, 'v) table_op list \<Rightarrow> 's \<Rightarrow> 's" where
  "run ops s = fold apply_op ops s"

lemma get_apply_other: "op_key p \<noteq> k \<Longrightarrow> get (apply_op p s) k = get s k"
  by (cases p) (auto simp: get_put get_del)

lemma get_apply_same:
  "op_key p = k \<Longrightarrow> get (apply_op p s) k = (case p of Insert _ v \<Rightarrow> Some v | Remove _ \<Rightarrow> None)"
  by (cases p) (auto simp: get_put get_del)

text \<open>What a key holds after any interleaving depends on the operations on that key only.\<close>

lemma run_isolated: "get (run ops s) k = get (run (filter (\<lambda>p. op_key p = k) ops) s) k"
proof -
  have "get (fold apply_op ops s) k = get (fold apply_op (filter (\<lambda>p. op_key p = k) ops) t) k"
    if "get s k = get t k" for s t
    using that
  proof (induction ops arbitrary: s t)
    case (Cons p ops)
    show ?case
    proof (cases "op_key p = k")
      case True
      then have "get (apply_op p s) k = get (apply_op p t) k" by (simp add: get_apply_same)
      with True Cons.IH show ?thesis by simp
    next
      case False
      then have "get (apply_op p s) k = get t k" using Cons.prems by (simp add: get_apply_other)
      with False Cons.IH show ?thesis by simp
    qed
  qed simp
  then show ?thesis by (simp add: run_def)
qed

lemma run_untouched: "(\<forall>p \<in> set ops. op_key p \<noteq> k) \<Longrightarrow> get (run ops s) k = get s k"
proof -
  assume "\<forall>p \<in> set ops. op_key p \<noteq> k"
  then have "filter (\<lambda>p. op_key p = k) ops = []" by (simp add: filter_empty_conv)
  then show ?thesis by (subst run_isolated) (simp add: run_def)
qed

lemma put_del: "get (del k (put k v s)) k = None"
  by (simp add: get_del)

end

section \<open>The table of request contexts\<close>

text \<open>Fields of a struct are dropped in the order of their declaration.\<close>

definition drop_req_ctx :: "req_ctx \<Rightarrow> agent \<Rightarrow> agent" where
  "drop_req_ctx rc s = close_span (entry_span rc) (drop_context (tracing_context rc) s)"

definition insert_ctx :: "i64 option \<Rightarrow> req_ctx \<Rightarrow> agent \<Rightarrow> agent" where
  "insert_ctx rid rc s =
     (case request_context s rid of
        None \<Rightarrow> s\<lparr>request_context := (request_context s)(rid \<mapsto> rc)\<rparr>
      | Some old \<Rightarrow>
          drop_req_ctx old (s\<lparr>request_context := (request_context s)(rid \<mapsto> rc)\<rparr>))"

definition set_global :: "i64 option \<Rightarrow> req_ctx \<Rightarrow> unit agent_act" where
  "set_global rid rc = modify (insert_ctx rid rc)"

definition take_ctx :: "i64 option \<Rightarrow> agent \<Rightarrow> agent" where
  "take_ctx rid s = s\<lparr>request_context := map_remove (request_context s) rid\<rparr>"

definition remove_global :: "i64 option \<Rightarrow> req_ctx option agent_act" where
  "remove_global rid = (\<lambda>s. (Ok (request_context s rid), take_ctx rid s))"

definition try_with_global :: "i64 option \<Rightarrow> (req_ctx \<Rightarrow> 'a agent_act) \<Rightarrow> 'a agent_act" where
  "try_with_global rid f =
     andthen (reads (\<lambda>s. request_context s rid)) (\<lambda>r.
       case r of None \<Rightarrow> fail (Anyhow ''global tracing context not exists'')
       | Some c \<Rightarrow> f c)"

definition try_with_global_ctx :: "i64 option \<Rightarrow> (nat \<Rightarrow> 'a agent_act) \<Rightarrow> 'a agent_act" where
  "try_with_global_ctx rid f = try_with_global rid (\<lambda>c. f (tracing_context c))"

definition SW_HEADER :: bytes where
  "SW_HEADER = ''sw8''"

definition operation_of :: "agent \<Rightarrow> nat \<Rightarrow> bytes" where
  "operation_of s i = (case spans s i of None \<Rightarrow> [] | Some sp \<Rightarrow> sp_operation sp)"

definition try_get_sw_header :: "env \<Rightarrow> i64 option \<Rightarrow> bytes \<Rightarrow> bytes agent_act" where
  "try_get_sw_header E rid pr =
     try_with_global rid (\<lambda>c.
       reads (\<lambda>s. encode_propagation E (log s) (tracing_context c) (operation_of s (entry_span c)) pr))"

lemma drop_req_ctx_sel [simp]:
  "request_context (drop_req_ctx rc s) = request_context s"
  "spans (drop_req_ctx rc s) = map_remove (spans s) (entry_span rc)"
  "next_id (drop_req_ctx rc s) = next_id s"
  by (simp_all add: drop_req_ctx_def)

lemma insert_ctx_sel [simp]:
  "request_context (insert_ctx rid rc s) = (request_context s)(rid \<mapsto> rc)"
  by (simp add: insert_ctx_def split: option.split)

lemma take_ctx_sel [simp]:
  "request_context (take_ctx rid s) = map_remove (request_context s) rid"
  "spans (take_ctx rid s) = spans s" "next_id (take_ctx rid s) = next_id s"
  "finished (take_ctx rid s) = finished s" "log (take_ctx rid s) = log s"
  by (simp_all add: take_ctx_def)

interpretation rctx: keyed_table request_context insert_ctx take_ctx
  by unfold_locales auto

lemma try_with_global_eq:
  "try_with_global rid f s =
     (case request_context s rid of
        None \<Rightarrow> (Err (Anyhow ''global tracing context not exists''), s)
      | Some c \<Rightarrow> f c s)"
  by (simp add: try_with_global_def split: option.split)

lemma keeps_try_with_global [keeps_intros]:
  "(\<And>c. keeps I (f c)) \<Longrightarrow> keeps I (try_with_global rid f)"
  unfolding try_with_global_def by (auto intro!: keeps_intros)

lemma keeps_try_with_global_ctx [keeps_intros]:
  "(\<And>c. keeps I (f c)) \<Longrightarrow> keeps I (try_with_global_ctx rid f)"
  unfolding try_with_global_ctx_def by (rule keeps_try_with_global)

lemma leaves_try_with_global [keeps_intros]:
  "(\<And>c. leaves g (f c)) \<Longrightarrow> leaves g (try_with_global rid f)"
  by (simp add: leaves_iff_keeps keeps_try_with_global)

lemma leaves_try_with_global_ctx [keeps_intros]:
  "(\<And>c. leaves g (f c)) \<Longrightarrow> leaves g (try_with_global_ctx rid f)"
  by (simp add: leaves_iff_keeps keeps_try_with_global_ctx)

lemma leaves_try_get_sw_header [keeps_intros, simp]: "leaves g (try_get_sw_header E rid pr)"
  unfolding try_get_sw_header_def by (auto intro!: keeps_intros)

section \<open>Exit spans\<close>

text \<open>
  Every plugin creates its exit span inside \<^verbatim>\<open>try_with_global_ctx\<close> and then decorates it.
\<close>

definition create_exit_span_in :: "i64 option \<Rightarrow> bytes \<Rightarrow> bytes \<Rightarrow> nat agent_act" where
  "create_exit_span_in rid op pr = try_with_global_ctx rid (\<lambda>c. create_exit_span c op pr)"

text \<open>The set of open spans, and the freshness of their numbers.\<close>

definition open_spans :: "agent \<Rightarrow> nat set" where
  "open_spans s = dom (spans s)"

definition fresh_ids :: "agent \<Rightarrow> bool" where
  "fresh_ids s \<longleftrightarrow> (\<forall>i \<in> open_spans s. i < next_id s)"

lemma open_spans_simps [simp]:
  "open_spans (emit ev s) = open_spans s" "open_spans (upd_span i cs s) = open_spans s"
  "open_spans (close_span i s) = open_spans s - {i}" "open_spans (drop_context c s) = open_spans s"
  "open_spans (take_ctx rid s) = open_spans s"
  by (simp_all add: open_spans_def)

lemma fresh_ids_simps [simp]:
  "fresh_ids (emit ev s) = fresh_ids s" "fresh_ids (upd_span i cs s) = fresh_ids s"
  "fresh_ids s \<Longrightarrow> fresh_ids (close_span i s)" "fresh_ids (drop_context c s) = fresh_ids s"
  "fresh_ids (take_ctx rid s) = fresh_ids s"
  by (auto simp: fresh_ids_def)

lemma fresh_ids_not_open: "fresh_ids s \<Longrightarrow> next_id s \<notin> open_spans s"
  by (auto simp: fresh_ids_def)

lemma open_span_eq:
  "open_span sp s =
     (Ok (next_id s),
      emit (SpanOpened (next_id s))
        (s\<lparr>spans := (spans s)(next_id s \<mapsto> sp), next_id := Suc (next_id s)\<rparr>))"
  by (simp add: open_span_def)

lemma open_span_spec:
  assumes "open_span sp s = (r, s')" and "fresh_ids s"
  shows "r = Ok (next_id s)" "open_spans s' = insert (next_id s) (open_spans s)"
    "fresh_ids s'" "next_id s \<notin> open_spans s" "spans s' (next_id s) = Some sp"
  using assms by (auto simp: open_span_eq open_spans_def fresh_ids_def less_Suc_eq)

lemma create_exit_span_in_eq:
  "create_exit_span_in rid op pr s =
     (case request_context s rid of
        None \<Rightarrow> (Err (Anyhow ''global tracing context not exists''), s)
      | Some c \<Rightarrow>
          open_span \<lparr>sp_ctx = tracing_context c, sp_kind = ExitSpan pr, sp_operation = op,
                     sp_calls = []\<rparr> s)"
  by (simp add: create_exit_span_in_def try_with_global_ctx_def try_with_global_eq
      create_exit_span_def split: option.split)

end
