(* ===== verification/Plugin_Base.thy ===== *)
theory Plugin_Base
  imports Context
begin

text \<open>
  What the plugins share: \<^verbatim>\<open>log_exception\<close> of \<^verbatim>\<open>src/src/plugin/mod.rs\<close>, the life of an exit
  span between a before hook and its after hook, and the contract \<open>span_hook\<close> that every
  pair of hooks promises to the interceptors of \<^verbatim>\<open>src/src/execute.rs\<close>: a before hook that
  returns hands over at most one span it opened, a before hook that fails leaves no span
  open, and an after hook closes what it was handed, however it ends.
\<close>

section \<open>Exceptions\<close>

definition exception_logs :: "zobj \<Rightarrow> zval outcome \<Rightarrow> (bytes \<times> bytes) list" where
  "exception_logs ex stack =
     (case to_str (obj_class ex) of Some c \<Rightarrow> [(''error.kind'', c)] | None \<Rightarrow> []) @
     (case z_val_to_string (get_property ex ''message'') of
        Some m \<Rightarrow> [(''message'', m)] | None \<Rightarrow> []) @
     (case stack of
        Ok v \<Rightarrow> (case z_val_to_string v of Some t \<Rightarrow> [(''stack'', t)] | None \<Rightarrow> [])
      | _ \<Rightarrow> [])"

definition log_exception :: "env \<Rightarrow> nat \<Rightarrow> zobj option agent_act" where
  "log_exception E i =
     andthen (reads (\<lambda>s. pending_exception E (log s))) (\<lambda>ex.
       case ex of None \<Rightarrow> ret None
       | Some ex \<Rightarrow>
           andthen (on_span i [SetError True]) (\<lambda>_.
           andthen (attempt (call_method E ex ''getTraceAsString'' [])) (\<lambda>stack.
           let logs = exception_logs ex stack in
           andthen (if logs = [] then ret () else on_span i [AddLog logs]) (\<lambda>_.
           ret (Some ex)))))"

lemma log_exception_none [simp]:
  "pending_exception E (log s) = None \<Longrightarrow> log_exception E i s = (Ok None, s)"
  by (simp add: log_exception_def)

lemma andthen_log_exception_none [simp]:
  "pending_exception E (log s) = None \<Longrightarrow> andthen (log_exception E i) f s = f None s"
  by (simp add: andthen_def)

section \<open>Hooks and the spans they hold\<close>

type_synonym before_hook = "i64 option \<Rightarrow> exec_data \<Rightarrow> (hook_data \<times> exec_data) agent_act"
type_synonym after_hook = "i64 option \<Rightarrow> hook_data \<Rightarrow> exec_data \<Rightarrow> zval \<Rightarrow> unit agent_act"

text \<open>The noop hooks of \<^verbatim>\<open>src/src/execute.rs\<close>.\<close>

definition noop_before :: before_hook where
  "noop_before rid ed = ret (DUnit, ed)"

definition noop_after :: after_hook where
  "noop_after rid d ed rv = ret ()"

definition unwrap_msg :: bytes where
  "unwrap_msg = ''called `Result::unwrap()` on an `Err` value: Any { .. }''"

text \<open>\<^verbatim>\<open>unwrap\<close> of a failed class lookup; the text of the error is the engine binding's.\<close>

definition unwrap_class_msg :: "env \<Rightarrow> bytes \<Rightarrow> bytes" where
  "unwrap_class_msg E c = ''called `Result::unwrap()` on an `Err` value: '' @ class_not_found E c"

text \<open>
  \<^verbatim>\<open>span.downcast::<Span>().unwrap()\<close>: the after hook owns the span from here on and drops it
  on every way out.
\<close>

definition downcast_span :: "hook_data \<Rightarrow> (nat \<Rightarrow> unit agent_act) \<Rightarrow> unit agent_act" where
  "downcast_span d k =
     (case d of DSpan i \<Rightarrow> on_exit (k i) (close_span i) | _ \<Rightarrow> panic (PanicString unwrap_msg))"

text \<open>The same with \<^verbatim>\<open>expect("Downcast to Span failed")\<close>.\<close>

definition expect_span :: "hook_data \<Rightarrow> (nat \<Rightarrow> unit agent_act) \<Rightarrow> unit agent_act" where
  "expect_span d k =
     (case d of DSpan i \<Rightarrow> on_exit (k i) (close_span i)
      | _ \<Rightarrow> panic (PanicString ''Downcast to Span failed: Any { .. }''))"

text \<open>A returned \<^verbatim>\<open>false\<close> marks the span as failed.\<close>

definition mark_false :: "nat \<Rightarrow> zval \<Rightarrow> unit agent_act" where
  "mark_false i rv = (if as_bool rv = Some False then on_span i [SetError True] else ret ())"

text \<open>
  A before hook that opens an exit span: if a later step fails, the local variable that
  holds the span is dropped; otherwise the span is returned, boxed.
\<close>

definition with_exit_span ::
  "i64 option \<Rightarrow> bytes \<Rightarrow> bytes \<Rightarrow> exec_data \<Rightarrow> (nat \<Rightarrow> unit agent_act) \<Rightarrow> (hook_data \<times> exec_data) agent_act" where
  "with_exit_span rid op pr ed k =
     andthen (create_exit_span_in rid op pr) (\<lambda>i.
       on_failure (andthen (k i) (\<lambda>_. ret (DSpan i, ed))) (close_span i))"

text \<open>The state right after the exit span of a request was opened.\<close>

definition opened :: "req_ctx \<Rightarrow> bytes \<Rightarrow> bytes \<Rightarrow> agent \<Rightarrow> agent" where
  "opened c op pr s =
     emit (SpanOpened (next_id s))
       (s\<lparr>spans := (spans s)(next_id s \<mapsto>
             \<lparr>sp_ctx = tracing_context c, sp_kind = ExitSpan pr, sp_operation = op, sp_calls = []\<rparr>),
          next_id := Suc (next_id s)\<rparr>)"

lemma with_exit_span_eq:
  "request_context s rid = Some c \<Longrightarrow>
   with_exit_span rid op pr ed k s =
     (case k (next_id s) (opened c op pr s) of
        (Ok _, s2) \<Rightarrow> (Ok (DSpan (next_id s), ed), s2)
      | (Err e, s2) \<Rightarrow> (Err e, close_span (next_id s) s2)
      | (Panic p, s2) \<Rightarrow> (Panic p, close_span (next_id s) s2))"
  by (simp add: with_exit_span_def andthen_def create_exit_span_in_eq open_span_eq on_failure_def
      opened_def split: outcome.split prod.split)

lemma with_exit_span_no_ctx:
  "request_context s rid = None \<Longrightarrow>
   with_exit_span rid op pr ed k s = (Err (Anyhow ''global tracing context not exists''), s)"
  by (simp add: with_exit_span_def andthen_def create_exit_span_in_eq)

lemma opened_sel [simp]:
  "spans (opened c op pr s) = (spans s)(next_id s \<mapsto>
     \<lparr>sp_ctx = tracing_context c, sp_kind = ExitSpan pr, sp_operation = op, sp_calls = []\<rparr>)"
  "log (opened c op pr s) = log s @ [SpanOpened (next_id s)]"
  "request_context (opened c op pr s) = request_context s"
  "finished (opened c op pr s) = finished s" "next_id (opened c op pr s) = Suc (next_id s)"
  "symbol_table (opened c op pr s) = symbol_table s"
  "swoole_status (opened c op pr s) = swoole_status s"
  "ori_on_request (opened c op pr s) = ori_on_request s" "is_swoole (opened c op pr s) = is_swoole s"
  "hook_map (opened c op pr s) = hook_map s" "result_map (opened c op pr s) = result_map s"
  "curl_headers (opened c op pr s) = curl_headers s" "curl_multi (opened c op pr s) = curl_multi s"
  "dsn_map (opened c op pr s) = dsn_map s" "dtor_map (opened c op pr s) = dtor_map s"
  "redis_peers (opened c op pr s) = redis_peers s"
  "redis_free_map (opened c op pr s) = redis_free_map s"
  "memcache_peers (opened c op pr s) = memcache_peers s"
  "dtor_obj (opened c op pr s) = dtor_obj s" "free_obj (opened c op pr s) = free_obj s"
  by (simp_all add: opened_def)

fun held :: "hook_data \<Rightarrow> nat set" where
  "held (DSpan i) = {i}" | "held DUnit = {}" | "held (DBool b) = {}"

lemma held_simps [simp]: "held d \<noteq> {} \<longleftrightarrow> (\<exists>i. d = DSpan i)"
  by (cases d) auto

text \<open>The calls of intercepted functions so far.\<close>

fun is_original :: "event \<Rightarrow> bool" where
  "is_original (OriginalCalled f) = True"
| "is_original _ = False"

text \<open>
  What no hook changes: the calls so far, the pending results and the hook cache, which belong to
  the interceptors, and the requests being served.
\<close>

definition originals :: "agent \<Rightarrow> event list" where
  "originals s = filter is_original (log s)"

definition ctl_view ::
  "agent \<Rightarrow> event list \<times> (nat \<rightharpoonup> hook_data) \<times> ((bytes option \<times> bytes) \<rightharpoonup> hook_id option) \<times>
     (i64 option \<rightharpoonup> req_ctx)" where
  "ctl_view s = (originals s, result_map s, hook_map s, request_context s)"

text \<open>
  The asynchronous spans that the table of curl's multi handles holds, and the other open
  spans: those of the requests and of the calls in progress.
\<close>

definition multi_spans :: "agent \<Rightarrow> i64 \<Rightarrow> nat set" where
  "multi_spans s mid =
     (case curl_multi s mid of None \<Rightarrow> {}
      | Some m \<Rightarrow> (case exec_spans m of None \<Rightarrow> {} | Some sps \<Rightarrow> snd ` set sps))"

definition transfers :: "agent \<Rightarrow> nat set" where
  "transfers s = (\<Union>mid. multi_spans s mid)"

definition loose_spans :: "agent \<Rightarrow> nat set" where
  "loose_spans s = open_spans s - transfers s"

definition spans_wf :: "agent \<Rightarrow> bool" where
  "spans_wf s \<longleftrightarrow> fresh_ids s \<and> transfers s \<subseteq> open_spans s \<and>
     (\<forall>a b. a \<noteq> b \<longrightarrow> multi_spans s a \<inter> multi_spans s b = {})"

text \<open>A step that neither opens nor closes a span nor runs an intercepted function.\<close>

definition span_view :: "agent \<Rightarrow> nat set \<times> nat \<times> (i64 \<Rightarrow> nat set) \<times>
    event list \<times> (nat \<rightharpoonup> hook_data) \<times> ((bytes option \<times> bytes) \<rightharpoonup> hook_id option) \<times>
    (i64 option \<rightharpoonup> req_ctx)" where
  "span_view s = (open_spans s, next_id s, multi_spans s, ctl_view s)"

lemma multi_spans_simps [simp]:
  "multi_spans (emit ev s) = multi_spans s" "multi_spans (upd_span i cs s) = multi_spans s"
  "multi_spans (close_span i s) = multi_spans s" "multi_spans (drop_context c s) = multi_spans s"
  by (simp_all add: multi_spans_def fun_eq_iff)

definition quiet :: "'a agent_act \<Rightarrow> bool" where
  "quiet m \<longleftrightarrow> leaves span_view m"

lemma ctl_view_simps [simp]:
  "\<not> is_original ev \<Longrightarrow> ctl_view (emit ev s) = ctl_view s"
  "ctl_view (upd_span i cs s) = ctl_view s" "ctl_view (close_span i s) = ctl_view s"
  "ctl_view (drop_context c s) = ctl_view s"
  by (simp_all add: ctl_view_def originals_def close_span_def drop_context_def split: option.split)

lemma span_view_simps [simp]:
  "\<not> is_original ev \<Longrightarrow> span_view (emit ev s) = span_view s" "span_view (upd_span i cs s) = span_view s"
  "span_view (s\<lparr>dsn_map := a\<rparr>) = span_view s" "span_view (s\<lparr>dtor_map := b\<rparr>) = span_view s"
  "span_view (s\<lparr>dtor_obj := c\<rparr>) = span_view s" "span_view (s\<lparr>free_obj := d\<rparr>) = span_view s"
  "span_view (s\<lparr>redis_peers := e\<rparr>) = span_view s"
  "span_view (s\<lparr>redis_free_map := f\<rparr>) = span_view s"
  "span_view (s\<lparr>memcache_peers := e\<rparr>) = span_view s"
  "span_view (s\<lparr>curl_headers := g\<rparr>) = span_view s"
  "span_view (s\<lparr>swoole_status := j\<rparr>) = span_view s"
  "span_view (s\<lparr>ori_on_request := k\<rparr>) = span_view s" "span_view (s\<lparr>is_swoole := l\<rparr>) = span_view s"
  "span_view (s\<lparr>symbol_table := p\<rparr>) = span_view s"
  by (simp_all add: span_view_def open_spans_def ctl_view_def originals_def multi_spans_def fun_eq_iff)

lemma quietD:
  "quiet m \<Longrightarrow> m s = (r, s') \<Longrightarrow>
   open_spans s' = open_spans s \<and> next_id s' = next_id s \<and> ctl_view s' = ctl_view s \<and> multi_spans s' = multi_spans s"
  unfolding quiet_def by (drule leavesD_eq, assumption) (simp add: span_view_def)

lemma quiet_fresh: "quiet m \<Longrightarrow> m s = (r, s') \<Longrightarrow> fresh_ids s \<Longrightarrow> fresh_ids s'"
  by (drule quietD, assumption) (simp add: fresh_ids_def)

lemma quiet_basic [intro]:
  "quiet (ret x)" "quiet (fail e)" "quiet (panic p)" "quiet (lift r)" "quiet (reads g)"
  "quiet (call E c args)" "quiet (call_method E ob name args)" "quiet (on_span i cs)"
  by (auto simp: quiet_def intro!: keeps_intros)

lemma quiet_andthen [intro]: "quiet m \<Longrightarrow> (\<And>x. quiet (k x)) \<Longrightarrow> quiet (andthen m k)"
  by (simp add: quiet_def leaves_andthen)

lemma quiet_attempt [intro]: "quiet m \<Longrightarrow> quiet (attempt m)"
  by (simp add: quiet_def leaves_attempt)

lemma quiet_modify [intro]: "(\<And>s. span_view (u s) = span_view s) \<Longrightarrow> quiet (modify u)"
  by (simp add: quiet_def leaves_modify)

lemma quiet_if [intro]: "quiet m \<Longrightarrow> quiet n \<Longrightarrow> quiet (if b then m else n)"
  by simp

lemma quiet_option [intro]:
  "quiet m \<Longrightarrow> (\<And>x. quiet (k x)) \<Longrightarrow> quiet (case v of None \<Rightarrow> m | Some x \<Rightarrow> k x)"
  by (simp split: option.split)

lemma quiet_outcome [intro]:
  "(\<And>x. quiet (k x)) \<Longrightarrow> (\<And>e. quiet (g e)) \<Longrightarrow> (\<And>p. quiet (h p)) \<Longrightarrow>
   quiet (case w of Ok x \<Rightarrow> k x | Err e \<Rightarrow> g e | Panic p \<Rightarrow> h p)"
  by (simp split: outcome.split)

lemmas quiet_intros = quiet_basic quiet_andthen quiet_attempt quiet_modify quiet_if quiet_option
  quiet_outcome

lemma quiet_try_with_global [intro]: "(\<And>c. quiet (f c)) \<Longrightarrow> quiet (try_with_global rid f)"
  by (simp add: quiet_def leaves_try_with_global)

lemma quiet_try_get_sw_header [intro, simp]: "quiet (try_get_sw_header E rid pr)"
  by (simp add: quiet_def)

lemma quiet_log_exception [intro, simp]: "quiet (log_exception E i)"
  unfolding log_exception_def Let_def by (intro quiet_intros)

section \<open>The contract\<close>

text \<open>
  The state change of a before hook: what it returned (\<open>r\<close>), and the open spans before and
  after.
\<close>

definition before_post :: "agent \<Rightarrow> (hook_data \<times> 'x) outcome \<Rightarrow> agent \<Rightarrow> bool" where
  "before_post s r s' \<longleftrightarrow>
     fresh_ids s' \<and> ctl_view s' = ctl_view s \<and> multi_spans s' = multi_spans s \<and>
     (case r of
        Ok (d, _) \<Rightarrow> open_spans s' = open_spans s \<union> held d \<and> held d \<inter> open_spans s = {}
      | _ \<Rightarrow> open_spans s' = open_spans s)"

definition before_spec :: "(hook_data \<times> 'x) agent_act \<Rightarrow> bool" where
  "before_spec m \<longleftrightarrow> (\<forall>s. fresh_ids s \<longrightarrow> (case m s of (r, s') \<Rightarrow> before_post s r s'))"

definition after_spec :: "hook_data \<Rightarrow> unit agent_act \<Rightarrow> bool" where
  "after_spec d m \<longleftrightarrow>
     (\<forall>s. fresh_ids s \<longrightarrow> fresh_ids (snd (m s)) \<and> open_spans (snd (m s)) = open_spans s - held d \<and>
            ctl_view (snd (m s)) = ctl_view s \<and> multi_spans (snd (m s)) = multi_spans s)"

lemma before_specD: "before_spec m \<Longrightarrow> fresh_ids s \<Longrightarrow> m s = (r, s') \<Longrightarrow> before_post s r s'"
  by (auto simp: before_spec_def)

lemma after_specD:
  "after_spec d m \<Longrightarrow> fresh_ids s \<Longrightarrow> m s = (r, s') \<Longrightarrow>
   fresh_ids s' \<and> open_spans s' = open_spans s - held d \<and> ctl_view s' = ctl_view s \<and>
   multi_spans s' = multi_spans s"
  by (auto simp: after_spec_def dest: spec [where x = s])

lemma before_spec_quiet:
  assumes "quiet m"
    and "\<And>s r s'. m s = (r, s') \<Longrightarrow> (case r of Ok (d, _) \<Rightarrow> held d = {} | _ \<Rightarrow> True)"
  shows "before_spec m"
  unfolding before_spec_def
proof (intro allI impI)
  fix s assume fr: "fresh_ids s"
  obtain r s' where m: "m s = (r, s')" by fastforce
  show "case m s of (r, s') \<Rightarrow> before_post s r s'"
    using quietD [OF assms(1) m] quiet_fresh [OF assms(1) m fr] assms(2) [OF m]
    by (auto simp: m before_post_def split: outcome.splits)
qed

lemma before_spec_ret [intro]: "held d = {} \<Longrightarrow> before_spec (ret (d, ed))"
  by (auto simp: before_spec_def before_post_def)

lemma before_spec_fail [intro]: "before_spec (fail e)" "before_spec (panic p)"
  by (auto simp: before_spec_def before_post_def)

lemma before_spec_andthen [intro]:
  assumes m: "quiet m" and k: "\<And>x. before_spec (k x)"
  shows "before_spec (andthen m k)"
  unfolding before_spec_def
proof (intro allI impI)
  fix s assume fr: "fresh_ids s"
  obtain r s1 where ms: "m s = (r, s1)" by fastforce
  have open1: "open_spans s1 = open_spans s" "ctl_view s1 = ctl_view s" "multi_spans s1 = multi_spans s"
    and fr1: "fresh_ids s1"
    using quietD [OF m ms] quiet_fresh [OF m ms fr] by auto
  show "case andthen m k s of (r, s') \<Rightarrow> before_post s r s'"
  proof (cases r)
    case (Ok x)
    obtain r2 s2 where ks: "k x s1 = (r2, s2)" by fastforce
    from before_specD [OF k fr1 ks] open1 have "before_post s r2 s2"
      by (auto simp: before_post_def split: outcome.splits)
    with Ok ms ks show ?thesis by (simp add: andthen_eqs)
  qed (use ms open1 fr1 in \<open>auto simp: andthen_eqs before_post_def\<close>)
qed

lemma before_spec_if [intro]:
  "(b \<Longrightarrow> before_spec m) \<Longrightarrow> (\<not> b \<Longrightarrow> before_spec n) \<Longrightarrow> before_spec (if b then m else n)"
  by simp

lemma before_spec_option [intro]:
  "before_spec m \<Longrightarrow> (\<And>x. before_spec (f x)) \<Longrightarrow> before_spec (case v of None \<Rightarrow> m | Some x \<Rightarrow> f x)"
  by (simp split: option.split)

lemma before_spec_outcome [intro]:
  "(\<And>x. before_spec (f x)) \<Longrightarrow> (\<And>e. before_spec (g e)) \<Longrightarrow> (\<And>p. before_spec (h p)) \<Longrightarrow>
   before_spec (case w of Ok x \<Rightarrow> f x | Err e \<Rightarrow> g e | Panic p \<Rightarrow> h p)"
  by (simp split: outcome.split)

lemma before_spec_lift [intro]: "(\<And>x. r \<noteq> Ok x) \<Longrightarrow> before_spec (lift r)"
  by (cases r) (auto simp: before_spec_def before_post_def)

text \<open>The before hooks that open a span: on success the new span is handed over.\<close>

lemma with_exit_span_spec [intro]:
  assumes k: "\<And>i. quiet (k i)"
  shows "before_spec (with_exit_span rid op pr ed k)"
  unfolding before_spec_def
proof (intro allI impI)
  fix s assume fr: "fresh_ids s"
  show "case with_exit_span rid op pr ed k s of (r, s') \<Rightarrow> before_post s r s'"
  proof (cases "request_context s rid")
    case None
    then show ?thesis
      using fr by (simp add: with_exit_span_def andthen_def create_exit_span_in_eq before_post_def)
  next
    case (Some c)
    obtain i s1 where o: "create_exit_span_in rid op pr s = (Ok i, s1)"
      and fr1: "fresh_ids s1" and new: "i \<notin> open_spans s"
      and open1: "open_spans s1 = insert i (open_spans s)" "ctl_view s1 = ctl_view s" "multi_spans s1 = multi_spans s"
      using Some fr by (auto simp: create_exit_span_in_eq open_span_eq open_spans_def
          fresh_ids_def less_Suc_eq ctl_view_def originals_def multi_spans_def fun_eq_iff)
    obtain r s2 where ks: "k i s1 = (r, s2)" by fastforce
    have "open_spans s2 = insert i (open_spans s)" "fresh_ids s2" "ctl_view s2 = ctl_view s"
      "multi_spans s2 = multi_spans s"
      using quietD [OF k ks] quiet_fresh [OF k ks fr1] open1 by auto
    with o ks new show ?thesis
      by (cases r) (auto simp: with_exit_span_def andthen_eqs on_failure_def before_post_def)
  qed
qed

lemma downcast_span_spec [intro]:
  assumes "\<And>i. quiet (k i)"
  shows "after_spec d (downcast_span d k)"
proof (cases d)
  case (DSpan i)
  show ?thesis
    unfolding after_spec_def
  proof (intro allI impI)
    fix s assume fr: "fresh_ids s"
    obtain r s1 where ks: "k i s = (r, s1)" by fastforce
    from quietD [OF assms ks] quiet_fresh [OF assms ks fr]
    show "fresh_ids (snd (downcast_span d k s)) \<and>
          open_spans (snd (downcast_span d k s)) = open_spans s - held d \<and>
          ctl_view (snd (downcast_span d k s)) = ctl_view s \<and>
          multi_spans (snd (downcast_span d k s)) = multi_spans s"
      by (simp add: DSpan downcast_span_def on_exit_def ks)
  qed
qed (auto simp: after_spec_def downcast_span_def)

lemma expect_span_spec [intro]:
  assumes "\<And>i. quiet (k i)"
  shows "after_spec d (expect_span d k)"
proof (cases d)
  case (DSpan i)
  then have "expect_span d k = downcast_span d k" by (simp add: expect_span_def downcast_span_def)
  with downcast_span_spec [OF assms] show ?thesis by simp
qed (auto simp: after_spec_def expect_span_def)

lemma quiet_mark_false [intro, simp]: "quiet (mark_false i rv)"
  unfolding mark_false_def by (intro quiet_intros)

lemma after_spec_quiet [intro]: "quiet m \<Longrightarrow> held d = {} \<Longrightarrow> after_spec d m"
  unfolding after_spec_def
  by (metis Diff_empty prod.collapse quietD quiet_fresh)

lemma after_spec_if [intro]:
  "(b \<Longrightarrow> after_spec d m) \<Longrightarrow> (\<not> b \<Longrightarrow> after_spec d n) \<Longrightarrow> after_spec d (if b then m else n)"
  by simp

text \<open>A before hook that never hands over a span.\<close>

definition holds_none :: "(hook_data \<times> 'x) agent_act \<Rightarrow> bool" where
  "holds_none m \<longleftrightarrow> (\<forall>s d x s'. m s = (Ok (d, x), s') \<longrightarrow> held d = {})"

lemma holds_noneD: "holds_none m \<Longrightarrow> m s = (Ok (d, x), s') \<Longrightarrow> held d = {}"
  unfolding holds_none_def by blast

lemma holds_none_ret [intro]: "held d = {} \<Longrightarrow> holds_none (ret (d, x))"
  by (simp add: holds_none_def)

lemma holds_none_fail [intro]: "holds_none (fail e)" "holds_none (panic p)"
  by (simp_all add: holds_none_def)

lemma holds_none_andthen [intro]: "(\<And>x. holds_none (k x)) \<Longrightarrow> holds_none (andthen m k)"
  unfolding holds_none_def by (blast elim: andthen_OkE)

lemma holds_none_if [intro]: "holds_none m \<Longrightarrow> holds_none n \<Longrightarrow> holds_none (if b then m else n)"
  by simp

lemma holds_none_option [intro]:
  "holds_none m \<Longrightarrow> (\<And>x. holds_none (f x)) \<Longrightarrow> holds_none (case v of None \<Rightarrow> m | Some x \<Rightarrow> f x)"
  by (simp split: option.split)

lemma holds_none_outcome [intro]:
  "(\<And>x. holds_none (f x)) \<Longrightarrow> (\<And>e. holds_none (g e)) \<Longrightarrow> (\<And>p. holds_none (h p)) \<Longrightarrow>
   holds_none (case w of Ok x \<Rightarrow> f x | Err e \<Rightarrow> g e | Panic p \<Rightarrow> h p)"
  by (simp split: outcome.split)

lemmas holds_none_intros = holds_none_ret holds_none_fail holds_none_andthen holds_none_if
  holds_none_option holds_none_outcome

text \<open>
  The contract of a pair of hooks towards the interceptors.  Spans handed over to the table
  of multi handles are accounted for there; of the other spans, the before hook adds exactly
  the one it returns, and the after hook, which only ever gets what the before hook of the
  same call returned, closes exactly that one.  Neither runs an intercepted function.
\<close>

locale traced_hook =
  fixes before :: before_hook
    and after :: after_hook
  assumes traced_before:
      "spans_wf s \<Longrightarrow> before rid ed s = (r, s') \<Longrightarrow>
       spans_wf s' \<and> ctl_view s' = ctl_view s \<and>
       (case r of
          Ok (d, _) \<Rightarrow> loose_spans s' = loose_spans s \<union> held d \<and> held d \<inter> loose_spans s = {}
        | _ \<Rightarrow> loose_spans s' = loose_spans s)"
    and traced_after:
      "before rid ed s = (Ok (d, ed'), s') \<Longrightarrow> spans_wf t \<Longrightarrow> held d \<subseteq> loose_spans t \<Longrightarrow>
       after rid' d ed2 rv t = (ra, t') \<Longrightarrow>
       spans_wf t' \<and> ctl_view t' = ctl_view t \<and> loose_spans t' = loose_spans t - held d"
begin

text \<open>
  A call with both hooks around any step that leaves the loose spans as they are leaves them
  as they were, and runs no intercepted function outside that step.
\<close>

lemma balanced:
  assumes wf: "spans_wf s"
    and mid: "loose_spans s2 = loose_spans s1" "spans_wf s1 \<Longrightarrow> spans_wf s2"
    and b: "before rid ed s = (r, s1)"
    and fin: "s3 = (case r of Ok (d, ed') \<Rightarrow> snd (after rid' d ed2 rv s2) | _ \<Rightarrow> s2)"
  shows "loose_spans s3 = loose_spans s \<and> spans_wf s3 \<and> ctl_view s1 = ctl_view s \<and> ctl_view s3 = ctl_view s2"
proof (cases r)
  case (Ok p)
  obtain d ed' where p: "p = (d, ed')" by fastforce
  note post = traced_before [OF wf b, unfolded Ok p]
  obtain r2 where a: "after rid' d ed2 rv s2 = (r2, s3)"
    using fin Ok p by (metis (mono_tags, lifting) case_prod_conv outcome.simps(10) prod.collapse)
  from traced_after [OF b [unfolded Ok p] _ _ a] mid post show ?thesis by auto
qed (use traced_before [OF wf b] mid fin in \<open>auto simp: before_post_def\<close>)

end

text \<open>The pairs whose span lives exactly from the before hook to the after hook.\<close>

locale span_hook =
  fixes before :: before_hook
    and after :: after_hook
  assumes before_ok: "before_spec (before rid ed)"
    and after_ok: "before rid ed s = (Ok (d, ed'), s') \<Longrightarrow> after_spec d (after rid' d ed2 rv)"

sublocale span_hook \<subseteq> traced: traced_hook before after
proof
  show "spans_wf s' \<and> ctl_view s' = ctl_view s \<and>
       (case r of
          Ok (d, _) \<Rightarrow> loose_spans s' = loose_spans s \<union> held d \<and> held d \<inter> loose_spans s = {}
        | _ \<Rightarrow> loose_spans s' = loose_spans s)"
    if "spans_wf s" "before rid ed s = (r, s')" for s rid ed r s'
    using before_specD [OF before_ok _ that(2)] that(1)
    by (auto simp: spans_wf_def loose_spans_def transfers_def before_post_def split: outcome.splits)
  show "spans_wf t' \<and> ctl_view t' = ctl_view t \<and> loose_spans t' = loose_spans t - held d"
    if "before rid ed s = (Ok (d, ed'), s')" "spans_wf t" "held d \<subseteq> loose_spans t"
      "after rid' d ed2 rv t = (r, t')" for rid ed s d ed' s' t rid' ed2 rv r t'
    using after_specD [OF after_ok [OF that(1)] _ that(4)] that(2,3)
    by (auto simp: spans_wf_def loose_spans_def transfers_def)
qed

text \<open>A pair whose before hook opens no span and whose after hook is the noop one.\<close>

locale silent_hook =
  fixes before :: before_hook
  assumes before_quiet: "quiet (before rid ed)"
    and before_none: "holds_none (before rid ed)"

sublocale silent_hook \<subseteq> silent: span_hook before noop_after
proof
  show "before_spec (before rid ed)" for rid ed
    using before_none [of rid ed]
    by (intro before_spec_quiet before_quiet) (auto simp: holds_none_def split: outcome.splits)
  show "before rid ed s = (Ok (d, ed'), s') \<Longrightarrow> after_spec d (noop_after rid' d ed2 rv)"
    for rid ed s d ed' s' rid' ed2 rv
    using before_none [of rid ed]
    by (auto simp: noop_after_def holds_none_def intro!: after_spec_quiet quiet_intros)
qed

section \<open>Patching the handlers tables of the engine\<close>

text \<open>
  \<^verbatim>\<open>hack_dtor\<close> of the PDO plugin and \<^verbatim>\<open>hack_free\<close> of the Redis plugin follow one scheme: save
  the function pointer found in the object's handlers table under the object's handle, and
  overwrite the pointer.  \<open>slot\<close> is the function pointer of a table, \<open>saved\<close> the map of saved
  pointers and \<open>own\<close> the function installed.
\<close>

locale handler_patch =
  fixes tbl :: "zobj \<Rightarrow> nat"
    and hack :: "zobj \<Rightarrow> 's \<Rightarrow> 's"
    and slot :: "'s \<Rightarrow> nat \<Rightarrow> 'f option"
    and saved :: "'s \<Rightarrow> u32 \<Rightarrow> 'f option option"
    and own :: 'f
  assumes slot_hack: "slot (hack ob s) = (slot s)(tbl ob := Some own)"
    and saved_hack: "saved (hack ob s) = (saved s)(obj_handle ob \<mapsto> slot s (tbl ob))"
begin

lemma slot_fold:
  "\<forall>ob \<in> set obs. tbl ob = t \<Longrightarrow> slot s t = Some own \<Longrightarrow> slot (fold hack obs s) t = Some own"
  by (induction obs arbitrary: s) (auto simp: slot_hack)

lemma saved_fold_other:
  "h \<notin> obj_handle ` set obs \<Longrightarrow> saved (fold hack obs s) h = saved s h"
  by (induction obs arbitrary: s) (auto simp: saved_hack)

lemma saved_fold_own:
  "\<forall>ob \<in> set obs. tbl ob = t \<Longrightarrow> slot s t = Some own \<Longrightarrow> h \<in> obj_handle ` set obs \<Longrightarrow>
   saved (fold hack obs s) h = Some (Some own)"
proof (induction obs arbitrary: s)
  case (Cons a obs)
  show ?case
  proof (cases "h \<in> obj_handle ` set obs")
    case True
    with Cons show ?thesis by (simp add: slot_hack)
  next
    case False
    with Cons.prems show ?thesis by (auto simp: saved_fold_other saved_hack)
  qed
qed simp

text \<open>
  After patching for \<open>ob0\<close> and then \<open>obs\<close>, all of one table, the table runs \<open>own\<close>; the
  pointer found before is saved for \<open>ob0\<close>, and \<open>own\<close> itself for every other object.
\<close>

lemma fold_patched:
  assumes tbls: "\<forall>ob \<in> set (ob0 # obs). tbl ob = t"
    and dist: "distinct (map obj_handle (ob0 # obs))" and ob: "ob \<in> set (ob0 # obs)"
  shows "slot (fold hack (ob0 # obs) s) t = Some own"
    and "saved (fold hack (ob0 # obs) s) (obj_handle ob) =
           (if ob = ob0 then Some (slot s t) else Some (Some own))"
proof -
  have t1: "slot (hack ob0 s) t = Some own" and rest: "\<forall>ob \<in> set obs. tbl ob = t"
    and t0: "tbl ob0 = t" using tbls by (auto simp: slot_hack)
  from slot_fold [OF rest t1] show "slot (fold hack (ob0 # obs) s) t = Some own" by simp
  show "saved (fold hack (ob0 # obs) s) (obj_handle ob) =
          (if ob = ob0 then Some (slot s t) else Some (Some own))"
  proof (cases "ob = ob0")
    case True
    moreover have "obj_handle ob0 \<notin> obj_handle ` set obs" using dist by auto
    ultimately show ?thesis by (simp add: saved_fold_other saved_hack t0)
  next
    case False
    with ob have "obj_handle ob \<in> obj_handle ` set obs" by auto
    with False saved_fold_own [OF rest t1] show ?thesis by simp
  qed
qed

end

end
