(* ===== verification/Samples.thy ===== *)
theory Samples
  imports Plugin_Base
begin

text \<open>
  Concrete inputs for the witnesses: an environment in which PHP answers null, throws nothing
  and every URL is \<^verbatim>\<open>http://localhost/index.php\<close>; an agent with one request context (of the
  request without an id, as under PHP-FPM) whose entry span 1 is open; and call frames.
\<close>

definition sample_url :: url where
  "sample_url = \<lparr>url_scheme = ''http'', url_host = Some ''localhost'', url_port = None,
     url_path = ''/index.php'', url_string = ''http://localhost/index.php''\<rparr>"

definition sample_config :: config where
  "sample_config = \<lparr>psr_logging_level = Info, skywalking_version = 8, inject_context = True\<rparr>"

definition sample_env :: env where
  "sample_env =
     \<lparr>cfg = sample_config, php_call = (\<lambda>l c args. Inr ZNull), pending_exception = (\<lambda>l. None),
      class_exists = (\<lambda>l c. True), instance_of = (\<lambda>l c d. c = d), handlers_of = (\<lambda>ob. 0),
      next_free_index = (\<lambda>a. of_nat (length a)), iter_order = (\<lambda>l hs. hs),
      show_f64 = (\<lambda>d. ''1.5''), parse_url = (\<lambda>u. Some sample_url),
      decode_propagation = (\<lambda>h. Inr 0), encode_propagation = (\<lambda>l c op pr. ''1-TRACE''),
      ctx_service = (\<lambda>c. ''service''), ctx_service_instance = (\<lambda>c. ''instance''),
      ctx_trace_id = (\<lambda>c. ''TRACE''),
      class_not_found = (\<lambda>c. c), no_tracer = None,
      auto_globals_jit = True, auto_global = (\<lambda>n m. m)\<rparr>"

definition sample_ctx :: req_ctx where
  "sample_ctx = \<lparr>tracing_context = 0, entry_span = 1\<rparr>"

definition sample_entry :: span where
  "sample_entry = \<lparr>sp_ctx = 0, sp_kind = EntrySpan None, sp_operation = ''GET:/'', sp_calls = []\<rparr>"

definition sample_exit :: span where
  "sample_exit = \<lparr>sp_ctx = 0, sp_kind = ExitSpan ''localhost:80'', sp_operation = ''/'', sp_calls = []\<rparr>"

definition sample_agent :: agent where
  "sample_agent = init_agent\<lparr>spans := [1 \<mapsto> sample_entry], next_id := 2,
     request_context := [None \<mapsto> sample_ctx]\<rparr>"

text \<open>The same with an exit span 2 in flight.\<close>

definition sample_in_flight :: agent where
  "sample_in_flight = sample_agent\<lparr>spans := [1 \<mapsto> sample_entry, 2 \<mapsto> sample_exit], next_id := 3\<rparr>"

definition sample_frame :: "bytes option \<Rightarrow> bytes option \<Rightarrow> zobj option \<Rightarrow> zval list \<Rightarrow> exec_data" where
  "sample_frame cls fn this args =
     \<lparr>fn_name = fn, fn_class = cls, num_args = length args,
      slots = (\<lambda>i. if i < length args then args ! i else ZNull), this_obj = this,
      address = 4096, callers = []\<rparr>"

definition sample_obj :: "bytes \<Rightarrow> zobj" where
  "sample_obj cls = Zobj 7 cls []"

lemma sample_env_sel [simp]:
  "cfg sample_env = sample_config" "php_call sample_env = (\<lambda>l c args. Inr ZNull)"
  "pending_exception sample_env = (\<lambda>l. None)" "class_exists sample_env = (\<lambda>l c. True)"
  "instance_of sample_env = (\<lambda>l c d. c = d)" "handlers_of sample_env = (\<lambda>ob. 0)"
  "next_free_index sample_env = (\<lambda>a. of_nat (length a))" "iter_order sample_env = (\<lambda>l hs. hs)"
  "show_f64 sample_env = (\<lambda>d. ''1.5'')" "parse_url sample_env = (\<lambda>u. Some sample_url)"
  "decode_propagation sample_env = (\<lambda>h. Inr 0)"
  "encode_propagation sample_env = (\<lambda>l c op pr. ''1-TRACE'')"
  "ctx_service sample_env = (\<lambda>c. ''service'')"
  "ctx_service_instance sample_env = (\<lambda>c. ''instance'')"
  "ctx_trace_id sample_env = (\<lambda>c. ''TRACE'')" "class_not_found sample_env = (\<lambda>c. c)"
  "no_tracer sample_env = None" "auto_globals_jit sample_env = True" "auto_global sample_env = (\<lambda>n m. m)"
  by (simp_all add: sample_env_def)

lemma sample_config_sel [simp]:
  "psr_logging_level sample_config = Info" "skywalking_version sample_config = 8"
  "inject_context sample_config = True"
  by (simp_all add: sample_config_def)

lemma sample_url_sel [simp]:
  "url_scheme sample_url = ''http''" "url_host sample_url = Some ''localhost''"
  "url_port sample_url = None" "url_path sample_url = ''/index.php''"
  "url_string sample_url = ''http://localhost/index.php''"
  by (simp_all add: sample_url_def)

lemma sample_ctx_sel [simp]: "tracing_context sample_ctx = 0" "entry_span sample_ctx = 1"
  by (simp_all add: sample_ctx_def)

lemma init_agent_sel [simp]:
  "log init_agent = []" "spans init_agent = Map.empty" "finished init_agent = []"
  "next_id init_agent = 0" "request_context init_agent = Map.empty"
  "symbol_table init_agent = Map.empty" "swoole_status init_agent = Map.empty"
  "ori_on_request init_agent = None" "is_swoole init_agent = False"
  "hook_map init_agent = Map.empty" "result_map init_agent = Map.empty"
  "curl_headers init_agent = Map.empty" "curl_multi init_agent = Map.empty"
  "dsn_map init_agent = Map.empty" "dtor_map init_agent = Map.empty"
  "redis_peers init_agent = Map.empty" "redis_free_map init_agent = Map.empty"
  "memcache_peers init_agent = Map.empty"
  "dtor_obj init_agent = (\<lambda>t. Some (EngineDtor t))" "free_obj init_agent = (\<lambda>t. Some (EngineFree t))"
  by (simp_all add: init_agent_def)

lemma sample_agent_sel [simp]:
  "log sample_agent = []" "spans sample_agent = [1 \<mapsto> sample_entry]" "finished sample_agent = []"
  "next_id sample_agent = 2" "request_context sample_agent = [None \<mapsto> sample_ctx]"
  "symbol_table sample_agent = Map.empty" "swoole_status sample_agent = Map.empty"
  "ori_on_request sample_agent = None" "is_swoole sample_agent = False"
  "hook_map sample_agent = Map.empty" "result_map sample_agent = Map.empty"
  "curl_headers sample_agent = Map.empty" "curl_multi sample_agent = Map.empty"
  "dsn_map sample_agent = Map.empty" "dtor_map sample_agent = Map.empty"
  "redis_peers sample_agent = Map.empty" "redis_free_map sample_agent = Map.empty"
  "memcache_peers sample_agent = Map.empty"
  "dtor_obj sample_agent = (\<lambda>t. Some (EngineDtor t))" "free_obj sample_agent = (\<lambda>t. Some (EngineFree t))"
  by (simp_all add: sample_agent_def)

lemma sample_in_flight_sel [simp]:
  "log sample_in_flight = []" "spans sample_in_flight = [1 \<mapsto> sample_entry, 2 \<mapsto> sample_exit]"
  "finished sample_in_flight = []" "next_id sample_in_flight = 3"
  "request_context sample_in_flight = [None \<mapsto> sample_ctx]"
  "curl_multi sample_in_flight = Map.empty"
  by (simp_all add: sample_in_flight_def)

lemma sample_frame_sel [simp]:
  "fn_name (sample_frame cls fn this args) = fn" "fn_class (sample_frame cls fn this args) = cls"
  "num_args (sample_frame cls fn this args) = length args"
  "this_obj (sample_frame cls fn this args) = this"
  "address (sample_frame cls fn this args) = 4096" "callers (sample_frame cls fn this args) = []"
  "get_parameter (sample_frame cls fn this args) i = (if i < length args then args ! i else ZNull)"
  by (simp_all add: sample_frame_def get_parameter_def)

lemma sample_obj_sel [simp]:
  "obj_handle (sample_obj cls) = 7" "obj_class (sample_obj cls) = cls" "obj_props (sample_obj cls) = []"
  by (simp_all add: sample_obj_def)

lemma sample_fresh [simp]: "fresh_ids sample_agent" "fresh_ids sample_in_flight"
  by (simp_all add: fresh_ids_def open_spans_def)

lemma sample_wf [simp]: "spans_wf sample_agent" "spans_wf sample_in_flight"
  by (simp_all add: spans_wf_def transfers_def multi_spans_def)

lemma sample_exit_ok [simp]: "\<not> span_is_error sample_exit" "span_tags sample_exit = []" "sp_calls sample_exit = []"
  by (simp_all add: sample_exit_def span_is_error_def span_tags_def List.map_filter_def)

end
