(* ===== verification/Curl.thy ===== *)
theory Curl
  imports Samples "HOL-Library.List_Lexorder" "HOL-Library.Char_ord"
begin

text \<open>
  \<^verbatim>\<open>src/src/plugin/plugin_curl.rs\<close>: the headers remembered per curl handle, the injection of the
  \<^verbatim>\<open>sw8\<close> header through a private option number that the plugin's own \<^verbatim>\<open>curl_setopt\<close> hook
  translates back, and the multi handles with one asynchronous span per transfer.

  A \<^verbatim>\<open>HashMap\<close> of handles is an association list; the order in which it is iterated is an
  answer of the environment (\<open>iter_order\<close>).
\<close>

section \<open>Handles and their information\<close>

definition CURLM_OK :: i64 where "CURLM_OK = 0"
definition CURLOPT_HTTPHEADER :: i64 where "CURLOPT_HTTPHEADER = 10023"
definition SKY_CURLOPT_HTTPHEADER :: i64 where "SKY_CURLOPT_HTTPHEADER = 9923"

record curl_info =
  ci_cid :: i64
  ci_raw_url :: bytes
  ci_url :: url
  ci_peer :: bytes
  ci_is_http :: bool

definition default_multi_info :: curl_multi_info where
  "default_multi_info = \<lparr>exec_spans = None, curl_handles = []\<rparr>"

definition insert_curl_handle :: "i64 \<Rightarrow> zval \<Rightarrow> curl_multi_info \<Rightarrow> curl_multi_info" where
  "insert_curl_handle cid ch m = m\<lparr>curl_handles := arr_insert (curl_handles m) cid ch\<rparr>"

definition remove_curl_handle :: "i64 \<Rightarrow> curl_multi_info \<Rightarrow> curl_multi_info" where
  "remove_curl_handle cid m = m\<lparr>curl_handles := arr_delete (curl_handles m) cid\<rparr>"

definition get_handle_id :: "zval \<Rightarrow> i64 outcome" where
  "get_handle_id ch =
     with_context ''Get resource id failed''
       (case as_z_res ch of Some h \<Rightarrow> Some h
        | None \<Rightarrow> map_option (\<lambda>ob. ucast (obj_handle ob)) (as_z_obj ch))"

definition get_resource_id :: "exec_data \<Rightarrow> i64 outcome" where
  "get_resource_id ed = get_handle_id (get_parameter ed 0)"

definition full_url :: "bytes \<Rightarrow> bytes" where
  "full_url raw = (if contains_sub raw ''://'' then raw else ''http://'' @ raw)"

definition curl_port :: "url \<Rightarrow> nat" where
  "curl_port u =
     (case url_port u of Some p \<Rightarrow> p
      | None \<Rightarrow> if url_scheme u = ''http'' then 80 else if url_scheme u = ''https'' then 443 else 0)"

definition curl_info_of :: "i64 \<Rightarrow> bytes \<Rightarrow> url \<Rightarrow> curl_info" where
  "curl_info_of cid raw u =
     \<lparr>ci_cid = cid, ci_raw_url = raw, ci_url = u,
      ci_peer = (case url_host u of None \<Rightarrow> [] | Some h \<Rightarrow> h) @ '':'' @ show_nat (curl_port u),
      ci_is_http = (url_scheme u \<in> {''http'', ''https''})\<rparr>"

definition get_curl_info :: "env \<Rightarrow> i64 \<Rightarrow> zval \<Rightarrow> curl_info agent_act" where
  "get_curl_info E cid ch =
     andthen (call E (GlobalFn ''curl_getinfo'') [ch]) (\<lambda>result.
     andthen (lift (with_context ''result isn't array'' (as_z_arr result))) (\<lambda>result.
     andthen (lift (with_context ''Get url from curl_get_info result failed'' (arr_get result (Key ''url'')))) (\<lambda>u.
     andthen (lift (with_context ''url isn't string'' (as_z_str u))) (\<lambda>raw.
     andthen (lift (expect_utf8 raw)) (\<lambda>raw.
     andthen (lift (with_context ''parse url'' (parse_url E (full_url raw)))) (\<lambda>u.
     ret (curl_info_of cid raw u)))))))"

section \<open>Headers, creation and end of a span\<close>

definition put_headers :: "i64 \<Rightarrow> zval \<Rightarrow> agent \<Rightarrow> agent" where
  "put_headers cid v s = s\<lparr>curl_headers := (curl_headers s)(cid \<mapsto> v)\<rparr>"

definition del_headers :: "i64 \<Rightarrow> agent \<Rightarrow> agent" where
  "del_headers cid s = s\<lparr>curl_headers := map_remove (curl_headers s) cid\<rparr>"

definition header_line :: "bytes \<Rightarrow> bytes" where
  "header_line sw = SW_HEADER @ '': '' @ sw"

definition inject_sw_header :: "env \<Rightarrow> i64 option \<Rightarrow> zval \<Rightarrow> curl_info \<Rightarrow> unit agent_act" where
  "inject_sw_header E rid ch info =
     andthen (try_get_sw_header E rid (ci_peer info)) (\<lambda>sw.
     andthen (reads (\<lambda>s. curl_headers s (ci_cid info))) (\<lambda>hd.
     andthen (modify (del_headers (ci_cid info))) (\<lambda>_.
     case as_z_arr (case hd of Some v \<Rightarrow> v | None \<Rightarrow> ZArr []) of
       None \<Rightarrow> ret ()
     | Some arr \<Rightarrow>
         andthen (call E (GlobalFn ''curl_setopt'')
           [ch, ZLong SKY_CURLOPT_HTTPHEADER,
            ZArr (arr_push (next_free_index E arr) arr (ZStr (header_line sw)))]) (\<lambda>_.
         ret ()))))"

definition decorate_curl_span :: "curl_info \<Rightarrow> nat \<Rightarrow> unit agent_act" where
  "decorate_curl_span info i =
     on_span i [SetLayer LayerHttp, SetComponent COMPONENT_PHP_CURL_ID, AddTag ''url'' (ci_raw_url info)]"

definition curl_create_exit_span :: "i64 option \<Rightarrow> curl_info \<Rightarrow> nat agent_act" where
  "curl_create_exit_span rid info =
     andthen (create_exit_span_in rid (url_path (ci_url info)) (ci_peer info)) (\<lambda>i.
     andthen (decorate_curl_span info i) (\<lambda>_. ret i))"

definition report_status :: "env \<Rightarrow> nat \<Rightarrow> zval \<Rightarrow> i64 \<Rightarrow> unit agent_act" where
  "report_status E i ch code =
     (if code = 0 then
        andthen (call E (GlobalFn ''curl_error'') [ch]) (\<lambda>result.
        andthen (lift (with_context ''curl_error is not string'' (as_z_str result))) (\<lambda>raw.
        andthen (lift (expect_utf8 raw)) (\<lambda>err.
        on_span i [SetError True, AddLog [(''CURL_ERROR'', err)]])))
      else on_span i [SetError (400 \<le> sint code)])"

definition finish_exit_span :: "env \<Rightarrow> nat \<Rightarrow> zval \<Rightarrow> unit agent_act" where
  "finish_exit_span E i ch =
     andthen (call E (GlobalFn ''curl_getinfo'') [ch]) (\<lambda>result.
     andthen (lift (with_context ''response in not arr'' (as_z_arr result))) (\<lambda>response.
     andthen (lift (with_context ''Call curl_getinfo, http_code is null''
               (Option.bind (arr_get response (Key ''http_code'')) as_long))) (\<lambda>code.
     andthen (on_span i [AddTag ''status_code'' (show_i64 code)]) (\<lambda>_.
     andthen (report_status E i ch code) (\<lambda>_.
     andthen (log_exception E i) (\<lambda>_. ret ()))))))"

section \<open>Hooks of the single handles\<close>

definition curl_setopt_before :: before_hook where
  "curl_setopt_before rid ed =
     andthen (lift (validate_num_args ed 3)) (\<lambda>_.
     andthen (lift (get_resource_id ed)) (\<lambda>cid.
     let options = as_long (get_parameter ed 1) in
     if options = Some SKY_CURLOPT_HTTPHEADER then
       ret (DUnit, set_parameter ed 1 (ZLong CURLOPT_HTTPHEADER))
     else if options = Some CURLOPT_HTTPHEADER \<and> as_z_arr (get_parameter ed 2) \<noteq> None then
       andthen (modify (put_headers cid (get_parameter ed 2))) (\<lambda>_. ret (DUnit, ed))
     else ret (DUnit, ed)))"

definition curl_setopt_array_before :: before_hook where
  "curl_setopt_array_before rid ed =
     andthen (lift (validate_num_args ed 2)) (\<lambda>_.
     andthen (lift (get_resource_id ed)) (\<lambda>cid.
     case Option.bind (as_z_arr (get_parameter ed 1)) (\<lambda>opts. arr_get opts (Index CURLOPT_HTTPHEADER)) of
       Some v \<Rightarrow> andthen (modify (put_headers cid v)) (\<lambda>_. ret (DUnit, ed))
     | None \<Rightarrow> ret (DUnit, ed)))"

definition curl_exec_before :: "env \<Rightarrow> before_hook" where
  "curl_exec_before E rid ed =
     andthen (lift (validate_num_args ed 1)) (\<lambda>_.
     andthen (lift (get_resource_id ed)) (\<lambda>cid.
     andthen (get_curl_info E cid (get_parameter ed 0)) (\<lambda>info.
     with_exit_span rid (url_path (ci_url info)) (ci_peer info) ed (\<lambda>i.
       andthen (decorate_curl_span info i) (\<lambda>_.
       if ci_is_http info then inject_sw_header E rid (get_parameter ed 0) info else ret ())))))"

definition curl_exec_after :: "env \<Rightarrow> after_hook" where
  "curl_exec_after E rid d ed rv =
     downcast_span d (\<lambda>i. finish_exit_span E i (get_parameter ed 0))"

definition curl_close_before :: before_hook where
  "curl_close_before rid ed =
     andthen (lift (validate_num_args ed 1)) (\<lambda>_.
     andthen (lift (get_resource_id ed)) (\<lambda>cid.
     andthen (modify (del_headers cid)) (\<lambda>_. ret (DUnit, ed))))"

section \<open>Hooks of the multi handles\<close>

definition upd_multi :: "i64 \<Rightarrow> (curl_multi_info \<Rightarrow> curl_multi_info) \<Rightarrow> agent \<Rightarrow> agent" where
  "upd_multi mid f s =
     s\<lparr>curl_multi := (curl_multi s)(mid \<mapsto>
         f (case curl_multi s mid of None \<Rightarrow> default_multi_info | Some m \<Rightarrow> m))\<rparr>"

definition curl_multi_add_handle_before :: before_hook where
  "curl_multi_add_handle_before rid ed =
     andthen (lift (validate_num_args ed 2)) (\<lambda>_.
     andthen (lift (get_resource_id ed)) (\<lambda>mid.
     andthen (lift (get_handle_id (get_parameter ed 1))) (\<lambda>cid.
     andthen (modify (upd_multi mid (insert_curl_handle cid (get_parameter ed 1)))) (\<lambda>_.
     ret (DUnit, ed)))))"

definition curl_multi_remove_handle_before :: before_hook where
  "curl_multi_remove_handle_before rid ed =
     andthen (lift (validate_num_args ed 2)) (\<lambda>_.
     andthen (lift (get_resource_id ed)) (\<lambda>mid.
     andthen (lift (get_handle_id (get_parameter ed 1))) (\<lambda>cid.
     andthen (modify (upd_multi mid (remove_curl_handle cid))) (\<lambda>_.
     ret (DUnit, ed)))))"

fun collect_infos :: "env \<Rightarrow> (i64 \<times> zval) list \<Rightarrow> (i64 \<times> zval \<times> curl_info) list agent_act" where
  "collect_infos E [] = ret []"
| "collect_infos E ((cid, ch) # hs) =
     andthen (get_curl_info E cid ch) (\<lambda>info.
     andthen (collect_infos E hs) (\<lambda>rest. ret ((cid, ch, info) # rest)))"

text \<open>\<^verbatim>\<open>sort_by\<close> is stable; the comparison is the reverse of the one of the URLs.\<close>

definition sort_infos :: "(i64 \<times> zval \<times> curl_info) list \<Rightarrow> (i64 \<times> zval \<times> curl_info) list" where
  "sort_infos xs = rev (sort_key (\<lambda>(_, _, info). ci_raw_url info) (rev xs))"

definition close_spans :: "nat list \<Rightarrow> agent \<Rightarrow> agent" where
  "close_spans is s = fold close_span is s"

text \<open>\<open>acc\<close> is the vector \<^verbatim>\<open>exec_spans\<close> so far, dropped when a later transfer fails.\<close>

fun open_transfers ::
  "env \<Rightarrow> i64 option \<Rightarrow> (i64 \<times> zval \<times> curl_info) list \<Rightarrow> (i64 \<times> nat) list \<Rightarrow> (i64 \<times> nat) list agent_act" where
  "open_transfers E rid [] acc = ret acc"
| "open_transfers E rid ((cid, ch, info) # is) acc =
     andthen (on_failure (curl_create_exit_span rid info) (close_spans (map snd acc))) (\<lambda>i.
     andthen (on_failure (if ci_is_http info then inject_sw_header E rid ch info else ret ())
                (\<lambda>s. close_spans (map snd acc) (close_span i s))) (\<lambda>_.
     andthen (on_span i [PrepareForAsync]) (\<lambda>_.
     open_transfers E rid is (acc @ [(cid, i)]))))"

definition curl_multi_exec_before :: "env \<Rightarrow> before_hook" where
  "curl_multi_exec_before E rid ed =
     andthen (lift (validate_num_args ed 1)) (\<lambda>_.
     andthen (lift (get_resource_id ed)) (\<lambda>mid.
     andthen (reads (\<lambda>s. curl_multi s mid)) (\<lambda>m.
     case m of
       None \<Rightarrow> ret (DBool False, ed)
     | Some m \<Rightarrow>
         if curl_handles m = [] then ret (DBool False, ed)
         else if exec_spans m \<noteq> None then ret (DBool True, ed)
         else
           andthen (reads (\<lambda>s. iter_order E (log s) (curl_handles m))) (\<lambda>handles.
           andthen (collect_infos E handles) (\<lambda>infos.
           andthen (open_transfers E rid (sort_infos infos) []) (\<lambda>sps.
           andthen (modify (\<lambda>s. s\<lparr>curl_multi := (curl_multi s)(mid \<mapsto> m\<lparr>exec_spans := Some sps\<rparr>)\<rparr>)) (\<lambda>_.
           ret (DBool True, ed))))))))"

definition take_multi :: "i64 \<Rightarrow> agent \<Rightarrow> agent" where
  "take_multi mid s = s\<lparr>curl_multi := map_remove (curl_multi s) mid\<rparr>"

text \<open>The vector is popped from its end: the first argument is the vector reversed.\<close>

fun finish_transfers :: "env \<Rightarrow> (i64 \<times> nat) list \<Rightarrow> (i64 \<times> zval) list \<Rightarrow> unit agent_act" where
  "finish_transfers E [] handles = ret ()"
| "finish_transfers E ((cid, i) # sps) handles =
     (case map_of handles cid of
        None \<Rightarrow> andthen (modify (close_span i)) (\<lambda>_. finish_transfers E sps handles)
      | Some ch \<Rightarrow>
          andthen (on_failure (on_exit (finish_exit_span E i ch) (close_span i))
                     (close_spans (rev (map snd sps)))) (\<lambda>_.
          finish_transfers E sps (arr_delete handles cid)))"

definition curl_multi_exec_after :: "env \<Rightarrow> after_hook" where
  "curl_multi_exec_after E rid d ed rv =
     (case d of
        DBool is_exec \<Rightarrow>
          if \<not> is_exec then ret ()
          else if as_long rv \<noteq> Some CURLM_OK then ret ()
          else if Option.bind (as_z_ref (get_parameter ed 1)) as_long \<noteq> Some 0 then ret ()
          else
            andthen (lift (get_resource_id ed)) (\<lambda>mid.
            andthen (reads (\<lambda>s. curl_multi s mid)) (\<lambda>m.
            andthen (modify (take_multi mid)) (\<lambda>_.
            case m of None \<Rightarrow> ret ()
            | Some m \<Rightarrow>
                (case exec_spans m of None \<Rightarrow> ret ()
                 | Some sps \<Rightarrow> finish_transfers E (rev sps) (curl_handles m)))))
      | _ \<Rightarrow> panic (PanicString unwrap_msg))"

definition drop_multi :: "i64 \<Rightarrow> agent \<Rightarrow> agent" where
  "drop_multi mid s =
     (case curl_multi s mid of
        Some m \<Rightarrow> close_spans (case exec_spans m of None \<Rightarrow> [] | Some sps \<Rightarrow> map snd sps) (take_multi mid s)
      | None \<Rightarrow> take_multi mid s)"

definition curl_multi_close_before :: before_hook where
  "curl_multi_close_before rid ed =
     andthen (lift (validate_num_args ed 1)) (\<lambda>_.
     andthen (lift (get_resource_id ed)) (\<lambda>mid.
     andthen (modify (drop_multi mid)) (\<lambda>_. ret (DUnit, ed))))"

text \<open>The dispatch of \<^verbatim>\<open>CurlPlugin::hook\<close>; the class name is not looked at.\<close>

definition curl_class_names :: "bytes list option" where [simp]:
  "curl_class_names = None"

definition curl_function_name_prefix :: "bytes option" where [simp]:
  "curl_function_name_prefix = Some ''curl_''"

definition curl_hook :: "bytes option \<Rightarrow> bytes \<Rightarrow> hook_id option" where
  "curl_hook class_name function_name =
     (if function_name = ''curl_setopt'' then Some HCurlSetopt
      else if function_name = ''curl_setopt_array'' then Some HCurlSetoptArray
      else if function_name = ''curl_exec'' then Some HCurlExec
      else if function_name = ''curl_close'' then Some HCurlClose
      else if function_name = ''curl_multi_add_handle'' then Some HCurlMultiAddHandle
      else if function_name = ''curl_multi_remove_handle'' then Some HCurlMultiRemoveHandle
      else if function_name = ''curl_multi_exec'' then Some HCurlMultiExec
      else if function_name = ''curl_multi_close'' then Some HCurlMultiClose
      else None)"

section \<open>Spans of the hooks\<close>

lemma header_sel [simp]:
  "span_view (put_headers cid v s) = span_view s" "span_view (del_headers cid s) = span_view s"
  "curl_headers (put_headers cid v s) = (curl_headers s)(cid \<mapsto> v)"
  "curl_headers (del_headers cid s) = map_remove (curl_headers s) cid"
  "log (put_headers cid v s) = log s" "log (del_headers cid s) = log s"
  "request_context (put_headers cid v s) = request_context s"
  "request_context (del_headers cid s) = request_context s"
  "spans (put_headers cid v s) = spans s" "spans (del_headers cid s) = spans s"
  "next_id (put_headers cid v s) = next_id s" "next_id (del_headers cid s) = next_id s"
  "finished (put_headers cid v s) = finished s" "finished (del_headers cid s) = finished s"
  by (simp_all add: put_headers_def del_headers_def)

lemma multi_spans_upd_multi [simp]:
  "(\<And>m. exec_spans (f m) = exec_spans m) \<Longrightarrow> multi_spans (upd_multi mid f s) = multi_spans s"
  by (auto simp: multi_spans_def upd_multi_def fun_eq_iff default_multi_info_def split: option.split)

lemma multi_sel [simp]:
  "(\<And>m. exec_spans (f m) = exec_spans m) \<Longrightarrow> span_view (upd_multi mid f s) = span_view s"
  "exec_spans (insert_curl_handle cid ch m) = exec_spans m"
  "exec_spans (remove_curl_handle cid m) = exec_spans m"
  "curl_multi (take_multi mid s) = map_remove (curl_multi s) mid"
  "next_id (take_multi mid s) = next_id s" "ctl_view (take_multi mid s) = ctl_view s"
  "multi_spans (take_multi mid s) = (multi_spans s)(mid := {})"
  by (simp_all add: span_view_def insert_curl_handle_def remove_curl_handle_def)
    (simp_all add: upd_multi_def take_multi_def open_spans_def ctl_view_def originals_def multi_spans_def fun_eq_iff)

lemma open_spans_take_multi [simp]: "open_spans (take_multi mid s) = open_spans s"
  by (simp add: open_spans_def take_multi_def)

lemma close_spans_sel [simp]:
  "open_spans (close_spans is s) = open_spans s - set is"
  "next_id (close_spans is s) = next_id s" "curl_multi (close_spans is s) = curl_multi s"
  "ctl_view (close_spans is s) = ctl_view s" "multi_spans (close_spans is s) = multi_spans s"
  by (induction "is" arbitrary: s) (auto simp: close_spans_def)

lemma fresh_close_spans: "fresh_ids s \<Longrightarrow> fresh_ids (close_spans is s)"
  by (simp add: fresh_ids_def)

lemma quiet_get_curl_info [intro, simp]: "quiet (get_curl_info E cid ch)"
  unfolding get_curl_info_def by (intro quiet_intros)

lemma quiet_decorate [intro, simp]: "quiet (decorate_curl_span info i)"
  unfolding decorate_curl_span_def by (intro quiet_intros)

lemma quiet_inject [intro, simp]: "quiet (inject_sw_header E rid ch info)"
  unfolding inject_sw_header_def by (intro quiet_intros quiet_try_get_sw_header) simp

lemma quiet_report_status [intro, simp]: "quiet (report_status E i ch code)"
  unfolding report_status_def by (intro quiet_intros)

lemma quiet_finish_exit_span [intro, simp]: "quiet (finish_exit_span E i ch)"
  unfolding finish_exit_span_def by (intro quiet_intros quiet_report_status quiet_log_exception)

lemma quiet_collect_infos [intro, simp]: "quiet (collect_infos E hs)"
  by (induction hs rule: collect_infos.induct)
    (simp_all only: collect_infos.simps, intro quiet_intros, intro quiet_intros quiet_get_curl_info)

interpretation curl_setopt: silent_hook curl_setopt_before
proof
  show "quiet (curl_setopt_before rid ed)" for rid ed
    unfolding curl_setopt_before_def Let_def by (intro quiet_intros) simp_all
  show "holds_none (curl_setopt_before rid ed)" for rid ed
    unfolding curl_setopt_before_def Let_def by (intro holds_none_intros) simp_all
qed

interpretation curl_setopt_array: silent_hook curl_setopt_array_before
proof
  show "quiet (curl_setopt_array_before rid ed)" for rid ed
    unfolding curl_setopt_array_before_def Let_def by (intro quiet_intros) simp_all
  show "holds_none (curl_setopt_array_before rid ed)" for rid ed
    unfolding curl_setopt_array_before_def Let_def by (intro holds_none_intros) simp_all
qed

interpretation curl_close: silent_hook curl_close_before
proof
  show "quiet (curl_close_before rid ed)" for rid ed
    unfolding curl_close_before_def Let_def by (intro quiet_intros) simp_all
  show "holds_none (curl_close_before rid ed)" for rid ed
    unfolding curl_close_before_def Let_def by (intro holds_none_intros) simp_all
qed

interpretation curl_multi_add_handle: silent_hook curl_multi_add_handle_before
proof
  show "quiet (curl_multi_add_handle_before rid ed)" for rid ed
    unfolding curl_multi_add_handle_before_def Let_def by (intro quiet_intros) simp_all
  show "holds_none (curl_multi_add_handle_before rid ed)" for rid ed
    unfolding curl_multi_add_handle_before_def Let_def by (intro holds_none_intros) simp_all
qed

interpretation curl_multi_remove_handle: silent_hook curl_multi_remove_handle_before
proof
  show "quiet (curl_multi_remove_handle_before rid ed)" for rid ed
    unfolding curl_multi_remove_handle_before_def Let_def by (intro quiet_intros) simp_all
  show "holds_none (curl_multi_remove_handle_before rid ed)" for rid ed
    unfolding curl_multi_remove_handle_before_def Let_def by (intro holds_none_intros) simp_all
qed

interpretation curl_exec: span_hook "curl_exec_before E" "curl_exec_after E" for E
proof
  show "before_spec (curl_exec_before E rid ed)" for rid ed
    unfolding curl_exec_before_def
    by (intro before_spec_andthen with_exit_span_spec quiet_intros quiet_get_curl_info quiet_inject
        quiet_decorate)
  show "after_spec d (curl_exec_after E rid d ed rv)" for d rid ed rv
    unfolding curl_exec_after_def by (intro downcast_span_spec quiet_finish_exit_span)
qed

text \<open>Opening the transfers of a multi handle: one new span each, or none left.\<close>

lemma curl_create_exit_span_eq:
  "curl_create_exit_span rid info s =
     (case request_context s rid of
        None \<Rightarrow> (Err (Anyhow ''global tracing context not exists''), s)
      | Some c \<Rightarrow> (Ok (next_id s),
          upd_span (next_id s) [SetLayer LayerHttp, SetComponent COMPONENT_PHP_CURL_ID,
                                AddTag ''url'' (ci_raw_url info)]
            (opened c (url_path (ci_url info)) (ci_peer info) s)))"
  by (simp add: curl_create_exit_span_def decorate_curl_span_def andthen_def create_exit_span_in_eq
      open_span_eq opened_def split: option.split)

lemma opened_open_spans [simp]:
  "open_spans (opened c op pr s) = insert (next_id s) (open_spans s)"
  "fresh_ids s \<Longrightarrow> fresh_ids (opened c op pr s)"
  by (auto simp: open_spans_def fresh_ids_def less_Suc_eq)

lemma open_transfers_spec:
  assumes "fresh_ids s" and "open_transfers E rid is acc s = (r, s')"
  shows "fresh_ids s' \<and>
    (case r of
       Ok sps \<Rightarrow> \<exists>new. sps = acc @ new \<and> map fst new = map fst is \<and> distinct (map snd new) \<and>
         set (map snd new) \<inter> open_spans s = {} \<and> open_spans s' = open_spans s \<union> set (map snd new)
     | _ \<Rightarrow> open_spans s' = open_spans s - set (map snd acc))"
  using assms
proof (induction "is" arbitrary: acc s)
  case Nil
  then show ?case by auto
next
  case (Cons a "is")
  obtain cid ch info where a: "a = (cid, ch, info)" by (cases a)
  show ?case
  proof (cases "request_context s rid")
    case None
    then show ?thesis
      using Cons.prems
      by (auto simp: a andthen_def on_failure_def curl_create_exit_span_eq fresh_close_spans)
  next
    case (Some c)
    define j where "j = next_id s"
    obtain s1 where cr: "curl_create_exit_span rid info s = (Ok j, s1)"
      and o1: "open_spans s1 = insert j (open_spans s)" and f1: "fresh_ids s1"
      using Some Cons.prems(1) by (simp add: curl_create_exit_span_eq j_def)
    have new: "j \<notin> open_spans s" using Cons.prems(1) by (simp add: j_def fresh_ids_not_open)
    define m where "m = (if ci_is_http info then inject_sw_header E rid ch info else ret ())"
    have q: "quiet m" unfolding m_def by (intro quiet_intros quiet_inject)
    obtain r2 s2 where m: "m s1 = (r2, s2)" by fastforce
    have o2: "open_spans s2 = insert j (open_spans s)" and f2: "fresh_ids s2"
      using quietD [OF q m] quiet_fresh [OF q m f1] o1 by auto
    show ?thesis
    proof (cases r2)
      case (Ok u)
      define s3 where "s3 = upd_span j [PrepareForAsync] s2"
      have run: "open_transfers E rid is (acc @ [(cid, j)]) s3 = (r, s')"
        using Cons.prems(2) cr m Ok by (simp add: a andthen_def on_failure_def m_def s3_def)
      have f3: "fresh_ids s3" using f2 by (simp add: s3_def)
      have o3: "open_spans s3 = insert j (open_spans s)" using o2 by (simp add: s3_def)
      show ?thesis
      proof (cases r)
        case (Ok sps)
        with Cons.IH [OF f3 run] obtain new where "fresh_ids s'"
          "sps = acc @ (cid, j) # new" "map fst new = map fst is" "distinct (map snd new)"
          "set (map snd new) \<inter> open_spans s3 = {}" "open_spans s' = open_spans s3 \<union> set (map snd new)"
          by auto
        with Ok o3 new show ?thesis by (auto simp: a intro!: exI [of _ "(cid, j) # new"])
      qed (use Cons.IH [OF f3 run] o3 new in auto)
    next
      case (Err e)
      with Cons.prems(2) cr m o2 f2 new show ?thesis
        by (auto simp: a andthen_def on_failure_def m_def fresh_close_spans)
    next
      case (Panic p)
      with Cons.prems(2) cr m o2 f2 new show ?thesis
        by (auto simp: a andthen_def on_failure_def m_def fresh_close_spans)
    qed
  qed
qed

lemma collect_infos_keys:
  "collect_infos E hs s = (Ok infos, s') \<Longrightarrow> map fst infos = map fst hs"
proof (induction hs arbitrary: s infos)
  case (Cons h hs)
  then show ?case by (cases h) (auto elim!: andthen_OkE)
qed simp

lemma leaves_multi_get_curl_info [keeps_intros]: "leaves curl_multi (get_curl_info E cid ch)"
  unfolding get_curl_info_def by (intro keeps_intros) simp

lemma leaves_multi_inject [keeps_intros]: "leaves curl_multi (inject_sw_header E rid ch info)"
  unfolding inject_sw_header_def by (intro keeps_intros) (simp_all add: del_headers_def)

lemma leaves_multi_create [keeps_intros]: "leaves curl_multi (curl_create_exit_span rid info)"
  by (simp add: leaves_def curl_create_exit_span_eq split: option.split)

lemma leaves_multi_collect [keeps_intros]: "leaves curl_multi (collect_infos E hs)"
  by (induction hs rule: collect_infos.induct)
    (simp_all only: collect_infos.simps, intro keeps_intros, intro keeps_intros)

lemma leaves_multi_open_transfers: "leaves curl_multi (open_transfers E rid is acc)"
  by (induction E rid "is" acc rule: open_transfers.induct)
    (simp_all only: open_transfers.simps, intro keeps_intros, (intro keeps_intros; simp))

lemma leaves_multi_finish_exit_span [keeps_intros]: "leaves curl_multi (finish_exit_span E i ch)"
  unfolding finish_exit_span_def report_status_def log_exception_def Let_def
  by (intro keeps_intros; simp add: leaves_call_method)

lemma leaves_multi_finish: "leaves curl_multi (finish_transfers E sps hs)"
proof (induction sps arbitrary: hs)
  case (Cons a sps)
  have "leaves curl_multi (finish_transfers E ((cid, i) # sps) hs)" for cid i
    unfolding finish_transfers.simps by (intro keeps_intros Cons.IH) simp_all
  then show ?case by (cases a) simp
qed (simp only: finish_transfers.simps leaves_simple)

lemma sort_infos_keys: "mset (map fst (sort_infos xs)) = mset (map fst xs)"
  by (simp add: sort_infos_def)

lemma finish_transfers_spans:
  "open_spans (snd (finish_transfers E sps hs s)) = open_spans s - set (map snd sps)"
proof (induction sps arbitrary: hs s)
  case (Cons a sps)
  obtain cid i where a: "a = (cid, i)" by fastforce
  show ?case
  proof (cases "map_of hs cid")
    case None
    then show ?thesis by (auto simp: a Cons.IH)
  next
    case (Some ch)
    obtain r s1 where f: "finish_exit_span E i ch s = (r, s1)" by fastforce
    from quietD [OF quiet_finish_exit_span f] Cons.IH Some f show ?thesis
      by (cases r) (auto simp: a andthen_def on_failure_def on_exit_def)
  qed
qed simp


lemma leaves_ctl_get_curl_info [keeps_intros]: "leaves ctl_view (get_curl_info E cid ch)"
  unfolding get_curl_info_def by (intro keeps_intros) simp

lemma leaves_ctl_inject [keeps_intros]: "leaves ctl_view (inject_sw_header E rid ch info)"
  unfolding inject_sw_header_def by (intro keeps_intros) (simp_all add: del_headers_def ctl_view_def originals_def)

lemma leaves_ctl_create [keeps_intros]: "leaves ctl_view (curl_create_exit_span rid info)"
  by (simp add: leaves_def curl_create_exit_span_eq ctl_view_def originals_def opened_def split: option.split)

lemma leaves_ctl_open_transfers: "leaves ctl_view (open_transfers E rid is acc)"
  by (induction E rid "is" acc rule: open_transfers.induct)
    (simp_all only: open_transfers.simps, intro keeps_intros, (intro keeps_intros; simp))

lemma leaves_ctl_finish_exit_span [keeps_intros]: "leaves ctl_view (finish_exit_span E i ch)"
  unfolding leaves_def using quietD [OF quiet_finish_exit_span] by (metis prod.collapse)

lemma leaves_ctl_finish: "leaves ctl_view (finish_transfers E sps hs)"
proof (induction sps arbitrary: hs)
  case (Cons a sps)
  have "leaves ctl_view (finish_transfers E ((cid, i) # sps) hs)" for cid i
    unfolding finish_transfers.simps by (intro keeps_intros Cons.IH) simp_all
  then show ?case by (cases a) simp
qed (simp only: finish_transfers.simps leaves_simple)

lemma leaves_next_finish_exit_span [keeps_intros]: "leaves next_id (finish_exit_span E i ch)"
  unfolding leaves_def using quietD [OF quiet_finish_exit_span] by (metis prod.collapse)

lemma leaves_next_finish: "leaves next_id (finish_transfers E sps hs)"
proof (induction sps arbitrary: hs)
  case (Cons a sps)
  have "leaves next_id (finish_transfers E ((cid, i) # sps) hs)" for cid i
    unfolding finish_transfers.simps by (intro keeps_intros Cons.IH) simp_all
  then show ?case by (cases a) simp
qed (simp only: finish_transfers.simps leaves_simple)

lemma multi_exec_opens:
  assumes fresh: "fresh_ids s" and args: "1 \<le> num_args ed" "get_handle_id (get_parameter ed 0) = Ok mid"
    and multi: "curl_multi s mid = Some m" "exec_spans m = None" "curl_handles m \<noteq> []"
    and run: "curl_multi_exec_before E rid ed s = (r, s')"
  shows "(case r of
      Ok (d, ed') \<Rightarrow> d = DBool True \<and> ed' = ed \<and>
        (\<exists>sps. curl_multi s' = (curl_multi s)(mid \<mapsto> m\<lparr>exec_spans := Some sps\<rparr>) \<and>
           mset (map fst sps) = mset (map fst (iter_order E (log s) (curl_handles m))) \<and> distinct (map snd sps) \<and>
           set (map snd sps) \<inter> open_spans s = {} \<and> open_spans s' = open_spans s \<union> set (map snd sps))
    | _ \<Rightarrow> open_spans s' = open_spans s \<and> curl_multi s' = curl_multi s) \<and> fresh_ids s' \<and> ctl_view s' = ctl_view s"
proof -
  define hs where "hs = iter_order E (log s) (curl_handles m)"
  obtain r1 s1 where c: "collect_infos E hs s = (r1, s1)" by fastforce
  have o1: "open_spans s1 = open_spans s" "ctl_view s1 = ctl_view s" and f1: "fresh_ids s1"
    using quietD [OF quiet_collect_infos c] quiet_fresh [OF quiet_collect_infos c fresh] by auto
  have cm1: "curl_multi s1 = curl_multi s" "ctl_view s1 = ctl_view s"
    using leavesD_eq [OF leaves_multi_collect c] o1 by simp_all
  define store where "store = (\<lambda>sps. andthen (modify (\<lambda>s. s\<lparr>curl_multi := (curl_multi s)(mid \<mapsto> m\<lparr>exec_spans := Some sps\<rparr>)\<rparr>))
      (\<lambda>_. ret (DBool True, ed) :: (hook_data \<times> exec_data) agent_act))"
  have run1: "(case r1 of Ok infos \<Rightarrow> andthen (open_transfers E rid (sort_infos infos) []) store s1
      | Err e \<Rightarrow> (Err e, s1) | Panic p \<Rightarrow> (Panic p, s1)) = (r, s')"
  proof -
    have "andthen (collect_infos E hs) (\<lambda>infos. andthen (open_transfers E rid (sort_infos infos) []) store) s = (r, s')"
      using args multi run by (simp add: curl_multi_exec_before_def get_resource_id_def hs_def store_def)
    then show ?thesis by (subst (asm) andthen_def) (simp add: c)
  qed
  show ?thesis
  proof (cases r1)
    case (Ok infos)
    obtain r2 s2 where t: "open_transfers E rid (sort_infos infos) [] s1 = (r2, s2)" by fastforce
    note spec = open_transfers_spec [OF f1 t]
    have keys: "mset (map fst (sort_infos infos)) = mset (map fst hs)"
      by (simp only: sort_infos_keys collect_infos_keys [OF c [unfolded Ok]])
    have cm: "curl_multi s2 = curl_multi s" "ctl_view s2 = ctl_view s"
      using cm1 leavesD_eq [OF leaves_multi_open_transfers t] leavesD_eq [OF leaves_ctl_open_transfers t]
      by simp_all
    have run2: "(case r2 of Ok sps \<Rightarrow> store sps s2 | Err e \<Rightarrow> (Err e, s2) | Panic p \<Rightarrow> (Panic p, s2)) = (r, s')"
      using run1 t by (simp add: Ok andthen_def)
    show ?thesis
    proof (cases r2)
      case sps: (Ok sps)
      have "r = Ok (DBool True, ed)" "s' = s2\<lparr>curl_multi := (curl_multi s2)(mid \<mapsto> m\<lparr>exec_spans := Some sps\<rparr>)\<rparr>"
        using run2 by (simp_all add: sps store_def)
      moreover have k: "map fst sps = map fst (sort_infos infos)" using spec sps by auto
      have "mset (map fst sps) = mset (map fst (iter_order E (log s) (curl_handles m)))"
        by (simp only: k keys hs_def)
      moreover have "open_spans (s2\<lparr>curl_multi := x\<rparr>) = open_spans s2" "fresh_ids (s2\<lparr>curl_multi := x\<rparr>) = fresh_ids s2"
        "ctl_view (s2\<lparr>curl_multi := x\<rparr>) = ctl_view s2" for x
        by (simp_all add: open_spans_def fresh_ids_def ctl_view_def originals_def)
      ultimately show ?thesis using spec sps cm o1 by (auto intro!: exI [of _ sps])
    qed (use spec run2 o1 cm in auto)
  qed (use run1 o1 f1 cm1 in auto)
qed


text \<open>The hooks whose spans outlive the call keep the contract of the interceptors too.\<close>

lemma multi_spans_insert:
  "curl_multi s mid = Some m \<Longrightarrow> exec_spans m = None \<Longrightarrow>
   curl_multi s' = (curl_multi s)(mid \<mapsto> m\<lparr>exec_spans := Some sps\<rparr>) \<Longrightarrow>
   multi_spans s' = (multi_spans s)(mid := snd ` set sps) \<and> multi_spans s mid = {}"
  by (auto simp: multi_spans_def fun_eq_iff)

lemma spans_wf_insert:
  assumes wf: "spans_wf s" and fr: "fresh_ids s'" and new: "N \<inter> open_spans s = {}"
    and ms: "multi_spans s' = (multi_spans s)(mid := N)" "multi_spans s mid = {}"
    and op: "open_spans s' = open_spans s \<union> N"
  shows "spans_wf s' \<and> loose_spans s' = loose_spans s"
proof -
  have sub: "multi_spans s a \<subseteq> open_spans s" for a using wf by (auto simp: spans_wf_def transfers_def)
  have tr: "transfers s' = transfers s \<union> N" using ms by (auto simp: transfers_def split: if_splits)
  have "\<forall>a b. a \<noteq> b \<longrightarrow> multi_spans s' a \<inter> multi_spans s' b = {}"
    using wf new sub unfolding ms(1) spans_wf_def by (auto split: if_splits)
  with tr op fr wf new show ?thesis
    by (auto simp: spans_wf_def loose_spans_def)
qed

lemma spans_wf_remove:
  assumes wf: "spans_wf s" and fr: "fresh_ids s'"
    and ms: "multi_spans s' = (multi_spans s)(mid := {})" and op: "open_spans s' = open_spans s - multi_spans s mid"
  shows "spans_wf s' \<and> loose_spans s' = loose_spans s"
proof -
  have tr: "transfers s' = transfers s - multi_spans s mid"
    using wf unfolding ms transfers_def spans_wf_def by (auto split: if_splits)
  have dis: "\<forall>a b. a \<noteq> b \<longrightarrow> multi_spans s' a \<inter> multi_spans s' b = {}"
    using wf unfolding ms spans_wf_def by auto
  have "multi_spans s mid \<subseteq> transfers s" by (auto simp: transfers_def)
  with tr dis op fr wf show ?thesis by (auto simp: spans_wf_def loose_spans_def)
qed

lemma drop_multi_sel:
  "open_spans (drop_multi mid s) = open_spans s - multi_spans s mid"
  "multi_spans (drop_multi mid s) = (multi_spans s)(mid := {})"
  "next_id (drop_multi mid s) = next_id s" "ctl_view (drop_multi mid s) = ctl_view s"
  by (auto simp: drop_multi_def multi_spans_def [of s mid] split: option.split)

interpretation curl_multi_close: traced_hook curl_multi_close_before noop_after
proof
  show "spans_wf s' \<and> ctl_view s' = ctl_view s \<and>
       (case r of
          Ok (d, _) \<Rightarrow> loose_spans s' = loose_spans s \<union> held d \<and> held d \<inter> loose_spans s = {}
        | _ \<Rightarrow> loose_spans s' = loose_spans s)"
    if wf: "spans_wf s" and run: "curl_multi_close_before rid ed s = (r, s')" for s rid ed r s'
  proof -
    have "spans_wf (drop_multi mid s) \<and> loose_spans (drop_multi mid s) = loose_spans s" for mid
      by (rule spans_wf_remove [OF wf, of _ mid])
        (use wf in \<open>auto simp: drop_multi_sel spans_wf_def fresh_ids_def\<close>)
    moreover have "(\<exists>mid. s' = drop_multi mid s \<and> r = Ok (DUnit, ed)) \<or> s' = s \<and> (\<forall>x. r \<noteq> Ok x)"
      using run by (cases "validate_num_args ed 1"; cases "get_resource_id ed")
        (auto simp: curl_multi_close_before_def)
    ultimately show ?thesis using wf by (auto simp: drop_multi_sel split: outcome.splits)
  qed
  show "spans_wf t' \<and> ctl_view t' = ctl_view t \<and> loose_spans t' = loose_spans t - held d"
    if "curl_multi_close_before rid ed s = (Ok (d, ed'), s')" "spans_wf t" "held d \<subseteq> loose_spans t"
      "noop_after rid' d ed2 rv t = (ra, t')" for rid ed s d ed' s' t rid' ed2 rv ra t'
  proof -
    have "holds_none (curl_multi_close_before rid ed)"
      unfolding curl_multi_close_before_def by (intro holds_none_intros) simp
    from holds_noneD [OF this that(1)] that(2,4) show ?thesis by (simp add: noop_after_def)
  qed
qed

interpretation curl_multi_exec: traced_hook "curl_multi_exec_before E" "curl_multi_exec_after E" for E
proof
  show "spans_wf s' \<and> ctl_view s' = ctl_view s \<and>
       (case r of
          Ok (d, _) \<Rightarrow> loose_spans s' = loose_spans s \<union> held d \<and> held d \<inter> loose_spans s = {}
        | _ \<Rightarrow> loose_spans s' = loose_spans s)"
    if wf: "spans_wf s" and run: "curl_multi_exec_before E rid ed s = (r, s')" for s rid ed r s'
  proof (cases "\<exists>mid m. 1 \<le> num_args ed \<and> get_resource_id ed = Ok mid \<and> curl_multi s mid = Some m \<and>
      exec_spans m = None \<and> curl_handles m \<noteq> []")
    case True
    then obtain mid m where args: "1 \<le> num_args ed" "get_handle_id (get_parameter ed 0) = Ok mid"
      and multi: "curl_multi s mid = Some m" "exec_spans m = None" "curl_handles m \<noteq> []"
      by (auto simp: get_resource_id_def)
    have fresh: "fresh_ids s" using wf by (simp add: spans_wf_def)
    note opens = multi_exec_opens [OF fresh args multi run]
    show ?thesis
    proof (cases r)
      case (Ok p)
      with opens obtain sps where p: "fst p = DBool True"
        and cm: "curl_multi s' = (curl_multi s)(mid \<mapsto> m\<lparr>exec_spans := Some sps\<rparr>)"
        and new: "set (map snd sps) \<inter> open_spans s = {}" "open_spans s' = open_spans s \<union> set (map snd sps)"
        and rest: "fresh_ids s'" "ctl_view s' = ctl_view s"
        by (cases p) auto
      from multi_spans_insert [OF multi(1,2) cm] have ms: "multi_spans s' = (multi_spans s)(mid := snd ` set sps)"
        "multi_spans s mid = {}" by simp_all
      with spans_wf_insert [OF wf rest(1) _ ms] new rest Ok p show ?thesis by (cases p) auto
    next
      case (Err e)
      with opens have "multi_spans s' = multi_spans s" by (simp add: multi_spans_def fun_eq_iff)
      with opens Err wf show ?thesis by (auto simp: spans_wf_def loose_spans_def transfers_def)
    next
      case (Panic q)
      with opens have "multi_spans s' = multi_spans s" by (simp add: multi_spans_def fun_eq_iff)
      with opens Panic wf show ?thesis by (auto simp: spans_wf_def loose_spans_def transfers_def)
    qed
  next
    case False
    then have "s' = s \<and> (case r of Ok (d, _) \<Rightarrow> held d = {} | _ \<Rightarrow> True)"
      using run by (cases "validate_num_args ed 1"; cases "get_resource_id ed")
        (auto simp: curl_multi_exec_before_def split: option.splits if_splits)
    with wf show ?thesis by (auto split: outcome.splits)
  qed
  show "spans_wf t' \<and> ctl_view t' = ctl_view t \<and> loose_spans t' = loose_spans t - held d"
    if b: "curl_multi_exec_before E rid ed s = (Ok (d, ed'), s')" and wf: "spans_wf t"
      and a: "curl_multi_exec_after E rid' d ed2 rv t = (ra, t')" for rid ed s d ed' s' t rid' ed2 rv ra t'
  proof -
    have d: "held d = {}"
    proof -
      have "holds_none (curl_multi_exec_before E rid ed)"
        unfolding curl_multi_exec_before_def by (intro holds_none_intros) simp_all
      from holds_noneD [OF this b] show ?thesis .
    qed
    show ?thesis
    proof (cases "\<exists>mid m sps. get_resource_id ed2 = Ok mid \<and> curl_multi t mid = Some m \<and> exec_spans m = Some sps \<and>
        d = DBool True \<and> as_long rv = Some CURLM_OK \<and> Option.bind (as_z_ref (get_parameter ed2 1)) as_long = Some 0")
      case True
      then obtain mid m sps where m: "curl_multi t mid = Some m" "exec_spans m = Some sps"
        and fin: "finish_transfers E (rev sps) (curl_handles m) (take_multi mid t) = (ra, t')"
        using a by (auto simp: curl_multi_exec_after_def)
      have ms: "multi_spans t mid = snd ` set sps" using m by (simp add: multi_spans_def)
      have t': "open_spans t' = open_spans t - multi_spans t mid" "multi_spans t' = (multi_spans t)(mid := {})"
        "ctl_view t' = ctl_view t" "fresh_ids t'"
        using finish_transfers_spans [of E "rev sps" "curl_handles m" "take_multi mid t"] fin ms wf
          leavesD_eq [OF leaves_multi_finish fin] leavesD_eq [OF leaves_ctl_finish fin]
          leavesD_eq [OF leaves_next_finish fin]
        by (auto simp: multi_spans_def fun_eq_iff spans_wf_def fresh_ids_def)
      with spans_wf_remove [OF wf t'(4,2,1)] d show ?thesis by simp
    next
      case False
      then have "t' = t \<or> (\<exists>mid. t' = take_multi mid t \<and> multi_spans t mid = {})"
        using a by (cases "get_resource_id ed2"; cases d)
          (auto simp: curl_multi_exec_after_def multi_spans_def split: if_splits option.splits)
      then show ?thesis
      proof (elim disjE exE conjE)
        fix mid assume t': "t' = take_multi mid t" and none: "multi_spans t mid = {}"
        then show ?thesis using spans_wf_remove [OF wf, of t' mid] wf d
          by (auto simp: spans_wf_def fresh_ids_def)
      qed (use wf d in auto)
    qed
  qed
qed

section \<open>Properties\<close>

text \<open>For the witnesses: curl answers with a URL and a status code.\<close>

definition sample_curl_env :: "i64 \<Rightarrow> env" where
  "sample_curl_env code = sample_env\<lparr>php_call := (\<lambda>l c args.
     if c = GlobalFn ''curl_getinfo''
     then Inr (ZArr [(Key ''url'', ZStr ''localhost/index.php''), (Key ''http_code'', ZLong code)])
     else if c = GlobalFn ''curl_error'' then Inr (ZStr ''timed out'') else Inr ZNull)\<rparr>"

lemma sample_curl_env_sel [simp]:
  "pending_exception (sample_curl_env code) = (\<lambda>l. None)"
  "iter_order (sample_curl_env code) = (\<lambda>l hs. hs)"
  "next_free_index (sample_curl_env code) = (\<lambda>a. of_nat (length a))"
  "parse_url (sample_curl_env code) = (\<lambda>u. Some sample_url)"
  "php_call (sample_curl_env code) l (GlobalFn ''curl_getinfo'') args =
     Inr (ZArr [(Key ''url'', ZStr ''localhost/index.php''), (Key ''http_code'', ZLong code)])"
  "php_call (sample_curl_env code) l (GlobalFn ''curl_error'') args = Inr (ZStr ''timed out'')"
  "php_call (sample_curl_env code) l (GlobalFn ''curl_setopt'') args = Inr ZNull"
  by (simp_all add: sample_curl_env_def)

lemma curl_getinfo_sample [simp]:
  "call_result (sample_curl_env code) s (GlobalFn ''curl_getinfo'') args =
     Ok (ZArr [(Key ''url'', ZStr ''localhost/index.php''), (Key ''http_code'', ZLong code)])"
  by (simp add: call_result_def)

definition sample_curl_frame :: exec_data where
  "sample_curl_frame = sample_frame None (Some ''curl_exec'') None [ZRes 5]"

text \<open>
  (C20) Executing an HTTP transfer: \<^verbatim>\<open>curl_exec\<close> opens an exit span named after the path
  towards \<^verbatim>\<open>host:port\<close>, and re-sends the headers the program had set for this handle (none if
  it had set none) with the \<^verbatim>\<open>sw8\<close> line appended; the remembered headers are consumed.  The
  agent's own \<^verbatim>\<open>curl_setopt\<close> hook, run on that injected call, turns the private option back
  into the real one and remembers nothing.
\<close>

theorem exec_sends_user_headers:
  assumes ch: "get_parameter ed 0 = ch" "get_handle_id ch = Ok cid" "1 \<le> num_args ed"
    and ctx: "request_context s rid = Some c"
    and headers: "curl_headers s cid = Some (ZArr hs) \<or> curl_headers s cid = None \<and> hs = []"
    and getinfo: "call_result E s (GlobalFn ''curl_getinfo'') [ch] = Ok (ZArr ga)"
      "arr_get ga (Key ''url'') = Some (ZStr raw)" "utf8_valid raw"
    and url: "parse_url E (full_url raw) = Some u" "url_scheme u \<in> {''http'', ''https''}"
    and setopt: "\<forall>l args. \<exists>v. php_call E l (GlobalFn ''curl_setopt'') args = Inr v"
    and run: "curl_exec_before E rid ed s = (r, s')"
  shows "\<exists>i sw v. r = Ok (DSpan i, ed) \<and>
    spans s' i = Some \<lparr>sp_ctx = tracing_context c,
      sp_kind = ExitSpan ((case url_host u of None \<Rightarrow> [] | Some h \<Rightarrow> h) @ '':'' @ show_nat (curl_port u)),
      sp_operation = url_path u,
      sp_calls = [SetLayer LayerHttp, SetComponent COMPONENT_PHP_CURL_ID, AddTag ''url'' raw]\<rparr> \<and>
    v = ZArr (hs @ [(Index (next_free_index E hs), ZStr (''sw8: '' @ sw))]) \<and>
    last (log s') = PhpCall (GlobalFn ''curl_setopt'') [ch, ZLong SKY_CURLOPT_HTTPHEADER, v] \<and>
    curl_headers s' = (curl_headers s)(cid := None) \<and>
    (\<forall>f. num_args f = 3 \<and> get_parameter f 0 = ch \<and> get_parameter f 1 = ZLong SKY_CURLOPT_HTTPHEADER \<longrightarrow>
       curl_setopt_before rid f s' = (Ok (DUnit, set_parameter f 1 (ZLong CURLOPT_HTTPHEADER)), s'))"
proof -
  have setopt': "\<exists>v. call_result E t (GlobalFn ''curl_setopt'') args = Ok v" for t args
    using setopt by (metis call_result_def sum.simps(6))
  define info where "info = curl_info_of cid raw u"
  define s1 where "s1 = emit (PhpCall (GlobalFn ''curl_getinfo'') [ch]) s"
  have http: "ci_is_http info" "ci_cid info = cid" "ci_url info = u" "ci_raw_url info = raw"
    using url by (simp_all add: info_def curl_info_of_def)
  have info: "get_curl_info E cid ch s = (Ok info, s1)"
    using getinfo url by (simp add: get_curl_info_def s1_def info_def)
  define s2 where "s2 = upd_span (next_id s) [SetLayer LayerHttp, SetComponent COMPONENT_PHP_CURL_ID,
      AddTag ''url'' raw] (opened c (url_path u) (ci_peer info) s1)"
  define sw where "sw = encode_propagation E (log s2) (tracing_context c) (operation_of s2 (entry_span c)) (ci_peer info)"
  define v where "v = ZArr (hs @ [(Index (next_free_index E hs), ZStr (''sw8: '' @ sw))])"
  have inject: "inject_sw_header E rid ch info s2 =
      (Ok (), emit (PhpCall (GlobalFn ''curl_setopt'') [ch, ZLong SKY_CURLOPT_HTTPHEADER, v]) (del_headers cid s2))"
  proof -
    have "curl_headers s2 cid = curl_headers s cid" "request_context s2 rid = Some c"
      using ctx by (simp_all add: s2_def s1_def)
    then show ?thesis
      using headers setopt' [of "del_headers cid s2" "[ch, ZLong SKY_CURLOPT_HTTPHEADER, v]"]
      by (auto simp: inject_sw_header_def try_get_sw_header_def try_with_global_eq andthen_def call_eq
          sw_def v_def http header_line_def SW_HEADER_def arr_push_def split: outcome.splits)
  qed
  have run': "r = Ok (DSpan (next_id s), ed)"
    "s' = emit (PhpCall (GlobalFn ''curl_setopt'') [ch, ZLong SKY_CURLOPT_HTTPHEADER, v]) (del_headers cid s2)"
  proof -
    have before: "curl_exec_before E rid ed s =
        with_exit_span rid (url_path u) (ci_peer info) ed (\<lambda>i. andthen (decorate_curl_span info i)
          (\<lambda>_. inject_sw_header E rid ch info)) s1"
      unfolding curl_exec_before_def get_resource_id_def ch(1) using ch(2,3) http
      by (simp add: andthen_eqs(1) [where m = "get_curl_info E cid ch", OF info])
    have "request_context s1 rid = Some c" using ctx by (simp add: s1_def)
    then have "with_exit_span rid (url_path u) (ci_peer info) ed (\<lambda>i. andthen (decorate_curl_span info i)
          (\<lambda>_. inject_sw_header E rid ch info)) s1 =
        (Ok (DSpan (next_id s), ed),
         emit (PhpCall (GlobalFn ''curl_setopt'') [ch, ZLong SKY_CURLOPT_HTTPHEADER, v]) (del_headers cid s2))"
      using inject http by (simp add: with_exit_span_eq decorate_curl_span_def s2_def s1_def)
    with run before show "r = Ok (DSpan (next_id s), ed)"
      "s' = emit (PhpCall (GlobalFn ''curl_setopt'') [ch, ZLong SKY_CURLOPT_HTTPHEADER, v]) (del_headers cid s2)"
      by simp_all
  qed
  have peer: "ci_peer info = (case url_host u of None \<Rightarrow> [] | Some h \<Rightarrow> h) @ '':'' @ show_nat (curl_port u)"
    by (simp add: info_def curl_info_of_def)
  show ?thesis
    using run' ch peer
    by (auto simp: s2_def spans_upd_span s1_def v_def map_remove_def curl_setopt_before_def
        get_resource_id_def SKY_CURLOPT_HTTPHEADER_def)
qed

theorem exec_sends_user_headers_witness:
  "\<exists>r s' i sw. curl_exec_before (sample_curl_env 200) None sample_curl_frame
              (sample_agent\<lparr>curl_headers := [5 \<mapsto> ZArr [(Index 0, ZStr ''A: b'')]]\<rparr>) = (r, s') \<and>
     r = Ok (DSpan i, sample_curl_frame) \<and>
     last (log s') = PhpCall (GlobalFn ''curl_setopt'') [ZRes 5, ZLong 9923,
         ZArr [(Index 0, ZStr ''A: b''), (Index 1, ZStr (''sw8: '' @ sw))]]"
proof -
  obtain r s' where run: "curl_exec_before (sample_curl_env 200) None sample_curl_frame
      (sample_agent\<lparr>curl_headers := [5 \<mapsto> ZArr [(Index 0, ZStr ''A: b'')]]\<rparr>) = (r, s')"
    by fastforce
  show ?thesis
    using exec_sends_user_headers [where ch = "ZRes 5" and cid = 5 and c = sample_ctx
        and hs = "[(Index 0, ZStr ''A: b'')]" and raw = "''localhost/index.php''" and u = sample_url,
        OF _ _ _ _ _ curl_getinfo_sample _ _ _ _ _ run] run
    by (fastforce simp: sample_curl_frame_def get_handle_id_def arr_get_def SKY_CURLOPT_HTTPHEADER_def)
qed

text \<open>
  (C40) The end of a transfer: \<^verbatim>\<open>curl_exec\<close> has returned, its span is open and not marked yet, no
  exception is pending, and \<^verbatim>\<open>curl_getinfo\<close> answers an integer as \<^verbatim>\<open>http_code\<close>, \<^verbatim>\<open>curl_error\<close> a UTF-8
  string.  The after hook finishes exactly this span, with the status code as a tag, and it is marked as
  failed exactly for the code 0 (no response, with curl's own error as a log) and from 400 on.
\<close>

theorem transfer_status_marks_error:
  assumes open_span: "spans s i = Some sp" and sp: "\<not> span_is_error sp"
    and no_exception: "\<forall>l. pending_exception E l = None"
    and getinfo: "call_result E s (GlobalFn ''curl_getinfo'') [get_parameter ed 0] = Ok (ZArr ga)"
      "arr_get ga (Key ''http_code'') = Some (ZLong code)"
    and error: "\<forall>l args. php_call E l (GlobalFn ''curl_error'') args = Inr (ZStr err)" "utf8_valid err"
  shows "\<exists>s' sp'. curl_exec_after E rid (DSpan i) ed rv s = (Ok (), s') \<and>
     finished s' = finished s @ [sp'] \<and>
     span_is_error sp' = (code = 0 \<or> 400 \<le> sint code) \<and>
     span_tags sp' = span_tags sp @ [(''status_code'', show_i64 code)] \<and>
     (AddLog [(''CURL_ERROR'', err)] \<in> set (sp_calls sp') \<longleftrightarrow>
        code = 0 \<or> AddLog [(''CURL_ERROR'', err)] \<in> set (sp_calls sp))"
proof -
  have err: "call_result E t (GlobalFn ''curl_error'') args = Ok (ZStr err)" for t args
    using error by (simp add: call_result_def)
  define cs where "cs = [AddTag ''status_code'' (show_i64 code)] @
    (if code = 0 then [SetError True, AddLog [(''CURL_ERROR'', err)]] else [SetError (400 \<le> sint code)])"
  define s1 where "s1 = emit (PhpCall (GlobalFn ''curl_getinfo'') [get_parameter ed 0]) s"
  obtain s2 where fin: "finish_exit_span E i (get_parameter ed 0) s = (Ok (), s2)"
    and s2: "spans s2 i = Some (sp\<lparr>sp_calls := sp_calls sp @ cs\<rparr>)" "finished s2 = finished s"
    using getinfo error(2) no_exception open_span err
    by (cases "code = 0") (simp_all add: finish_exit_span_def report_status_def cs_def spans_upd_span)
  have "span_is_error (sp\<lparr>sp_calls := sp_calls sp @ cs\<rparr>) = (code = 0 \<or> 400 \<le> sint code)"
    using sp by (simp add: span_is_error_def cs_def)
  moreover have "span_tags (sp\<lparr>sp_calls := sp_calls sp @ cs\<rparr>) = span_tags sp @ [(''status_code'', show_i64 code)]"
    by (simp add: span_tags_append) (simp add: span_tags_def cs_def List.map_filter_def)
  ultimately show ?thesis
    using fin s2 by (auto simp: curl_exec_after_def downcast_span_def on_exit_def finished_close_span cs_def)
qed

theorem transfer_status_marks_error_witness:
  "\<exists>s' sp'. curl_exec_after (sample_curl_env 404) None (DSpan 2) sample_curl_frame ZNull sample_in_flight = (Ok (), s') \<and>
     finished s' = finished sample_in_flight @ [sp'] \<and> span_is_error sp'"
  using transfer_status_marks_error [of sample_in_flight 2 sample_exit "sample_curl_env 404" sample_curl_frame,
      OF _ _ _ curl_getinfo_sample, of 404 "''timed out''" None ZNull]
  by (fastforce simp: sample_curl_frame_def arr_get_def)

text \<open>
  (C16) Starting a multi handle: whatever order its handles are iterated in, the before hook of
  the first \<^verbatim>\<open>curl_multi_exec\<close> either opens exactly one new span for each of its handles and
  remembers them with the multi handle, or leaves no span open and the table as it was.
\<close>

theorem multi_exec_one_span_per_transfer:
  assumes fresh: "fresh_ids s" and args: "1 \<le> num_args ed" "get_handle_id (get_parameter ed 0) = Ok mid"
    and multi: "curl_multi s mid = Some m" "exec_spans m = None" "curl_handles m \<noteq> []"
    and order: "\<forall>l hs. mset (iter_order E l hs) = mset hs"
    and run: "curl_multi_exec_before E rid ed s = (r, s')"
  shows "(case r of
      Ok (d, ed') \<Rightarrow> d = DBool True \<and> ed' = ed \<and>
        (\<exists>sps. curl_multi s' = (curl_multi s)(mid \<mapsto> m\<lparr>exec_spans := Some sps\<rparr>) \<and>
           mset (map fst sps) = mset (map fst (curl_handles m)) \<and> distinct (map snd sps) \<and>
           set (map snd sps) \<inter> open_spans s = {} \<and> open_spans s' = open_spans s \<union> set (map snd sps))
    | _ \<Rightarrow> open_spans s' = open_spans s) \<and> fresh_ids s'"
proof -
  have "mset (map fst (iter_order E (log s) (curl_handles m))) = mset (map fst (curl_handles m))"
    using order by simp
  with multi_exec_opens [OF fresh args multi run] show ?thesis
    by (cases r) (auto split: prod.splits)
qed

theorem multi_exec_one_span_per_transfer_witness:
  "\<exists>r s'. curl_multi_exec_before (sample_curl_env 200) None sample_curl_frame
      (sample_agent\<lparr>curl_multi := [5 \<mapsto> \<lparr>exec_spans = None, curl_handles = [(6, ZRes 6), (8, ZRes 8)]\<rparr>]\<rparr>) = (r, s') \<and>
     fresh_ids s'"
proof -
  let ?s = "sample_agent\<lparr>curl_multi := [5 \<mapsto> \<lparr>exec_spans = None, curl_handles = [(6, ZRes 6), (8, ZRes 8)]\<rparr>]\<rparr>"
  obtain r s' where run: "curl_multi_exec_before (sample_curl_env 200) None sample_curl_frame ?s = (r, s')"
    by fastforce
  have "fresh_ids ?s" by (simp add: fresh_ids_def open_spans_def)
  with multi_exec_one_span_per_transfer [where mid = 5, OF _ _ _ _ _ _ _ run] run show ?thesis
    by (auto simp: sample_curl_frame_def get_handle_id_def)
qed

text \<open>
  (C15) The end of a multi handle: when \<^verbatim>\<open>curl_multi_exec\<close> reports that nothing is running any
  more, all spans opened for the multi handle are closed and its entry is removed, even when
  inspecting one of the transfers fails; in every other case nothing changes.
\<close>

theorem multi_exec_closes_all:
  assumes multi: "curl_multi s mid = Some m" "exec_spans m = Some sps"
    and arg: "get_handle_id (get_parameter ed 0) = Ok mid"
    and complete: "rv = ZLong CURLM_OK \<and> get_parameter ed 1 = ZRef (ZLong 0) \<longleftrightarrow> fin"
    and run: "curl_multi_exec_after E rid (DBool True) ed rv s = (r, s')"
  shows "if fin then open_spans s' = open_spans s - set (map snd sps) \<and> curl_multi s' = (curl_multi s)(mid := None)
         else s' = s \<and> r = Ok ()"
proof (cases fin)
  case True
  with complete multi arg run have fin: "finish_transfers E (rev sps) (curl_handles m) (take_multi mid s) = (r, s')"
    by (simp add: curl_multi_exec_after_def get_resource_id_def CURLM_OK_def)
  from finish_transfers_spans [of E "rev sps" "curl_handles m" "take_multi mid s"] fin
    leavesD_eq [OF leaves_multi_finish fin]
  show ?thesis using True by (simp add: map_remove_def)
next
  case False
  with complete run show ?thesis
    by (cases "get_parameter ed 1"; cases "as_z_ref (get_parameter ed 1)")
      (auto simp: curl_multi_exec_after_def CURLM_OK_def Option.bind_eq_Some_conv split: if_splits)
qed

theorem multi_exec_closes_all_witness:
  "open_spans (snd (curl_multi_exec_after sample_env None (DBool True)
      (sample_frame None None None [ZRes 5, ZRef (ZLong 0)]) (ZLong 0)
      (sample_in_flight\<lparr>curl_multi := [5 \<mapsto> \<lparr>exec_spans = Some [(6, 2)], curl_handles = [(6, ZRes 6)]\<rparr>]\<rparr>))) = {1}"
  using multi_exec_closes_all [where mid = 5 and fin = True, OF _ _ _ _ prod.collapse [symmetric],
      of "sample_in_flight\<lparr>curl_multi := [5 \<mapsto> \<lparr>exec_spans = Some [(6, 2)], curl_handles = [(6, ZRes 6)]\<rparr>]\<rparr>"
        _ "[(6, 2)]" "sample_frame None None None [ZRes 5, ZRef (ZLong 0)]" "ZLong 0" sample_env None]
  by (auto simp: get_handle_id_def CURLM_OK_def open_spans_def)

end
