(* ===== verification/Pdo.thy ===== *)
theory Pdo
  imports Samples
begin

text \<open>
  \<^verbatim>\<open>src/src/plugin/plugin_pdo.rs\<close>: the DSN parser, the table that remembers the DSN of every
  PDO and PDOStatement object, the destructor that is patched into the engine's handlers
  table to forget it again, and the hooks of \<^verbatim>\<open>PDO\<close> and \<^verbatim>\<open>PDOStatement\<close>.

  The handlers table belongs to a class, not to an object: every object of the class points to
  the same table (\<open>handlers_of\<close>), which \<open>hack_dtor\<close> overwrites.
\<close>

section \<open>DSN\<close>

definition default_port :: "bytes \<Rightarrow> bytes" where
  "default_port t =
     (if t = ''mysql'' then ''3306'' else if t = ''oci'' then ''1521''
      else if t = ''sqlsrv'' then ''1433'' else if t = ''pgsql'' then ''5432'' else ''0'')"

text \<open>The loop over the \<^verbatim>\<open>;\<close>-separated fields; the state is the host and the port so far.\<close>

fun dsn_fields :: "bytes list \<Rightarrow> bytes \<times> bytes \<Rightarrow> (bytes \<times> bytes) outcome" where
  "dsn_fields [] hp = Ok hp"
| "dsn_fields (f # fs) (host, port) =
     (if f = [] then dsn_fields fs (host, port)
      else case splitn2 (CHR ''='') f of
        (k, None) \<Rightarrow> Err (Anyhow ''unknown value'')
      | (k, Some v) \<Rightarrow>
          dsn_fields fs (if k = ''host'' then (v, port) else if k = ''port'' then (host, v) else (host, port)))"

definition make_peer :: "bytes \<Rightarrow> bytes \<Rightarrow> bytes" where
  "make_peer host port = (if CHR '':'' \<in> set host then host else host @ '':'' @ port)"

definition dsn_from_str :: "bytes \<Rightarrow> dsn outcome" where
  "dsn_from_str s =
     (case splitn2 (CHR '':'') s of
        (t, None) \<Rightarrow> Err (Anyhow ''unknown datasource'')
      | (t, Some ds) \<Rightarrow>
          (case dsn_fields (split (CHR '';'') ds) (''unknown'', default_port t) of
             Ok (host, port) \<Rightarrow> Ok \<lparr>db_type = t, data_source = ds, peer = make_peer host port\<rparr>
           | Err e \<Rightarrow> Err e
           | Panic p \<Rightarrow> Panic p))"

text \<open>What a DSN means: the value of the last field of a name, or a default.\<close>

definition field_or :: "bytes \<Rightarrow> (bytes \<times> bytes) list \<Rightarrow> bytes \<Rightarrow> bytes" where
  "field_or k kvs d = (case map_of (rev kvs) k of None \<Rightarrow> d | Some v \<Rightarrow> v)"

definition field_str :: "bytes \<times> bytes \<Rightarrow> bytes" where
  "field_str kv = fst kv @ ''='' @ snd kv"

definition plain_field :: "bytes \<times> bytes \<Rightarrow> bool" where
  "plain_field kv \<longleftrightarrow>
     CHR ''='' \<notin> set (fst kv) \<and> CHR '';'' \<notin> set (fst kv) \<and> CHR '';'' \<notin> set (snd kv)"

lemma field_or_Cons:
  "field_or k ((k', v) # kvs) d = field_or k kvs (if k' = k then v else d)"
  by (auto simp: field_or_def map_add_def split: option.split)

lemma dsn_fields_plain:
  "\<forall>kv \<in> set kvs. plain_field kv \<Longrightarrow>
   dsn_fields (map field_str kvs) (host, port) = Ok (field_or ''host'' kvs host, field_or ''port'' kvs port)"
proof (induction kvs arbitrary: host port)
  case Nil
  show ?case by (simp add: field_or_def)
next
  case (Cons kv kvs)
  obtain k v where kv: "kv = (k, v)" by fastforce
  from Cons.prems have "splitn2 (CHR ''='') (field_str kv) = (k, Some v)"
    by (simp add: kv field_str_def plain_field_def splitn2_sep)
  with Cons kv show ?case
    by (auto simp: field_or_Cons field_str_def)
qed

lemma split_fields:
  assumes "\<forall>kv \<in> set kvs. plain_field kv"
  shows "split (CHR '';'') (join '';'' (map field_str kvs)) = (if kvs = [] then [[]] else map field_str kvs)"
proof (cases "kvs = []")
  case False
  moreover have "\<forall>p \<in> set (map field_str kvs). CHR '';'' \<notin> set p"
    using assms by (auto simp: field_str_def plain_field_def)
  ultimately show ?thesis by (simp add: split_join)
qed simp

lemma dsn_fields_err: "dsn_fields fs hp = Err e \<Longrightarrow> e = Anyhow ''unknown value''"
  by (induction fs hp rule: dsn_fields.induct) (auto split: if_splits option.splits prod.splits)

lemma dsn_fields_no_panic: "dsn_fields fs hp \<noteq> Panic p"
  by (induction fs hp rule: dsn_fields.induct) (auto split: option.splits prod.splits)

lemma dsn_fields_bad:
  "f \<in> set fs \<Longrightarrow> f \<noteq> [] \<Longrightarrow> CHR ''='' \<notin> set f \<Longrightarrow>
   dsn_fields fs hp = Err (Anyhow ''unknown value'')"
proof (induction fs arbitrary: hp)
  case (Cons g fs)
  then show ?case
    by (cases hp) (auto simp: splitn2_no_sep split: option.splits prod.splits)
qed simp

lemma dsn_fields_good:
  "\<not> (\<exists>f \<in> set fs. f \<noteq> [] \<and> CHR ''='' \<notin> set f) \<Longrightarrow> \<exists>hp'. dsn_fields fs hp = Ok hp'"
proof (induction fs arbitrary: hp)
  case (Cons g fs)
  then show ?case
    by (cases hp) (auto split: option.splits prod.splits dest: splitn2_NoneD)
qed simp

section \<open>The table of DSNs and the patched destructor\<close>

definition hack_dtor :: "env \<Rightarrow> zobj \<Rightarrow> dtor_fn option \<Rightarrow> agent \<Rightarrow> agent" where
  "hack_dtor E this new_dtor s =
     (let handle = obj_handle this; t = handlers_of E this in
      s\<lparr>dtor_map := (dtor_map s)(handle \<mapsto> dtor_obj s t),
        dtor_obj := (dtor_obj s)(t := new_dtor)\<rparr>)"

text \<open>
  \<^verbatim>\<open>pdo_dtor\<close> and \<^verbatim>\<open>pdo_statement_dtor\<close> both run \<^verbatim>\<open>dtor\<close>, which calls whatever was recorded as
  the original destructor, be it one of the two again.
\<close>

function dtor :: "u32 \<Rightarrow> agent \<Rightarrow> agent" where
  "dtor h s =
     (let s1 = s\<lparr>dsn_map := map_remove (dsn_map s) h\<rparr>;
          s2 = s1\<lparr>dtor_map := map_remove (dtor_map s1) h\<rparr>
      in case dtor_map s1 h of
           Some (Some d) \<Rightarrow>
             (case d of
                EngineDtor n \<Rightarrow> emit (EngineDtorRun n h) s2
              | PdoDtor \<Rightarrow> dtor h s2
              | PdoStatementDtor \<Rightarrow> dtor h s2)
         | _ \<Rightarrow> s2)"
  by pat_completeness auto
termination
  by (relation "measure (\<lambda>(h, s). if dtor_map s h = None then 0 else 1)") auto

declare dtor.simps [simp del]

definition pdo_dtor :: "u32 \<Rightarrow> agent \<Rightarrow> agent" where [simp]:
  "pdo_dtor h s = dtor h s"

definition pdo_statement_dtor :: "u32 \<Rightarrow> agent \<Rightarrow> agent" where [simp]:
  "pdo_statement_dtor h s = dtor h s"

text \<open>The engine destroys an object through the handlers table of the object.\<close>

definition destroy_object :: "env \<Rightarrow> zobj \<Rightarrow> agent \<Rightarrow> agent" where
  "destroy_object E ob s =
     (case dtor_obj s (handlers_of E ob) of
        None \<Rightarrow> s
      | Some (EngineDtor n) \<Rightarrow> emit (EngineDtorRun n (obj_handle ob)) s
      | Some PdoDtor \<Rightarrow> pdo_dtor (obj_handle ob) s
      | Some PdoStatementDtor \<Rightarrow> pdo_statement_dtor (obj_handle ob) s)"

lemma dtor_none: "dtor_map s h = None \<Longrightarrow> dtor h s = s\<lparr>dsn_map := map_remove (dsn_map s) h\<rparr>"
  by (subst dtor.simps) (simp add: Let_def map_remove_idem)

lemma dtor_eq:
  "dtor h s =
     (let s2 = s\<lparr>dsn_map := map_remove (dsn_map s) h, dtor_map := map_remove (dtor_map s) h\<rparr>
      in case dtor_map s h of Some (Some (EngineDtor n)) \<Rightarrow> emit (EngineDtorRun n h) s2 | _ \<Rightarrow> s2)"
  by (subst dtor.simps)
    (auto simp: Let_def dtor_none map_remove_idem split: option.split dtor_fn.split)

lemma dtor_sel [simp]:
  "dsn_map (dtor h s) = map_remove (dsn_map s) h" "dtor_map (dtor h s) = map_remove (dtor_map s) h"
  "dtor_obj (dtor h s) = dtor_obj s" "span_view (dtor h s) = span_view s"
  by (simp_all add: dtor_eq Let_def split: option.split dtor_fn.split)

lemma hack_dtor_sel [simp]:
  "dsn_map (hack_dtor E ob d s) = dsn_map s" "log (hack_dtor E ob d s) = log s"
  "span_view (hack_dtor E ob d s) = span_view s"
  "request_context (hack_dtor E ob d s) = request_context s"
  "spans (hack_dtor E ob d s) = spans s" "next_id (hack_dtor E ob d s) = next_id s"
  "dtor_map (hack_dtor E ob d s) = (dtor_map s)(obj_handle ob \<mapsto> dtor_obj s (handlers_of E ob))"
  "dtor_obj (hack_dtor E ob d s) = (dtor_obj s)(handlers_of E ob := d)"
  by (simp_all add: hack_dtor_def Let_def)

interpretation pdo_patch: handler_patch "handlers_of E" "\<lambda>ob. hack_dtor E ob (Some f)" dtor_obj dtor_map f
  for E f
  by unfold_locales simp_all

lemma log_fold_hack [simp]: "log (fold (\<lambda>ob. hack_dtor E ob d) obs s) = log s"
  by (induction obs arbitrary: s) auto

section \<open>Hooks\<close>

definition dsn_span ::
  "i64 option \<Rightarrow> bytes \<Rightarrow> bytes \<Rightarrow> dsn \<Rightarrow> exec_data \<Rightarrow> (nat \<Rightarrow> unit agent_act) \<Rightarrow>
   (hook_data \<times> exec_data) agent_act" where
  "dsn_span rid class_name function_name d ed k =
     with_exit_span rid (class_name @ ''->'' @ function_name) (peer d) ed (\<lambda>i.
       andthen (on_span i [SetLayer LayerDatabase, SetComponent COMPONENT_PHP_PDO_ID,
                           AddTag TAG_DB_TYPE (db_type d), AddTag ''db.data_source'' (data_source d)])
         (\<lambda>_. k i))"

definition with_dsn :: "u32 \<Rightarrow> (dsn \<Rightarrow> 'a agent_act) \<Rightarrow> 'a agent_act" where
  "with_dsn handle f =
     andthen (reads (\<lambda>s. dsn_map s handle)) (\<lambda>d.
       case d of None \<Rightarrow> fail (Anyhow ''dsn not exists'') | Some d \<Rightarrow> f d)"

definition insert_dsn :: "u32 \<Rightarrow> dsn \<Rightarrow> agent \<Rightarrow> agent" where
  "insert_dsn h d s = s\<lparr>dsn_map := (dsn_map s)(h \<mapsto> d)\<rparr>"

definition pdo_construct_before :: "env \<Rightarrow> before_hook" where
  "pdo_construct_before E rid ed =
     andthen (lift (validate_num_args ed 1)) (\<lambda>_.
     andthen (lift (get_this_mut ed)) (\<lambda>this.
     andthen (modify (hack_dtor E this (Some PdoDtor))) (\<lambda>_.
     andthen (lift (with_context ''dsn isn't str'' (as_z_str (get_parameter ed 0)))) (\<lambda>raw.
     andthen (lift (expect_utf8 raw)) (\<lambda>txt.
     andthen (lift (dsn_from_str txt)) (\<lambda>d.
     dsn_span rid ''PDO'' ''__construct'' d ed (\<lambda>_.
       modify (insert_dsn (obj_handle this) d))))))))"

definition pdo_construct_after :: "env \<Rightarrow> after_hook" where
  "pdo_construct_after E rid d ed rv =
     downcast_span d (\<lambda>i. andthen (log_exception E i) (\<lambda>_. ret ()))"

definition tag_statement :: "nat \<Rightarrow> bytes option \<Rightarrow> unit agent_act" where
  "tag_statement i st =
     (case st of None \<Rightarrow> ret ()
      | Some st \<Rightarrow> andthen (lift (expect_utf8 st)) (\<lambda>t. on_span i [AddTag TAG_DB_STATEMENT t]))"

definition pdo_methods_before :: "bytes \<Rightarrow> before_hook" where
  "pdo_methods_before function_name rid ed =
     andthen (lift (get_this_mut ed)) (\<lambda>this.
     with_dsn (obj_handle this) (\<lambda>d.
     dsn_span rid ''PDO'' function_name d ed (\<lambda>i.
       if 1 \<le> num_args ed then tag_statement i (as_z_str (get_parameter ed 0)) else ret ())))"

definition pdo_statement_methods_before :: "bytes \<Rightarrow> before_hook" where
  "pdo_statement_methods_before function_name rid ed =
     andthen (lift (get_this_mut ed)) (\<lambda>this.
     with_dsn (obj_handle this) (\<lambda>d.
     dsn_span rid ''PDOStatement'' function_name d ed (\<lambda>i.
       tag_statement i (as_z_str (get_property this ''queryString'')))))"

definition get_error_info_item :: "zarr \<Rightarrow> nat \<Rightarrow> zval outcome" where
  "get_error_info_item info i =
     with_context (''errorInfo['' @ show_nat i @ ''] not exists'') (arr_get info (Index (of_nat i)))"

definition after_hook_when_false :: "env \<Rightarrow> zobj \<Rightarrow> nat \<Rightarrow> unit agent_act" where
  "after_hook_when_false E this i =
     andthen (call_method E this ''errorInfo'' []) (\<lambda>info.
     andthen (lift (with_context ''errorInfo isn't array'' (as_z_arr info))) (\<lambda>info.
     andthen (lift (get_error_info_item info 0)) (\<lambda>v0.
     andthen (lift (expect ''string'' (as_z_str v0))) (\<lambda>raw.
     andthen (lift (expect_utf8 raw)) (\<lambda>state.
     andthen (lift (get_error_info_item info 1)) (\<lambda>code.
     if as_null code \<noteq> None then ret ()
     else
       andthen (lift (expect ''long'' (as_long code))) (\<lambda>n.
       andthen (lift (get_error_info_item info 2)) (\<lambda>v2.
       andthen (lift (expect ''string'' (as_z_str v2))) (\<lambda>raw2.
       andthen (lift (expect_utf8 raw2)) (\<lambda>err.
       on_span i [SetError True,
                  AddLog [(''SQLSTATE'', state), (''Error Code'', show_i64 n), (''Error'', err)]]))))))))))"

definition after_hook_when_pdo_statement :: "env \<Rightarrow> zobj \<Rightarrow> zobj \<Rightarrow> unit agent_act" where
  "after_hook_when_pdo_statement E pdo stmt =
     andthen (reads (\<lambda>s. dsn_map s (obj_handle pdo))) (\<lambda>d.
     andthen (lift (with_context ''DSN not found'' d)) (\<lambda>d.
     modify (\<lambda>s. hack_dtor E stmt (Some PdoStatementDtor) (insert_dsn (obj_handle stmt) d s))))"

definition pdo_after_hook :: "env \<Rightarrow> after_hook" where
  "pdo_after_hook E rid d ed rv =
     downcast_span d (\<lambda>i.
     andthen (log_exception E i) (\<lambda>ex.
     if ex \<noteq> None then ret ()
     else case as_bool rv of
       Some b \<Rightarrow>
         if \<not> b then andthen (lift (get_this_mut ed)) (\<lambda>this. after_hook_when_false E this i)
         else ret ()
     | None \<Rightarrow>
         (case as_z_obj rv of
            None \<Rightarrow> ret ()
          | Some ob \<Rightarrow>
              andthen (reads log) (\<lambda>l.
              if \<not> class_exists E l ''PDOStatement'' then panic (PanicString (unwrap_class_msg E ''PDOStatement''))
              else if instance_of E l (obj_class ob) ''PDOStatement'' then
                andthen (lift (get_this_mut ed)) (\<lambda>this. after_hook_when_pdo_statement E this ob)
              else andthen (lift (expect_utf8 (obj_class ob))) (\<lambda>_. ret ())))))"

definition pdo_class_names :: "bytes list option" where [simp]:
  "pdo_class_names = Some [''PDO'', ''PDOStatement'']"

definition pdo_function_name_prefix :: "bytes option" where [simp]:
  "pdo_function_name_prefix = None"

definition pdo_hook :: "bytes option \<Rightarrow> bytes \<Rightarrow> hook_id option" where
  "pdo_hook class_name f =
     (if class_name = Some ''PDO'' \<and> f = ''__construct'' then Some HPdoConstruct
      else if class_name = Some ''PDO'' \<and>
          f \<in> {''exec'', ''query'', ''prepare'', ''commit'', ''begintransaction'', ''rollback''}
      then Some (HPdoMethods f)
      else if class_name = Some ''PDOStatement'' \<and>
          f \<in> {''execute'', ''fetch'', ''fetchAll'', ''fetchColumn'', ''fetchObject''}
      then Some (HPdoStatementMethods f)
      else None)"

lemma insert_dsn_sel [simp]:
  "span_view (insert_dsn h d s) = span_view s" "dsn_map (insert_dsn h d s) = (dsn_map s)(h \<mapsto> d)"
  "dtor_map (insert_dsn h d s) = dtor_map s" "dtor_obj (insert_dsn h d s) = dtor_obj s"
  "log (insert_dsn h d s) = log s" "request_context (insert_dsn h d s) = request_context s"
  by (simp_all add: insert_dsn_def)

lemma quiet_tag_statement [intro, simp]: "quiet (tag_statement i st)"
  unfolding tag_statement_def by (intro quiet_intros)

lemma dsn_span_spec [intro]: "(\<And>i. quiet (k i)) \<Longrightarrow> before_spec (dsn_span rid cn fn d ed k)"
  unfolding dsn_span_def by (intro with_exit_span_spec quiet_intros)

lemma with_dsn_spec [intro]: "(\<And>d. before_spec (f d)) \<Longrightarrow> before_spec (with_dsn h f)"
  unfolding with_dsn_def by (intro before_spec_andthen before_spec_option before_spec_fail quiet_intros)

lemma quiet_when_false [intro, simp]: "quiet (after_hook_when_false E this i)"
  unfolding after_hook_when_false_def by (intro quiet_intros)

lemma quiet_when_statement [intro, simp]: "quiet (after_hook_when_pdo_statement E pdo stmt)"
  unfolding after_hook_when_pdo_statement_def by (intro quiet_intros) simp

lemma pdo_after_spec [intro]: "after_spec d (pdo_after_hook E rid d ed rv)"
  unfolding pdo_after_hook_def by (intro downcast_span_spec quiet_intros quiet_log_exception) auto

interpretation pdo_construct: span_hook "pdo_construct_before E" "pdo_construct_after E" for E
proof
  show "before_spec (pdo_construct_before E rid ed)" for rid ed
    unfolding pdo_construct_before_def
    by (intro before_spec_andthen dsn_span_spec quiet_intros) simp_all
  show "after_spec d (pdo_construct_after E rid d ed rv)" for d rid ed rv
    unfolding pdo_construct_after_def
    by (intro downcast_span_spec quiet_intros quiet_log_exception)
qed

interpretation pdo_methods: span_hook "pdo_methods_before fn" "pdo_after_hook E" for fn E
proof
  show "before_spec (pdo_methods_before fn rid ed)" for rid ed
    unfolding pdo_methods_before_def
    by (intro before_spec_andthen with_dsn_spec dsn_span_spec quiet_intros quiet_tag_statement)
qed (rule pdo_after_spec)

interpretation pdo_statement: span_hook "pdo_statement_methods_before fn" "pdo_after_hook E" for fn E
proof
  show "before_spec (pdo_statement_methods_before fn rid ed)" for rid ed
    unfolding pdo_statement_methods_before_def
    by (intro before_spec_andthen with_dsn_spec dsn_span_spec quiet_intros quiet_tag_statement)
qed (rule pdo_after_spec)


section \<open>Properties\<close>

text \<open>
  (C24) Parsing a DSN: for a driver name without a colon and fields \<^verbatim>\<open>name=value\<close> the parser
  returns the driver, the data source unchanged, and as peer the last host (default
  \<^verbatim>\<open>unknown\<close>), with the last port or the driver's default port unless the host carries one.
\<close>

theorem dsn_from_str_fields:
  assumes "CHR '':'' \<notin> set t" and "\<forall>kv \<in> set kvs. plain_field kv"
  shows "dsn_from_str (t @ '':'' @ join '';'' (map field_str kvs)) =
         Ok \<lparr>db_type = t, data_source = join '';'' (map field_str kvs),
             peer = make_peer (field_or ''host'' kvs ''unknown'') (field_or ''port'' kvs (default_port t))\<rparr>"
  using assms dsn_fields_plain [OF assms(2)]
  by (auto simp: dsn_from_str_def splitn2_sep split_fields field_or_def)

theorem dsn_from_str_fields_witness:
  "dsn_from_str ''mysql:dbname=skywalking;host=127.0.0.1;port=3306'' =
   Ok \<lparr>db_type = ''mysql'', data_source = ''dbname=skywalking;host=127.0.0.1;port=3306'',
       peer = ''127.0.0.1:3306''\<rparr>"
  using dsn_from_str_fields [of "''mysql''"
      "[(''dbname'', ''skywalking''), (''host'', ''127.0.0.1''), (''port'', ''3306'')]"]
  by (simp add: plain_field_def field_str_def field_or_def make_peer_def)

text \<open>
  (C25) Which DSNs are accepted: exactly those with a colon after which every non-empty
  \<^verbatim>\<open>;\<close>-separated field contains an equals sign; any other DSN is an error, and the parser never
  panics.  In particular a DSN that names a file or \<^verbatim>\<open>:memory:\<close> is rejected.
\<close>

theorem dsn_from_str_accepts:
  "(dsn_from_str s = Err (Anyhow ''unknown datasource'')) = (CHR '':'' \<notin> set s) \<and>
   (dsn_from_str s = Err (Anyhow ''unknown value'')) =
     (\<exists>t ds. s = t @ CHR '':'' # ds \<and> CHR '':'' \<notin> set t \<and>
        (\<exists>f \<in> set (split (CHR '';'') ds). f \<noteq> [] \<and> CHR ''='' \<notin> set f)) \<and>
   (\<exists>d. dsn_from_str s = Ok d) =
     (\<exists>t ds. s = t @ CHR '':'' # ds \<and> CHR '':'' \<notin> set t \<and>
        \<not> (\<exists>f \<in> set (split (CHR '';'') ds). f \<noteq> [] \<and> CHR ''='' \<notin> set f)) \<and>
   dsn_from_str s \<noteq> Panic p"
proof (cases "splitn2 (CHR '':'') s")
  case (Pair t r)
  show ?thesis
  proof (cases r)
    case None
    with Pair have "CHR '':'' \<notin> set s" by (auto dest: splitn2_NoneD)
    moreover from this Pair None have "dsn_from_str s = Err (Anyhow ''unknown datasource'')"
      by (simp add: dsn_from_str_def)
    ultimately show ?thesis by auto
  next
    case (Some ds)
    with Pair have s: "s = t @ CHR '':'' # ds" "CHR '':'' \<notin> set t" using splitn2_SomeD by fastforce+
    have uniq: "s = t' @ CHR '':'' # ds' \<and> CHR '':'' \<notin> set t' \<longleftrightarrow> t' = t \<and> ds' = ds" for t' ds'
      using s by (auto simp: append_eq_append_conv2 Cons_eq_append_conv append_eq_Cons_conv)
    have ex: "(\<exists>t' ds'. s = t' @ CHR '':'' # ds' \<and> CHR '':'' \<notin> set t' \<and> Q ds') = Q ds" for Q
      using uniq by blast
    have mem: "CHR '':'' \<in> set s" using s by simp
    let ?bad = "\<exists>f \<in> set (split (CHR '';'') ds). f \<noteq> [] \<and> CHR ''='' \<notin> set f"
    have "dsn_from_str s = Err (Anyhow ''unknown value'')" if ?bad
      using that Pair Some by (auto simp: dsn_from_str_def dsn_fields_bad)
    moreover have "\<exists>d. dsn_from_str s = Ok d" if good: "\<not> ?bad"
    proof -
      from good obtain hp where "dsn_fields (split (CHR '';'') ds) (''unknown'', default_port t) = Ok hp"
        using dsn_fields_good by blast
      with Pair Some show ?thesis by (auto simp: dsn_from_str_def split: prod.split)
    qed
    ultimately show ?thesis unfolding ex using mem by (cases ?bad) auto
  qed
qed

text \<open>
  (C26) A statement inherits the DSN of the connection that produced it: when a hooked
  \<^verbatim>\<open>PDO\<close> method returns a PDOStatement, a later hooked method of that statement opens an
  exit span towards the connection's peer.
\<close>

theorem statement_inherits_dsn:
  assumes dsn: "dsn_map s (obj_handle pdo) = Some d" and obj: "this_obj ed = Some pdo"
    and no_exception: "pending_exception E (log s) = None"
    and cls: "class_exists E (log s) ''PDOStatement''"
    and inst: "instance_of E (log s) (obj_class stmt) ''PDOStatement''"
    and after: "pdo_after_hook E rid (DSpan i) ed (ZObj stmt) s = (r, s1)"
    and ctx: "request_context s1 rid = Some c"
    and obj2: "this_obj ed2 = Some stmt"
    and query: "get_property stmt ''queryString'' = ZStr q" and utf8: "utf8_valid q"
  shows "r = Ok () \<and>
    (\<exists>j s2. pdo_statement_methods_before fn rid ed2 s1 = (Ok (DSpan j, ed2), s2) \<and>
       spans s2 j = Some \<lparr>sp_ctx = tracing_context c, sp_kind = ExitSpan (peer d),
         sp_operation = ''PDOStatement->'' @ fn,
         sp_calls = [SetLayer LayerDatabase, SetComponent COMPONENT_PHP_PDO_ID,
           AddTag TAG_DB_TYPE (db_type d), AddTag ''db.data_source'' (data_source d),
           AddTag TAG_DB_STATEMENT q]\<rparr>)"
proof -
  have r: "r = Ok ()" and s1: "dsn_map s1 (obj_handle stmt) = Some d"
    using after by (auto simp: pdo_after_hook_def downcast_span_def on_exit_def no_exception cls inst obj
        get_this_mut_def after_hook_when_pdo_statement_def dsn split: prod.splits)
  show ?thesis
    using r s1 ctx obj2 query utf8
    by (simp add: pdo_statement_methods_before_def with_dsn_def dsn_span_def with_exit_span_eq
        tag_statement_def spans_upd_span)
qed

theorem statement_inherits_dsn_witness:
  "\<exists>j s2. pdo_statement_methods_before ''execute'' None
      (sample_frame None None (Some (Zobj 8 ''PDOStatement'' [(''queryString'', ZStr ''SELECT 1'')])) [])
      (snd (pdo_after_hook sample_env None (DSpan 2) (sample_frame None None (Some (sample_obj ''PDO'')) [])
         (ZObj (Zobj 8 ''PDOStatement'' [(''queryString'', ZStr ''SELECT 1'')]))
         (sample_in_flight\<lparr>dsn_map := [7 \<mapsto> \<lparr>db_type = ''mysql'', data_source = ''host=h'', peer = ''h:3306''\<rparr>]\<rparr>))) =
      (Ok (DSpan j, sample_frame None None (Some (Zobj 8 ''PDOStatement'' [(''queryString'', ZStr ''SELECT 1'')])) []), s2)"
proof -
  let ?st = "Zobj 8 ''PDOStatement'' [(''queryString'', ZStr ''SELECT 1'')]"
  let ?d = "\<lparr>db_type = ''mysql'', data_source = ''host=h'', peer = ''h:3306''\<rparr>"
  let ?s = "sample_in_flight\<lparr>dsn_map := [7 \<mapsto> ?d]\<rparr>"
  let ?ed = "sample_frame None None (Some (sample_obj ''PDO'')) []"
  obtain r s1 where run: "pdo_after_hook sample_env None (DSpan 2) ?ed (ZObj ?st) ?s = (r, s1)" by fastforce
  have "leaves request_context (pdo_after_hook sample_env None (DSpan 2) ?ed (ZObj ?st))"
    unfolding pdo_after_hook_def downcast_span_def log_exception_def Let_def after_hook_when_false_def
      after_hook_when_pdo_statement_def
    by (simp, intro keeps_intros; simp)
  from leavesD_eq [OF this run] have ctx: "request_context s1 None = Some sample_ctx" by simp
  show ?thesis
    using statement_inherits_dsn [OF _ _ _ _ _ run ctx, of "sample_obj ''PDO''" ?d
        "sample_frame None None (Some ?st) []" "''SELECT 1''" "''execute''"] run
    by (auto simp: get_property_def)
qed

text \<open>
  The patched destructor forgets the object: after it ran, neither the DSN nor the saved
  destructor of the handle is left, so a later object that reuses the handle starts clean;
  other handles keep theirs, and the recursion through patched destructors ends.
\<close>

theorem dtor_forgets:
  "dsn_map (dtor h s) = (dsn_map s)(h := None) \<and> dtor_map (dtor h s) = (dtor_map s)(h := None)"
  by (simp add: map_remove_def)

text \<open>
  (C39) Which objects still get the engine's own destructor: when several objects of one class,
  and hence of one handlers table, are constructed, only the first one constructed has the
  engine's destructor run when it is destroyed; for every later one it never runs.
\<close>

theorem engine_dtor_runs_for_first_only:
  assumes tbl: "\<forall>ob \<in> set (ob0 # obs). handlers_of E ob = t"
    and dist: "distinct (map obj_handle (ob0 # obs))"
    and orig: "dtor_obj s t = Some (EngineDtor n)"
    and ob: "ob \<in> set (ob0 # obs)"
  defines "s' \<equiv> fold (\<lambda>ob. hack_dtor E ob (Some PdoDtor)) (ob0 # obs) s"
  shows "log (destroy_object E ob s') = log s @ (if ob = ob0 then [EngineDtorRun n (obj_handle ob0)] else [])"
proof -
  note patched = pdo_patch.fold_patched [OF tbl dist ob, of PdoDtor s, folded s'_def]
  have "handlers_of E ob = t" using tbl ob by auto
  then have run: "destroy_object E ob s' = dtor (obj_handle ob) s'"
    using patched(1) by (simp add: destroy_object_def)
  have "log s' = log s" by (simp add: s'_def del: fold_simps)
  then show ?thesis
    unfolding run using patched(2) orig by (auto simp: dtor_eq Let_def)
qed

theorem engine_dtor_runs_for_first_only_witness:
  "log (destroy_object sample_env (Zobj 8 ''PDO'' [])
     (fold (\<lambda>ob. hack_dtor sample_env ob (Some PdoDtor)) [Zobj 7 ''PDO'' [], Zobj 8 ''PDO'' []] sample_agent)) = []"
  using engine_dtor_runs_for_first_only [of "Zobj 7 ''PDO'' []" "[Zobj 8 ''PDO'' []]" sample_env 0 sample_agent 0
      "Zobj 8 ''PDO'' []"]
  by simp

text \<open>
  A failing call: when a hooked method returns \<^verbatim>\<open>false\<close> without an exception, the span is
  marked as failed and carries the SQLSTATE, the error code and the message of
  \<^verbatim>\<open>errorInfo()\<close>; when the code is null (a fetch past the last row) the span stays as it is.
\<close>

theorem false_result_reports_error_info:
  assumes obj: "this_obj ed = Some this" and no_exception: "pending_exception E (log s) = None"
    and open_span: "spans s i = Some sp"
    and info: "call_result E s (MethodOf (obj_handle this) ''errorInfo'') [] =
                 Ok (ZArr [(Index 0, ZStr st), (Index 1, code), (Index 2, ZStr msg)])"
    and utf8: "utf8_valid st" "utf8_valid msg"
    and code: "code = ZNull \<or> code = ZLong n"
  shows "\<exists>s'. pdo_after_hook E rid (DSpan i) ed (ZBool False) s = (Ok (), s') \<and>
     finished s' = finished s @
       [if code = ZNull then sp
        else sp\<lparr>sp_calls := sp_calls sp @
          [SetError True, AddLog [(''SQLSTATE'', st), (''Error Code'', show_i64 n), (''Error'', msg)]]\<rparr>]"
  using code
  by (auto simp: pdo_after_hook_def downcast_span_def on_exit_def no_exception
      obj get_this_mut_def after_hook_when_false_def call_method_def call_eq info andthen_def
      get_error_info_item_def arr_get_def expect_utf8_def to_str_def utf8 on_span_def upd_span_def
      open_span close_span_def)

theorem false_result_reports_error_info_witness:
  "\<exists>s'. pdo_after_hook (sample_env\<lparr>php_call := (\<lambda>l c args.
        Inr (ZArr [(Index 0, ZStr ''42000''), (Index 1, ZLong 1064), (Index 2, ZStr ''syntax'')]))\<rparr>) None (DSpan 2)
      (sample_frame None None (Some (sample_obj ''PDO'')) []) (ZBool False) sample_in_flight = (Ok (), s') \<and>
     length (finished s') = 1"
proof -
  let ?a = "[(Index 0, ZStr ''42000''), (Index 1, ZLong 1064), (Index 2, ZStr ''syntax'')]"
  let ?E = "sample_env\<lparr>php_call := (\<lambda>l c args. Inr (ZArr ?a))\<rparr>"
  have info: "call_result ?E sample_in_flight (MethodOf (obj_handle (sample_obj ''PDO'')) ''errorInfo'') [] = Ok (ZArr ?a)"
    by (simp add: call_result_def)
  show ?thesis
    using false_result_reports_error_info [of "sample_frame None None (Some (sample_obj ''PDO'')) []",
        OF _ _ _ info, of 2 sample_exit 1064 None]
    by fastforce
qed

end
