(* ===== verification/Mysqli.thy ===== *)
theory Mysqli
  imports Samples
begin

text \<open>
  \<^verbatim>\<open>src/src/plugin/plugin_mysqli.rs\<close>: the hooks of the class \<^verbatim>\<open>mysqli\<close> and of the procedural
  functions \<^verbatim>\<open>mysqli_*\<close>.  The peer comes from the parameters before a connection is made, and
  from \<^verbatim>\<open>mysqli_get_host_info\<close> afterwards.
\<close>

section \<open>The peer\<close>

definition get_peer_by_parameters :: "api_style \<Rightarrow> exec_data \<Rightarrow> bytes" where
  "get_peer_by_parameters st ed =
     (let host = (case style_validate_num_args st ed 1 of
                    Ok _ \<Rightarrow> (case Option.bind (as_z_str (style_parameter st ed 0)) to_str of
                               Some h \<Rightarrow> h | None \<Rightarrow> [])
                  | _ \<Rightarrow> [])
      in if host = [] then []
         else
           (let p = style_parameter st ed 4;
                port = (case as_z_str p of Some t \<Rightarrow> to_str t
                        | None \<Rightarrow> map_option show_i64 (as_long p))
            in host @ '':'' @ (case port of Some t \<Rightarrow> t | None \<Rightarrow> ''3306'')))"

definition host_info_peer :: "bytes \<Rightarrow> bytes" where
  "host_info_peer info =
     (let h = hd (split (CHR '' '') info) in if CHR '':'' \<in> set h then h else h @ '':3306'')"

definition get_peer_by_this :: "env \<Rightarrow> zobj \<Rightarrow> bytes option agent_act" where
  "get_peer_by_this E this =
     andthen (attempt (call E (GlobalFn ''mysqli_get_host_info'') [ZObj this])) (\<lambda>r.
       case r of
         Ok info \<Rightarrow> ret (map_option host_info_peer (Option.bind (as_z_str info) to_str))
       | Err e \<Rightarrow> ret None
       | Panic p \<Rightarrow> panic p)"

section \<open>Hooks\<close>

definition mysqli_span ::
  "i64 option \<Rightarrow> bytes option \<Rightarrow> bytes \<Rightarrow> bytes \<Rightarrow> api_style \<Rightarrow> exec_data \<Rightarrow> (nat \<Rightarrow> unit agent_act) \<Rightarrow>
   (hook_data \<times> exec_data) agent_act" where
  "mysqli_span rid class_name function_name pr st ed k =
     with_exit_span rid (generate_operation_name st class_name function_name) pr ed (\<lambda>i.
       andthen (on_span i [SetLayer LayerDatabase, SetComponent COMPONENT_PHP_MYSQLI_ID,
                           AddTag ''db.type'' ''mysql'']) (\<lambda>_. k i))"

definition mysqli_connect_before :: "bytes option \<Rightarrow> bytes \<Rightarrow> api_style \<Rightarrow> before_hook" where
  "mysqli_connect_before class_name function_name st rid ed =
     mysqli_span rid class_name function_name (get_peer_by_parameters st ed) st ed (\<lambda>_. ret ())"

definition reset_peer :: "env \<Rightarrow> nat \<Rightarrow> zobj \<Rightarrow> unit agent_act" where
  "reset_peer E i this =
     andthen (get_peer_by_this E this) (\<lambda>p.
       case p of Some p \<Rightarrow> on_span i [SetPeer p] | None \<Rightarrow> ret ())"

definition mysqli_connect_after :: "env \<Rightarrow> api_style \<Rightarrow> after_hook" where
  "mysqli_connect_after E st rid d ed rv =
     downcast_span d (\<lambda>i.
     andthen (mark_false i rv) (\<lambda>_.
     andthen (case as_z_obj rv of
                Some this \<Rightarrow> reset_peer E i this
              | None \<Rightarrow> (case style_this_mut st ed of
                           Ok this \<Rightarrow> reset_peer E i this
                         | Err e \<Rightarrow> ret ()
                         | Panic p \<Rightarrow> panic p)) (\<lambda>_.
     andthen (log_exception E i) (\<lambda>_. ret ()))))"

definition mysqli_methods_before :: "env \<Rightarrow> bytes option \<Rightarrow> bytes \<Rightarrow> api_style \<Rightarrow> before_hook" where
  "mysqli_methods_before E class_name function_name st rid ed =
     andthen (lift (style_this_mut st ed)) (\<lambda>this.
     andthen (get_peer_by_this E this) (\<lambda>p.
     mysqli_span rid class_name function_name (case p of Some p \<Rightarrow> p | None \<Rightarrow> []) st ed (\<lambda>i.
       if 1 \<le> num_args ed then
         (case as_z_str (get_parameter ed 0) of
            None \<Rightarrow> ret ()
          | Some t \<Rightarrow> andthen (lift (expect_utf8 t)) (\<lambda>t. on_span i [AddTag ''db.statement'' t]))
       else ret ())))"

definition mysqli_methods_after :: "env \<Rightarrow> after_hook" where
  "mysqli_methods_after E rid d ed rv =
     downcast_span d (\<lambda>i. andthen (mark_false i rv) (\<lambda>_. andthen (log_exception E i) (\<lambda>_. ret ())))"

definition mysqli_class_names :: "bytes list option" where [simp]:
  "mysqli_class_names = Some [''mysqli'']"

definition mysqli_function_name_prefix :: "bytes option" where [simp]:
  "mysqli_function_name_prefix = Some ''mysqli_''"

definition mysqli_hook :: "bytes option \<Rightarrow> bytes \<Rightarrow> hook_id option" where
  "mysqli_hook class_name f =
     (if class_name = Some ''mysqli'' \<and> f \<in> {''__construct'', ''real_connect''} then
        Some (HMysqliConnect class_name f ObjectOriented)
      else if class_name = None \<and> f \<in> {''mysqli_connect'', ''mysqli_real_connect''} then
        Some (HMysqliConnect class_name f Procedural)
      else if class_name = Some ''mysqli'' \<and>
           f \<in> {''query'', ''execute_query'', ''multi_query'', ''real_query'', ''prepare''} then
        Some (HMysqliMethods class_name f ObjectOriented)
      else if class_name = None \<and>
           f \<in> {''mysqli_query'', ''mysqli_execute_query'', ''mysqli_multi_query'',
                ''mysqli_real_query'', ''mysqli_prepare''} then
        Some (HMysqliMethods class_name f Procedural)
      else None)"

section \<open>Spans of the hooks\<close>

lemma quiet_get_peer_by_this [intro, simp]: "quiet (get_peer_by_this E this)"
  unfolding get_peer_by_this_def by (intro quiet_intros)

lemma quiet_reset_peer [intro, simp]: "quiet (reset_peer E i this)"
  unfolding reset_peer_def by (intro quiet_intros quiet_get_peer_by_this)

lemma mysqli_span_spec [intro]: "(\<And>i. quiet (k i)) \<Longrightarrow> before_spec (mysqli_span rid cn fn pr st ed k)"
  unfolding mysqli_span_def by (intro with_exit_span_spec quiet_intros)

interpretation mysqli_connect: span_hook "mysqli_connect_before cn fn st" "mysqli_connect_after E st" for cn fn st E
proof
  show "before_spec (mysqli_connect_before cn fn st rid ed)" for rid ed
    unfolding mysqli_connect_before_def by (intro mysqli_span_spec quiet_intros)
  show "after_spec d (mysqli_connect_after E st rid d ed rv)" for d rid ed rv
    unfolding mysqli_connect_after_def
    by (intro downcast_span_spec quiet_intros quiet_mark_false quiet_reset_peer quiet_log_exception)
qed

interpretation mysqli_methods: span_hook "mysqli_methods_before E cn fn st" "mysqli_methods_after E" for E cn fn st
proof
  show "before_spec (mysqli_methods_before E cn fn st rid ed)" for rid ed
    unfolding mysqli_methods_before_def
    by (intro before_spec_andthen mysqli_span_spec quiet_intros quiet_get_peer_by_this)
  show "after_spec d (mysqli_methods_after E rid d ed rv)" for d rid ed rv
    unfolding mysqli_methods_after_def
    by (intro downcast_span_spec quiet_intros quiet_mark_false quiet_log_exception)
qed

section \<open>Properties\<close>

lemma get_peer_by_this_eq:
  "get_peer_by_this E this s =
     (Ok (case call_result E s (GlobalFn ''mysqli_get_host_info'') [ZObj this] of
            Ok info \<Rightarrow> map_option host_info_peer (Option.bind (as_z_str info) to_str)
          | _ \<Rightarrow> None),
      emit (PhpCall (GlobalFn ''mysqli_get_host_info'') [ZObj this]) s)"
  by (simp add: get_peer_by_this_def call_eq split: outcome.split)

text \<open>
  (C30) A query on a connection: the exit span goes to the host that
  \<^verbatim>\<open>mysqli_get_host_info\<close> names, with the port 3306 unless it names one.  In the
  object-oriented style the query text becomes the tag \<^verbatim>\<open>db.statement\<close>; in the procedural
  style, where parameter 0 is the connection, the span never gets that tag.
\<close>

theorem mysqli_query_span:
  assumes ctx: "request_context s rid = Some c"
    and conn: "style_this_mut st ed = Ok this"
    and host: "call_result E s (GlobalFn ''mysqli_get_host_info'') [ZObj this] = Ok (ZStr info)" "utf8_valid info"
    and query: "st = ObjectOriented \<longrightarrow> 1 \<le> num_args ed \<and> get_parameter ed 0 = ZStr q \<and> utf8_valid q"
  shows "\<exists>i s'. mysqli_methods_before E cn fn st rid ed s = (Ok (DSpan i, ed), s') \<and>
     (\<exists>sp. spans s' i = Some sp \<and> sp_kind sp = ExitSpan (host_info_peer info) \<and>
       sp_operation sp = generate_operation_name st cn fn \<and>
       span_tags sp = (''db.type'', ''mysql'') # (if st = ObjectOriented then [(''db.statement'', q)] else []))"
proof -
  define s1 where "s1 = emit (PhpCall (GlobalFn ''mysqli_get_host_info'') [ZObj this]) s"
  have ctx1: "request_context s1 rid = Some c" using ctx by (simp add: s1_def)
  have peer: "get_peer_by_this E this s = (Ok (Some (host_info_peer info)), s1)"
    using host by (simp add: get_peer_by_this_eq s1_def to_str_def)
  show ?thesis
  proof (cases st)
    case ObjectOriented
    with query conn show ?thesis
      by (simp add: mysqli_methods_before_def mysqli_span_def
          andthen_eqs(1) [where m = "get_peer_by_this E this", OF peer] with_exit_span_eq [OF ctx1]
          spans_upd_span span_tags_def List.map_filter_def)
  next
    case Procedural
    with conn obtain ob where "get_parameter ed 0 = ZObj ob" by auto
    with Procedural conn show ?thesis
      by (simp add: mysqli_methods_before_def mysqli_span_def
          andthen_eqs(1) [where m = "get_peer_by_this E this", OF peer] with_exit_span_eq [OF ctx1]
          spans_upd_span span_tags_def List.map_filter_def)
  qed
qed

theorem mysqli_query_span_witness:
  "\<exists>i s'. mysqli_methods_before
      (sample_env\<lparr>php_call := (\<lambda>l c args. Inr (ZStr ''db.local via TCP/IP''))\<rparr>) None ''mysqli_query'' Procedural None
      (sample_frame None (Some ''mysqli_query'') None [ZObj (sample_obj ''mysqli''), ZStr ''SELECT 1'']) sample_agent =
      (Ok (DSpan i, sample_frame None (Some ''mysqli_query'') None [ZObj (sample_obj ''mysqli''), ZStr ''SELECT 1'']), s') \<and>
     (\<exists>sp. spans s' i = Some sp \<and> sp_kind sp = ExitSpan ''db.local:3306'' \<and> span_tags sp = [(''db.type'', ''mysql'')])"
  using mysqli_query_span [of sample_agent None sample_ctx Procedural
      "sample_frame None (Some ''mysqli_query'') None [ZObj (sample_obj ''mysqli''), ZStr ''SELECT 1'']"
      "sample_obj ''mysqli''" "sample_env\<lparr>php_call := (\<lambda>l c args. Inr (ZStr ''db.local via TCP/IP''))\<rparr>"
      "''db.local via TCP/IP''" "[]" None "''mysqli_query''"]
  by (fastforce simp: call_result_def host_info_peer_def)

text \<open>
  The peer before a connection: the object-oriented calls take the host from the first
  argument and the port from the fifth (3306 if it is neither a number nor a string).  The
  procedural \<^verbatim>\<open>mysqli_connect(host, user, ...)\<close>, which has no connection as its first argument,
  is read with the same shift as the functions that do: its user name is taken for the host.
\<close>

theorem connect_peer_from_parameters:
  assumes args: "2 \<le> num_args ed" "get_parameter ed 0 = ZStr host" "get_parameter ed 1 = ZStr user"
    and strings: "utf8_valid host" "utf8_valid user" "host \<noteq> []" "user \<noteq> []"
    and port: "get_parameter ed 4 = ZLong n" "get_parameter ed 5 = ZNull"
  shows "get_peer_by_parameters ObjectOriented ed = host @ '':'' @ show_i64 n \<and>
         get_peer_by_parameters Procedural ed = user @ '':3306''"
  using args strings port
  by (simp add: get_peer_by_parameters_def style_validate_num_args_def style_parameter_def style_index_def to_str_def)

theorem connect_peer_from_parameters_witness:
  "get_peer_by_parameters Procedural (sample_frame None (Some ''mysqli_connect'') None
     [ZStr ''db.local'', ZStr ''root'', ZStr ''secret'', ZStr ''shop'', ZLong 3307]) = ''root:3306''"
  using connect_peer_from_parameters [of "sample_frame None (Some ''mysqli_connect'') None
     [ZStr ''db.local'', ZStr ''root'', ZStr ''secret'', ZStr ''shop'', ZLong 3307]" "''db.local''" "''root''" 3307]
  by simp

end
