(* ===== verification/Swoole.thy ===== *)
theory Swoole
  imports Samples
begin

text \<open>
  \<^verbatim>\<open>src/src/plugin/plugin_swoole.rs\<close>: the hooks that replace the program's request callback by
  the agent's own function, and the hook that remembers the status of a response per
  connection descriptor.
\<close>

definition HACK_SWOOLE_ON_REQUEST_FUNCTION_NAME :: bytes where
  "HACK_SWOOLE_ON_REQUEST_FUNCTION_NAME = ''skywalking_hack_swoole_on_request_please_do_not_use''"

definition store_on_request :: "zval \<Rightarrow> agent \<Rightarrow> agent" where
  "store_on_request ori s = s\<lparr>ori_on_request := Some ori, is_swoole := True\<rparr>"

definition hack_callback :: "exec_data \<Rightarrow> exec_data agent_act" where
  "hack_callback ed =
     andthen (modify (store_on_request (get_parameter ed 1))) (\<lambda>_.
     ret (set_parameter ed 1 (ZStr HACK_SWOOLE_ON_REQUEST_FUNCTION_NAME)))"

definition swoole_on_before :: before_hook where
  "swoole_on_before rid ed =
     andthen (lift (validate_num_args ed 2)) (\<lambda>_.
     if (case Option.bind (as_z_str (get_parameter ed 0)) to_str of
           Some t \<Rightarrow> to_lowercase t = ''request'' | None \<Rightarrow> False)
     then andthen (hack_callback ed) (\<lambda>ed'. ret (DUnit, ed'))
     else ret (DUnit, ed))"

definition swoole_handle_before :: before_hook where
  "swoole_handle_before rid ed =
     andthen (lift (validate_num_args ed 2)) (\<lambda>_.
     andthen (hack_callback ed) (\<lambda>ed'. ret (DUnit, ed')))"

definition status_of :: "zval \<Rightarrow> i32" where
  "status_of v =
     (case as_long v of Some n \<Rightarrow> ucast n
      | None \<Rightarrow> (case Option.bind (Option.bind (as_z_str v) to_str) parse_i32 of
           Some n \<Rightarrow> n | None \<Rightarrow> 0))"

definition put_status :: "i64 \<Rightarrow> i32 \<Rightarrow> agent \<Rightarrow> agent" where
  "put_status fd st s = s\<lparr>swoole_status := (swoole_status s)(fd \<mapsto> st)\<rparr>"

definition swoole_status_before :: before_hook where
  "swoole_status_before rid ed =
     andthen (lift (validate_num_args ed 1)) (\<lambda>_.
     andthen (lift (get_this_mut ed)) (\<lambda>this.
     andthen (lift (expect ''long'' (as_long (get_property this ''fd'')))) (\<lambda>fd.
     andthen (modify (put_status fd (status_of (get_parameter ed 0)))) (\<lambda>_.
     ret (DUnit, ed)))))"

definition swoole_server_class_names :: "bytes list option" where [simp]:
  "swoole_server_class_names = Some [class_path [''Swoole'', ''Server''], class_path [''Swoole'', ''Http'', ''Server''],
       class_path [''Swoole'', ''Coroutine'', ''Http'', ''Server'']]"

definition swoole_server_function_name_prefix :: "bytes option" where [simp]:
  "swoole_server_function_name_prefix = None"

definition swoole_server_hook :: "bytes option \<Rightarrow> bytes \<Rightarrow> hook_id option" where
  "swoole_server_hook class_name f =
     (if class_name \<in> {Some (class_path [''Swoole'', ''Server'']), Some (class_path [''Swoole'', ''Http'', ''Server''])} \<and> f = ''on'' then Some HSwooleOn
      else if class_name = Some (class_path [''Swoole'', ''Coroutine'', ''Http'', ''Server'']) \<and> f = ''handle'' then Some HSwooleHandle
      else None)"

definition swoole_response_class_names :: "bytes list option" where [simp]:
  "swoole_response_class_names = Some [class_path [''Swoole'', ''Http'', ''Response'']]"

definition swoole_response_function_name_prefix :: "bytes option" where [simp]:
  "swoole_response_function_name_prefix = None"

definition swoole_response_hook :: "bytes option \<Rightarrow> bytes \<Rightarrow> hook_id option" where
  "swoole_response_hook class_name f = (if f = ''status'' then Some HSwooleStatus else None)"

section \<open>Contract\<close>

lemma swoole_sel [simp]:
  "span_view (store_on_request v s) = span_view s" "span_view (put_status fd st s) = span_view s"
  "swoole_status (put_status fd st s) = (swoole_status s)(fd \<mapsto> st)"
  "ori_on_request (store_on_request v s) = Some v" "is_swoole (store_on_request v s) = True"
  "request_context (put_status fd st s) = request_context s" "spans (put_status fd st s) = spans s"
  by (simp_all add: store_on_request_def put_status_def)

lemma quiet_hack_callback [intro, simp]: "quiet (hack_callback ed)"
  unfolding hack_callback_def by (intro quiet_intros) simp

interpretation swoole_on: silent_hook swoole_on_before
proof
  show "quiet (swoole_on_before rid ed)" for rid ed
    unfolding swoole_on_before_def by (intro quiet_intros quiet_hack_callback)
  show "holds_none (swoole_on_before rid ed)" for rid ed
    unfolding swoole_on_before_def by (intro holds_none_intros) simp_all
qed

interpretation swoole_handle: silent_hook swoole_handle_before
proof
  show "quiet (swoole_handle_before rid ed)" for rid ed
    unfolding swoole_handle_before_def by (intro quiet_intros quiet_hack_callback)
  show "holds_none (swoole_handle_before rid ed)" for rid ed
    unfolding swoole_handle_before_def by (intro holds_none_intros) simp_all
qed

interpretation swoole_status: silent_hook swoole_status_before
proof
  show "quiet (swoole_status_before rid ed)" for rid ed
    unfolding swoole_status_before_def by (intro quiet_intros) simp
  show "holds_none (swoole_status_before rid ed)" for rid ed
    unfolding swoole_status_before_def by (intro holds_none_intros) simp_all
qed

text \<open>A status given as a string means the same as the number it shows.\<close>

lemma status_of_string: "status_of (ZStr (show_i32 n)) = n"
proof -
  have "utf8_valid (show_i32 n)" by (simp add: show_i32_def)
  then show ?thesis by (simp add: status_of_def parse_show_i32 to_str_def)
qed

lemma swoole_status_eq:
  assumes "1 \<le> num_args ed" "this_obj ed = Some resp" "get_property resp ''fd'' = ZLong fd"
  shows "swoole_status_before rid ed s = (Ok (DUnit, ed), put_status fd (status_of (get_parameter ed 0)) s)"
  using assms by (simp add: swoole_status_before_def)

end
