(* ===== verification/Predis.thy ===== *)
theory Predis
  imports Samples
begin

text \<open>
  \<^verbatim>\<open>src/src/plugin/plugin_predis.rs\<close>: the command sets, the peer asked from the client's
  connection object and the hooks of \<^verbatim>\<open>Predis\Client::__call\<close>.
\<close>

section \<open>Commands\<close>

definition REDIS_READ_COMMANDS :: "bytes list" where
  "REDIS_READ_COMMANDS =
     [''BLPOP'', ''BRPOP'', ''GET'', ''GETBIT'', ''GETRANGE'', ''HEXISTS'', ''HGET'', 
      ''HGETALL'', ''HKEYS'', ''HLEN'', ''HMGET'', ''HSCAN'', ''HSTRLEN'', ''HVALS'', 
      ''KEYS'', ''LGET'', ''LGETRANGE'', ''LLEN'', ''LRANGE'', ''LSIZE'', ''MGET'', 
      ''SCONTAINS'', ''SGETMEMBERS'', ''SISMEMBER'', ''SMEMBERS'', ''SSCAN'', 
      ''SSIZE'', ''STRLEN'', ''ZCOUNT'', ''ZRANGE'', ''ZRANGEBYLEX'', 
      ''ZRANGEBYSCORE'', ''ZSCAN'', ''ZSIZE'']"

definition REDIS_WRITE_COMMANDS :: "bytes list" where
  "REDIS_WRITE_COMMANDS =
     [''APPEND'', ''BRPOPLPUSH'', ''DECR'', ''DECRBY'', ''DEL'', ''DELETE'', ''HDEL'', 
      ''HINCRBY'', ''HINCRBYFLOAT'', ''HMSET'', ''HSET'', ''HSETNX'', ''INCR'', 
      ''INCRBY'', ''INCRBYFLOAT'', ''LINSERT'', ''LPUSH'', ''LPUSHX'', ''LREM'', 
      ''LREMOVE'', ''LSET'', ''LTRIM'', ''LISTTRIM'', ''MSET'', ''MSETNX'', ''PSETEX'', 
      ''RPOPLPUSH'', ''RPUSH'', ''RPUSHX'', ''RANDOMKEY'', ''SADD'', ''SINTER'', 
      ''SINTERSTORE'', ''SMOVE'', ''SRANDMEMBER'', ''SREM'', ''SREMOVE'', ''SET'', 
      ''SETBIT'', ''SETEX'', ''SETNX'', ''SETRANGE'', ''SETTIMEOUT'', ''SORT'', 
      ''UNLINK'', ''ZADD'', ''ZDELETE'', ''ZDELETERANGEBYRANK'', 
      ''ZDELETERANGEBYSCORE'', ''ZINCRBY'', ''ZREM'', ''ZREMRANGEBYRANK'', 
      ''ZREMRANGEBYSCORE'', ''ZREMOVE'', ''ZREMOVERANGEBYSCORE'']"

definition REDIS_OTHER_COMMANDS :: "bytes list" where
  "REDIS_OTHER_COMMANDS = [''AUTH'']"

definition REDIS_ALL_COMMANDS :: "bytes list" where
  "REDIS_ALL_COMMANDS = REDIS_READ_COMMANDS @ REDIS_WRITE_COMMANDS @ REDIS_OTHER_COMMANDS"

definition predis_op :: "bytes \<Rightarrow> bytes option" where
  "predis_op cmd =
     (if cmd \<in> set REDIS_READ_COMMANDS then Some ''read''
      else if cmd \<in> set REDIS_WRITE_COMMANDS then Some ''write'' else None)"

definition CLIENT_CLASS :: bytes where
  "CLIENT_CLASS = class_path [''Predis'', ''Client'']"

definition predis_class_names :: "bytes list option" where [simp]:
  "predis_class_names = Some [CLIENT_CLASS]"

definition predis_function_name_prefix :: "bytes option" where [simp]:
  "predis_function_name_prefix = None"

definition predis_hook :: "bytes option \<Rightarrow> bytes \<Rightarrow> hook_id option" where
  "predis_hook class_name function_name =
     (if class_name = Some CLIENT_CLASS \<and> function_name = ''__call'' then Some (HPredisExecuteCommand CLIENT_CLASS)
      else None)"

section \<open>The peer\<close>

datatype connection_type = AbstractConnection | Unknown

definition infer_connection_type :: "env \<Rightarrow> zval \<Rightarrow> connection_type agent_act" where
  "infer_connection_type E connection =
     andthen (call E (GlobalFn ''is_a'')
       [connection, ZStr (class_path [''Predis'', ''Connection'', ''AbstractConnection''])]) (\<lambda>r.
     ret (if as_bool r = Some True then AbstractConnection else Unknown))"

definition predis_port :: "zval \<Rightarrow> bytes" where
  "predis_port v =
     (case as_long v of Some n \<Rightarrow> show_i64 n
      | None \<Rightarrow> (case as_z_str v of
           Some t \<Rightarrow> (case to_str t of Some t \<Rightarrow> t | None \<Rightarrow> ''0'')
         | None \<Rightarrow> ''0''))"

definition predis_get_peer :: "env \<Rightarrow> zval \<Rightarrow> bytes agent_act" where
  "predis_get_peer E connection =
     andthen (infer_connection_type E connection) (\<lambda>ty.
     case ty of
       AbstractConnection \<Rightarrow>
         andthen (lift (expect ''object'' (as_z_obj connection))) (\<lambda>conn.
         andthen (call_method E conn ''getParameters'' []) (\<lambda>ps.
         andthen (lift (expect ''object'' (as_z_obj ps))) (\<lambda>ps.
         andthen (call_method E ps ''__get'' [ZStr ''host'']) (\<lambda>h.
         andthen (lift (expect ''string'' (as_z_str h))) (\<lambda>raw.
         andthen (lift (expect_utf8 raw)) (\<lambda>host.
         andthen (call_method E ps ''__get'' [ZStr ''port'']) (\<lambda>p.
         ret (host @ '':'' @ predis_port p))))))))
     | Unknown \<Rightarrow> ret ''unknown:0'')"

section \<open>Hooks\<close>

definition predis_calls :: "bytes \<Rightarrow> bytes option \<Rightarrow> bytes option \<Rightarrow> span_call list" where
  "predis_calls cmd op key =
     [SetLayer LayerCache, SetComponent COMPONENT_PHP_PREDIS_ID, AddTag TAG_CACHE_TYPE ''redis'',
      AddTag TAG_CACHE_CMD cmd] @
     (case op of Some op \<Rightarrow> [AddTag TAG_CACHE_OP op] | None \<Rightarrow> []) @
     (case key of Some k \<Rightarrow> [AddTag TAG_CACHE_KEY k] | None \<Rightarrow> [])"

definition predis_before :: "env \<Rightarrow> bytes \<Rightarrow> before_hook" where
  "predis_before E class_name rid ed =
     andthen (lift (validate_num_args ed 1)) (\<lambda>_.
     let function_name = (case z_val_to_string (get_parameter ed 0) of Some t \<Rightarrow> t | None \<Rightarrow> []);
         cmd = to_uppercase function_name
     in if cmd \<notin> set REDIS_ALL_COMMANDS then ret (DUnit, ed)
        else
          andthen (lift (get_this_mut ed)) (\<lambda>this.
          andthen (call_method E this ''getConnection'' []) (\<lambda>connection.
          andthen (predis_get_peer E connection) (\<lambda>pr.
          let op = predis_op cmd;
              key = Option.bind op (\<lambda>_. Option.bind (as_z_arr (get_parameter ed 1)) (\<lambda>ps.
                      Option.bind (arr_get ps (Index 0)) z_val_to_string))
          in with_exit_span rid (class_name @ ''->'' @ function_name) pr ed
               (\<lambda>i. on_span i (predis_calls cmd op key))))))"

definition predis_after :: "env \<Rightarrow> after_hook" where
  "predis_after E rid d ed rv =
     (if d = DUnit then ret ()
      else downcast_span d (\<lambda>i.
        andthen (reads (\<lambda>s. pending_exception E (log s))) (\<lambda>ex.
        andthen (if ex \<noteq> None \<or> as_bool rv = Some False then on_span i [SetError True] else ret ()) (\<lambda>_.
        andthen (log_exception E i) (\<lambda>_. ret ())))))"

section \<open>Contract\<close>

lemma quiet_infer_connection [intro, simp]: "quiet (infer_connection_type E v)"
  unfolding infer_connection_type_def by (intro quiet_intros)

lemma quiet_predis_get_peer [intro, simp]: "quiet (predis_get_peer E v)"
proof -
  have c: "quiet (case ty of AbstractConnection \<Rightarrow> m | Unknown \<Rightarrow> n)" if "quiet m" "quiet n" for ty and m n :: "bytes agent_act"
    using that by (cases ty) auto
  show ?thesis unfolding predis_get_peer_def by (intro quiet_intros quiet_infer_connection c)
qed

interpretation predis: span_hook "predis_before E cn" "predis_after E" for E cn
proof
  show "before_spec (predis_before E cn rid ed)" for rid ed
    unfolding predis_before_def Let_def
    by (intro before_spec_andthen before_spec_if before_spec_ret with_exit_span_spec
        quiet_intros quiet_predis_get_peer) simp
  show "after_spec d (predis_after E rid d ed rv)" for d rid ed rv
    unfolding predis_after_def
    by (intro after_spec_if after_spec_quiet downcast_span_spec quiet_intros quiet_log_exception) simp
qed

section \<open>Properties\<close>

text \<open>
  No command is both a reading and a writing one, and a traced command has an operation
  tag unless it is \<^verbatim>\<open>AUTH\<close>: the tag tells reads from writes for every command of the set.
\<close>

theorem predis_op_classifies:
  "(predis_op cmd = Some ''read'') = (cmd \<in> set REDIS_READ_COMMANDS) \<and>
   (predis_op cmd = Some ''write'') = (cmd \<in> set REDIS_WRITE_COMMANDS) \<and>
   (cmd \<in> set REDIS_ALL_COMMANDS) = (predis_op cmd \<noteq> None \<or> cmd = ''AUTH'')"
proof -
  have disj: "\<forall>c \<in> set REDIS_READ_COMMANDS. c \<notin> set REDIS_WRITE_COMMANDS"
    by (simp add: REDIS_READ_COMMANDS_def REDIS_WRITE_COMMANDS_def)
  show ?thesis
    using disj by (auto simp: predis_op_def REDIS_ALL_COMMANDS_def REDIS_OTHER_COMMANDS_def)
qed



end
