(* ===== verification/Memcached.thy ===== *)
theory Memcached
  imports Samples
begin

text \<open>
  \<^verbatim>\<open>src/src/plugin/plugin_memcached.rs\<close>: the three tables of methods (no key, key first, server
  key first), the span of a cache operation, the peer that \<^verbatim>\<open>getServerByKey\<close> names, and the
  hooks.
\<close>

section \<open>Method tables\<close>

record tag_info =
  ti_cmd :: "bytes option"
  ti_op :: "cache_op option"

definition tag_info_new :: "bytes option \<Rightarrow> cache_op option \<Rightarrow> tag_info" where
  "tag_info_new cmd op = \<lparr>ti_cmd = cmd, ti_op = op\<rparr>"

definition MEMCACHED_EMPTY_METHOD_MAPPING :: "(bytes \<times> tag_info) list" where
  "MEMCACHED_EMPTY_METHOD_MAPPING =
     [(''getallkeys'', tag_info_new None None),
      (''getstats'', tag_info_new (Some ''stats'') None),
      (''flush'', tag_info_new None None),
      (''getversion'', tag_info_new (Some ''version'') None)]"

definition MEMCACHED_KEY_METHOD_MAPPING :: "(bytes \<times> tag_info) list" where
  "MEMCACHED_KEY_METHOD_MAPPING =
     [(''set'', tag_info_new (Some ''set'') (Some Write)),
      (''setmulti'', tag_info_new (Some ''set'') (Some Write)),
      (''add'', tag_info_new (Some ''add'') (Some Write)),
      (''replace'', tag_info_new (Some ''replace'') (Some Write)),
      (''append'', tag_info_new (Some ''append'') (Some Write)),
      (''prepend'', tag_info_new (Some ''prepend'') (Some Write)),
      (''get'', tag_info_new (Some ''get'') (Some Read)),
      (''getmulti'', tag_info_new (Some ''get'') (Some Read)),
      (''delete'', tag_info_new (Some ''delete'') (Some Write)),
      (''deletemulti'', tag_info_new (Some ''deleteMulti'') (Some Write)),
      (''increment'', tag_info_new (Some ''increment'') (Some Write)),
      (''decrement'', tag_info_new (Some ''decrement'') (Some Write))]"

definition MEMCACHED_SERVER_KEY_METHOD_MAPPING :: "(bytes \<times> tag_info) list" where
  "MEMCACHED_SERVER_KEY_METHOD_MAPPING =
     [(''setByKey'', tag_info_new (Some ''set'') (Some Write)),
      (''setMultiByKey'', tag_info_new (Some ''set'') (Some Write)),
      (''addByKey'', tag_info_new (Some ''add'') (Some Write)),
      (''replaceByKey'', tag_info_new (Some ''replace'') (Some Write)),
      (''appendByKey'', tag_info_new (Some ''append'') (Some Write)),
      (''prependByKey'', tag_info_new (Some ''prepend'') (Some Write)),
      (''getByKey'', tag_info_new (Some ''get'') (Some Read)),
      (''getMultiByKey'', tag_info_new (Some ''get'') (Some Read)),
      (''deleteByKey'', tag_info_new (Some ''delete'') (Some Write)),
      (''deleteMultiByKey'', tag_info_new (Some ''deleteMulti'') (Some Write)),
      (''incrementByKey'', tag_info_new (Some ''increment'') (Some Write)),
      (''decrementByKey'', tag_info_new (Some ''decrement'') (Some Write))]"

definition has_method :: "(bytes \<times> tag_info) list \<Rightarrow> bytes \<Rightarrow> bool" where
  "has_method tbl f \<longleftrightarrow> map_of tbl f \<noteq> None"

definition memcached_class_names :: "bytes list option" where [simp]:
  "memcached_class_names = Some [''Memcached'']"

definition memcached_function_name_prefix :: "bytes option" where [simp]:
  "memcached_function_name_prefix = None"

definition memcached_hook :: "bytes option \<Rightarrow> bytes \<Rightarrow> hook_id option" where
  "memcached_hook class_name f =
     (if class_name = Some ''Memcached'' then
        (if has_method MEMCACHED_EMPTY_METHOD_MAPPING (to_ascii_lowercase f) then
           Some (HMemcachedEmpty ''Memcached'' f)
         else if has_method MEMCACHED_KEY_METHOD_MAPPING (to_ascii_lowercase f) then
           Some (HMemcachedKey ''Memcached'' f)
         else if has_method MEMCACHED_SERVER_KEY_METHOD_MAPPING (to_ascii_lowercase f) then
           Some (HMemcachedServerKey ''Memcached'' f)
         else None)
      else None)"

section \<open>Spans and peers\<close>

text \<open>The tags of a cache operation; the memcache plugin sets the same ones.\<close>

definition cache_calls :: "tag_info \<Rightarrow> bytes option \<Rightarrow> span_call list" where
  "cache_calls ti key =
     [SetLayer LayerCache, SetComponent COMPONENT_PHP_MEMCACHED_ID, AddTag TAG_CACHE_TYPE ''memcache''] @
     (case ti_cmd ti of Some cmd \<Rightarrow> [AddTag TAG_CACHE_CMD cmd] | None \<Rightarrow> []) @
     (case ti_op ti of Some op \<Rightarrow> [AddTag TAG_CACHE_OP (cache_op_display op)] | None \<Rightarrow> []) @
     (case key of Some k \<Rightarrow> [AddTag TAG_CACHE_KEY k] | None \<Rightarrow> [])"

definition memcached_span ::
  "i64 option \<Rightarrow> bytes \<Rightarrow> bytes \<Rightarrow> bytes \<Rightarrow> tag_info \<Rightarrow> bytes option \<Rightarrow> exec_data \<Rightarrow>
   (hook_data \<times> exec_data) agent_act" where
  "memcached_span rid class_name function_name remote_peer ti key ed =
     with_exit_span rid (class_name @ ''->'' @ function_name) remote_peer ed
       (\<lambda>i. on_span i (cache_calls ti key))"

definition server_address :: "zval \<Rightarrow> bytes outcome" where
  "server_address info =
     (case with_context ''Server isn't array'' (as_z_arr info) of
        Ok arr \<Rightarrow>
          (case with_context ''Server host not exists'' (arr_get arr (Key ''host'')) of
             Ok h \<Rightarrow>
               (case with_context ''Server host isn't string'' (as_z_str h) of
                  Ok raw \<Rightarrow>
                    (case expect_utf8 raw of
                       Ok host \<Rightarrow>
                         (case with_context ''Server port not exists'' (arr_get arr (Key ''port'')) of
                            Ok p \<Rightarrow>
                              (case with_context ''Server port isn't long'' (as_long p) of
                                 Ok port \<Rightarrow> Ok (host @ '':'' @ show_i64 port)
                               | Err e \<Rightarrow> Err e | Panic q \<Rightarrow> Panic q)
                          | Err e \<Rightarrow> Err e | Panic q \<Rightarrow> Panic q)
                     | Err e \<Rightarrow> Err e | Panic q \<Rightarrow> Panic q)
                | Err e \<Rightarrow> Err e | Panic q \<Rightarrow> Panic q)
           | Err e \<Rightarrow> Err e | Panic q \<Rightarrow> Panic q)
      | Err e \<Rightarrow> Err e | Panic q \<Rightarrow> Panic q)"

definition memcached_get_peer :: "env \<Rightarrow> zobj \<Rightarrow> zval \<Rightarrow> bytes agent_act" where
  "memcached_get_peer E this key =
     andthen (attempt (andthen (call_method E this ''getserverbykey'' [key]) (\<lambda>info. lift (server_address info)))) (\<lambda>r.
       case r of Ok p \<Rightarrow> ret p | Err e \<Rightarrow> ret [] | Panic q \<Rightarrow> panic q)"

definition unwrap_none :: payload where
  "unwrap_none = PanicStr ''called `Option::unwrap()` on a `None` value''"

section \<open>Hooks\<close>

definition memcached_empty_before :: "bytes \<Rightarrow> bytes \<Rightarrow> before_hook" where
  "memcached_empty_before class_name function_name rid ed =
     (case map_of MEMCACHED_EMPTY_METHOD_MAPPING (to_ascii_lowercase function_name) of
        None \<Rightarrow> panic unwrap_none
      | Some ti \<Rightarrow> memcached_span rid class_name function_name [] ti None ed)"

definition memcached_key_before :: "env \<Rightarrow> bytes \<Rightarrow> bytes \<Rightarrow> before_hook" where
  "memcached_key_before E class_name function_name rid ed =
     (let key = get_parameter ed 0; key_str = z_val_to_string key in
      andthen (lift (get_this_mut ed)) (\<lambda>this.
      andthen (if as_z_str key \<noteq> None then memcached_get_peer E this key else ret []) (\<lambda>pr.
      case map_of MEMCACHED_KEY_METHOD_MAPPING (to_ascii_lowercase function_name) of
        None \<Rightarrow> panic unwrap_none
      | Some ti \<Rightarrow> memcached_span rid class_name function_name pr ti key_str ed)))"

definition memcached_server_key_before :: "env \<Rightarrow> bytes \<Rightarrow> bytes \<Rightarrow> before_hook" where
  "memcached_server_key_before E class_name function_name rid ed =
     (let server_key = get_parameter ed 0; key = z_val_to_string (get_parameter ed 1) in
      andthen (lift (get_this_mut ed)) (\<lambda>this.
      andthen (if as_z_str server_key \<noteq> None then memcached_get_peer E this server_key else ret []) (\<lambda>pr.
      case map_of MEMCACHED_SERVER_KEY_METHOD_MAPPING (to_ascii_lowercase function_name) of
        None \<Rightarrow> panic unwrap_none
      | Some ti \<Rightarrow> memcached_span rid class_name function_name pr ti key ed)))"

definition report_result_code :: "env \<Rightarrow> exec_data \<Rightarrow> nat \<Rightarrow> unit agent_act" where
  "report_result_code E ed i =
     andthen (on_span i [SetError True]) (\<lambda>_.
     andthen (lift (get_this_mut ed)) (\<lambda>this.
     andthen (call_method E this ''getresultcode'' []) (\<lambda>code.
     andthen (lift (with_context ''ResultCode isn't int'' (as_long code))) (\<lambda>code.
     if code \<noteq> 0 then
       andthen (call_method E this ''getresultmessage'' []) (\<lambda>message.
       andthen (lift (with_context ''ResultMessage isn't string'' (as_z_str message))) (\<lambda>raw.
       andthen (lift (expect_utf8 raw)) (\<lambda>message.
       on_span i [AddLog [(''ResultCode'', show_i64 code), (''ResultMessage'', message)]])))
     else ret ()))))"

definition memcached_after_hook :: "env \<Rightarrow> after_hook" where
  "memcached_after_hook E rid d ed rv =
     expect_span d (\<lambda>i.
     andthen (if as_bool rv = Some False then report_result_code E ed i else ret ()) (\<lambda>_.
     andthen (log_exception E i) (\<lambda>_. ret ())))"

section \<open>Contract\<close>

lemma quiet_memcached_get_peer [intro, simp]: "quiet (memcached_get_peer E this key)"
  unfolding memcached_get_peer_def by (intro quiet_intros)

lemma quiet_report_result_code [intro, simp]: "quiet (report_result_code E ed i)"
  unfolding report_result_code_def by (intro quiet_intros)

lemma memcached_span_spec [intro]: "before_spec (memcached_span rid cn fn pr ti key ed)"
  unfolding memcached_span_def by (intro with_exit_span_spec quiet_intros)

lemma memcached_after_spec [intro]: "after_spec d (memcached_after_hook E rid d ed rv)"
  unfolding memcached_after_hook_def
  by (intro expect_span_spec quiet_intros quiet_report_result_code quiet_log_exception)

interpretation memcached_empty: span_hook "memcached_empty_before cn fn" "memcached_after_hook E" for cn fn E
proof
  show "before_spec (memcached_empty_before cn fn rid ed)" for rid ed
    unfolding memcached_empty_before_def
    by (intro before_spec_option before_spec_fail memcached_span_spec)
qed (rule memcached_after_spec)

interpretation memcached_key: span_hook "memcached_key_before E cn fn" "memcached_after_hook E" for E cn fn
proof
  show "before_spec (memcached_key_before E cn fn rid ed)" for rid ed
    unfolding memcached_key_before_def Let_def
    by (intro before_spec_andthen before_spec_option before_spec_fail memcached_span_spec
        quiet_intros quiet_memcached_get_peer)
qed (rule memcached_after_spec)

interpretation memcached_server_key: span_hook "memcached_server_key_before E cn fn" "memcached_after_hook E" for E cn fn
proof
  show "before_spec (memcached_server_key_before E cn fn rid ed)" for rid ed
    unfolding memcached_server_key_before_def Let_def
    by (intro before_spec_andthen before_spec_option before_spec_fail memcached_span_spec
        quiet_intros quiet_memcached_get_peer)
qed (rule memcached_after_spec)

section \<open>Properties\<close>

lemma to_ascii_lowercase_no_upper: "c \<in> set (to_ascii_lowercase s) \<Longrightarrow> \<not> in_range 65 90 (of_char c)"
  by (auto simp: to_ascii_lowercase_def ascii_lower_not_upper)

lemma server_key_methods_have_upper:
  "\<forall>f \<in> fst ` set MEMCACHED_SERVER_KEY_METHOD_MAPPING. \<exists>c \<in> set f. in_range 65 90 (of_char c)"
  by (simp add: MEMCACHED_SERVER_KEY_METHOD_MAPPING_def in_range_def)

text \<open>
  The table of the methods that take a server key is looked up with a lower-case name,
  but its names are in mixed case: whatever method of whatever class is called, the hook for
  server keys is never selected, so calls like \<^verbatim>\<open>getByKey\<close> are not traced.
\<close>

theorem server_key_methods_never_hooked:
  "memcached_hook cls f \<noteq> Some (HMemcachedServerKey cn fn)"
proof -
  have "map_of MEMCACHED_SERVER_KEY_METHOD_MAPPING (to_ascii_lowercase f) = None"
    unfolding map_of_eq_None_iff
    using server_key_methods_have_upper to_ascii_lowercase_no_upper by blast
  then show ?thesis by (simp add: memcached_hook_def has_method_def)
qed

text \<open>
  The peer a key names: it is a string, and \<^verbatim>\<open>getServerByKey\<close> answers it with an array that has a
  UTF-8 string as its host and an integer as its port.
\<close>

definition names_server :: "env \<Rightarrow> agent \<Rightarrow> zobj \<Rightarrow> zval \<Rightarrow> bytes \<Rightarrow> bool" where
  "names_server E s this key pr \<longleftrightarrow>
     (\<exists>k a host port. key = ZStr k \<and> call_result E s (MethodOf (obj_handle this) ''getserverbykey'') [key] = Ok (ZArr a) \<and>
        arr_get a (Key ''host'') = Some (ZStr host) \<and> utf8_valid host \<and>
        arr_get a (Key ''port'') = Some (ZLong port) \<and> pr = host @ '':'' @ show_i64 port)"

lemma server_address_iff:
  "server_address info = Ok p \<longleftrightarrow>
     (\<exists>a host port. info = ZArr a \<and> arr_get a (Key ''host'') = Some (ZStr host) \<and> utf8_valid host \<and>
        arr_get a (Key ''port'') = Some (ZLong port) \<and> p = host @ '':'' @ show_i64 port)"
  by (auto simp: server_address_def expect_utf8_def to_str_def
      split: option.splits outcome.splits)

lemma server_address_no_panic: "server_address info \<noteq> Panic q"
  by (auto simp: server_address_def expect_utf8_def split: option.splits outcome.splits)

lemma memcached_get_peer_result:
  assumes "as_z_str key \<noteq> None"
  shows "\<exists>p. memcached_get_peer E this key s =
      (Ok p, emit (PhpCall (MethodOf (obj_handle this) ''getserverbykey'') [key]) s) \<and>
    (names_server E s this key p \<or> p = [] \<and> (\<forall>q. \<not> names_server E s this key q))"
proof (cases "call_result E s (MethodOf (obj_handle this) ''getserverbykey'') [key]")
  case (Ok info)
  have named: "names_server E s this key q \<longleftrightarrow> server_address info = Ok q" for q
    using assms Ok by (cases key) (auto simp: names_server_def server_address_iff)
  show ?thesis
    using Ok by (cases "server_address info")
      (auto simp: memcached_get_peer_def call_method_def named server_address_no_panic)
qed (auto simp: memcached_get_peer_def call_method_def names_server_def)

text \<open>
  (C31) A selected key method never fails.  For every method the plugin hooks with a key, in any
  case and with any argument, the table lookup of the before hook finds the tags it unwraps, and
  the hook opens an exit span with the command of the method.  If argument 0 is a string,
  \<^verbatim>\<open>getServerByKey\<close> is asked for it once, and the span goes to the \<^verbatim>\<open>host:port\<close> it answers, or to
  the empty peer if the call fails or the answer has no such entries.  If it is no string, as with
  \<^verbatim>\<open>setMulti\<close> and \<^verbatim>\<open>getMulti\<close>, nothing is called and the peer is empty.  The key is tagged exactly
  if it is a UTF-8 string.
\<close>

theorem memcached_key_span:
  assumes sel: "memcached_hook cls f = Some (HMemcachedKey cn f')"
    and ctx: "request_context s rid = Some c" and obj: "this_obj ed = Some this"
  shows "\<exists>ti pr i s'. map_of MEMCACHED_KEY_METHOD_MAPPING (to_ascii_lowercase f) = Some ti \<and>
     memcached_key_before E cn f' rid ed s = (Ok (DSpan i, ed), s') \<and>
     spans s' i = Some \<lparr>sp_ctx = tracing_context c, sp_kind = ExitSpan pr,
       sp_operation = ''Memcached->'' @ f, sp_calls = cache_calls ti (z_val_to_string (get_parameter ed 0))\<rparr> \<and>
     (names_server E s this (get_parameter ed 0) pr \<or>
      pr = [] \<and> (\<forall>q. \<not> names_server E s this (get_parameter ed 0) q)) \<and>
     log s' = log s @
       (if as_z_str (get_parameter ed 0) = None then []
        else [PhpCall (MethodOf (obj_handle this) ''getserverbykey'') [get_parameter ed 0]]) @ [SpanOpened i]"
proof -
  let ?key = "get_parameter ed 0"
  obtain ti where ti: "map_of MEMCACHED_KEY_METHOD_MAPPING (to_ascii_lowercase f) = Some ti"
    and names: "cn = ''Memcached''" "f' = f"
    using sel by (auto simp: memcached_hook_def has_method_def split: if_splits)
  note span = Let_def spans_upd_span memcached_key_before_def memcached_span_def
  show ?thesis
  proof (cases "as_z_str ?key = None")
    case True
    then have "\<not> names_server E s this ?key q" "?key \<noteq> ZStr y" for q y by (auto simp: names_server_def)
    then show ?thesis using True obj ti names by (simp add: span with_exit_span_eq [OF ctx])
  next
    case False
    define s1 where "s1 = emit (PhpCall (MethodOf (obj_handle this) ''getserverbykey'') [?key]) s"
    obtain p where peer: "memcached_get_peer E this ?key s = (Ok p, s1)"
      and p: "names_server E s this ?key p \<or> p = [] \<and> (\<forall>q. \<not> names_server E s this ?key q)"
      using memcached_get_peer_result [OF False] unfolding s1_def by blast
    have ctx1: "request_context s1 rid = Some c" using ctx by (simp add: s1_def)
    show ?thesis
      using False obj ti names p
      by (simp add: span with_exit_span_eq [OF ctx1] andthen_eqs(1) [where m = "memcached_get_peer E this ?key", OF peer])
        (simp add: s1_def)
  qed
qed

text \<open>\<^verbatim>\<open>getMulti\<close> with an array of keys, and \<^verbatim>\<open>GET\<close> with a key that has a server.\<close>

theorem memcached_key_span_witness:
  "let E = sample_env\<lparr>php_call := (\<lambda>l c args. Inr (ZArr [(Key ''host'', ZStr ''m''), (Key ''port'', ZLong 11211)]))\<rparr>;
       edm = sample_frame None None (Some (sample_obj ''Memcached'')) [ZArr [(Index 0, ZStr ''k'')]];
       edg = sample_frame None None (Some (sample_obj ''Memcached'')) [ZStr ''k'']
   in \<exists>i s' j s''. memcached_key_before E ''Memcached'' ''getMulti'' None edm sample_agent = (Ok (DSpan i, edm), s') \<and>
     spans s' i = Some \<lparr>sp_ctx = tracing_context sample_ctx, sp_kind = ExitSpan [],
       sp_operation = ''Memcached->getMulti'', sp_calls = cache_calls (tag_info_new (Some ''get'') (Some Read)) None\<rparr> \<and>
     memcached_key_before E ''Memcached'' ''GET'' None edg sample_agent = (Ok (DSpan j, edg), s'') \<and>
     spans s'' j = Some \<lparr>sp_ctx = tracing_context sample_ctx, sp_kind = ExitSpan (''m:'' @ show_i64 11211),
       sp_operation = ''Memcached->GET'', sp_calls = cache_calls (tag_info_new (Some ''get'') (Some Read)) (Some ''k'')\<rparr>"
proof -
  let ?a = "[(Key ''host'', ZStr ''m''), (Key ''port'', ZLong 11211)]"
  let ?E = "sample_env\<lparr>php_call := (\<lambda>l c args. Inr (ZArr ?a))\<rparr>"
  let ?frame = "\<lambda>args. sample_frame None None (Some (sample_obj ''Memcached'')) args"
  have low: "to_ascii_lowercase ''getMulti'' = ''getmulti''" "to_ascii_lowercase ''GET'' = ''get''" by code_simp+
  have sel: "memcached_hook (Some ''Memcached'') ''getMulti'' = Some (HMemcachedKey ''Memcached'' ''getMulti'')"
    "memcached_hook (Some ''Memcached'') ''GET'' = Some (HMemcachedKey ''Memcached'' ''GET'')"
    and ti: "map_of MEMCACHED_KEY_METHOD_MAPPING ''getmulti'' = Some (tag_info_new (Some ''get'') (Some Read))"
    "map_of MEMCACHED_KEY_METHOD_MAPPING ''get'' = Some (tag_info_new (Some ''get'') (Some Read))"
    by (simp_all add: memcached_hook_def has_method_def low MEMCACHED_KEY_METHOD_MAPPING_def MEMCACHED_EMPTY_METHOD_MAPPING_def)
  have server: "names_server ?E sample_agent ob (ZStr ''k'') q \<longleftrightarrow> q = ''m:'' @ show_i64 11211"
    "\<not> names_server ?E sample_agent ob (ZArr xs) q" for ob q xs
    by (auto simp: names_server_def call_result_def arr_get_def)
  note m = memcached_key_span [OF sel(1), of sample_agent None sample_ctx "?frame [ZArr [(Index 0, ZStr ''k'')]]"
      "sample_obj ''Memcached''" ?E]
  note g = memcached_key_span [OF sel(2), of sample_agent None sample_ctx "?frame [ZStr ''k'']"
      "sample_obj ''Memcached''" ?E]
  from m g show ?thesis by (simp add: low ti server z_val_to_string_def to_str_def) metis
qed

end
