(* ===== verification/Redis.thy ===== *)
theory Redis
  imports Samples
begin

text \<open>
  \<^verbatim>\<open>src/src/plugin/plugin_redis.rs\<close>: the command tables, the table that remembers the peer of
  every \<^verbatim>\<open>Redis\<close> object, the \<^verbatim>\<open>free_obj\<close> handler that is patched to forget it, and the hooks.
\<close>

section \<open>Command tables\<close>

text \<open>A \<^verbatim>\<open>HashMap\<close> collected from a list of pairs; a repeated key repeats its value.\<close>

definition REDIS_READ_MAPPING :: "(bytes \<times> bytes) list" where
  "REDIS_READ_MAPPING =
     [(''blpop'', ''BLPOP''), (''brpop'', ''BRPOP''), (''get'', ''GET''),
      (''getbit'', ''GETBIT''), (''getkeys'', ''KEYS''), (''getmultiple'', ''MGET''),
      (''getrange'', ''GETRANGE''), (''hexists'', ''HEXISTS''), (''hget'', ''HGET''),
      (''hgetall'', ''HGETALL''), (''hkeys'', ''HKEYS''), (''hlen'', ''HLEN''),
      (''hmget'', ''HMGET''), (''hscan'', ''HSCAN''), (''hstrlen'', ''HSTRLEN''),
      (''hvals'', ''HVALS''), (''keys'', ''KEYS''), (''lget'', ''LGET''),
      (''lgetrange'', ''LGETRANGE''), (''llen'', ''LLEN''), (''lrange'', ''LRANGE''),
      (''lsize'', ''LSIZE''), (''mget'', ''MGET''), (''mget'', ''MGET''),
      (''scontains'', ''SCONTAINS''), (''sgetmembers'', ''SGETMEMBERS''),
      (''sismember'', ''SISMEMBER''), (''smembers'', ''SMEMBERS''), (''sscan'', ''SSCAN''),
      (''ssize'', ''SSIZE''), (''strlen'', ''STRLEN''), (''substr'', ''GETRANGE''),
      (''zcount'', ''ZCOUNT''), (''zrange'', ''ZRANGE''), (''zrangebylex'', ''ZRANGEBYLEX''),
      (''zrangebyscore'', ''ZRANGEBYSCORE''), (''zscan'', ''ZSCAN''), (''zsize'', ''ZSIZE'')]"

definition REDIS_WRITE_MAPPING :: "(bytes \<times> bytes) list" where
  "REDIS_WRITE_MAPPING =
     [(''append'', ''APPEND''), (''brpoplpush'', ''BRPOPLPUSH''), (''decr'', ''DECR''),
      (''decrby'', ''DECRBY''), (''del'', ''DEL''), (''delete'', ''DEL''),
      (''hdel'', ''HDEL''), (''hincrby'', ''HINCRBY''), (''hincrbyfloat'', ''HINCRBYFLOAT''),
      (''hmset'', ''HMSET''), (''hset'', ''HSET''), (''hsetnx'', ''HSETNX''),
      (''incr'', ''INCR''), (''incrby'', ''INCRBY''), (''incrbyfloat'', ''INCRBYFLOAT''),
      (''linsert'', ''LINSERT''), (''lpush'', ''LPUSH''), (''lpushx'', ''LPUSHX''),
      (''lrem'', ''LREM''), (''lremove'', ''LREMOVE''), (''lset'', ''LSET''),
      (''ltrim'', ''LTRIM''), (''listtrim'', ''LISTTRIM''), (''mset'', ''MSET''),
      (''msetnx'', ''MSETNX''), (''psetex'', ''PSETEX''), (''rpoplpush'', ''RPOPLPUSH''),
      (''rpush'', ''RPUSH''), (''rpushx'', ''RPUSHX''), (''randomkey'', ''RANDOMKEY''),
      (''sadd'', ''SADD''), (''sinter'', ''SINTER''), (''sinterstore'', ''SINTERSTORE''),
      (''smove'', ''SMOVE''), (''srandmember'', ''SRANDMEMBER''), (''srem'', ''SREM''),
      (''sremove'', ''SREMOVE''), (''set'', ''SET''), (''setbit'', ''SETBIT''),
      (''setex'', ''SETEX''), (''setnx'', ''SETNX''), (''setrange'', ''SETRANGE''),
      (''settimeout'', ''SETTIMEOUT''), (''sort'', ''SORT''), (''unlink'', ''UNLINK''),
      (''zadd'', ''ZADD''), (''zdelete'', ''ZDELETE''),
      (''zdeleterangebyrank'', ''ZDELETERANGEBYRANK''),
      (''zdeleterangebyscore'', ''ZDELETERANGEBYSCORE''), (''zincrby'', ''ZINCRBY''),
      (''zrem'', ''ZREM''), (''zremrangebyrank'', ''ZREMRANGEBYRANK''),
      (''zremrangebyscore'', ''ZREMRANGEBYSCORE''), (''zremove'', ''ZREMOVE''),
      (''zremoverangebyscore'', ''ZREMOVERANGEBYSCORE'')]"

definition REDIS_OTHER_MAPPING :: "(bytes \<times> bytes) list" where
  "REDIS_OTHER_MAPPING = [(''auth'', ''AUTH'')]"

text \<open>Extending a map by three others: the last one wins.\<close>

definition REDIS_ALL_MAPPING :: "(bytes \<times> bytes) list" where
  "REDIS_ALL_MAPPING = REDIS_OTHER_MAPPING @ REDIS_WRITE_MAPPING @ REDIS_READ_MAPPING"

definition contains_key :: "('k \<times> 'v) list \<Rightarrow> 'k \<Rightarrow> bool" where
  "contains_key m k \<longleftrightarrow> map_of m k \<noteq> None"

definition redis_op :: "bytes \<Rightarrow> bytes option" where
  "redis_op k =
     (if contains_key REDIS_READ_MAPPING k then Some ''read''
      else if contains_key REDIS_WRITE_MAPPING k then Some ''write'' else None)"

section \<open>Peers and the patched destructor\<close>

definition hack_free :: "env \<Rightarrow> zobj \<Rightarrow> free_fn option \<Rightarrow> agent \<Rightarrow> agent" where
  "hack_free E this new_free s =
     (let handle = obj_handle this; t = handlers_of E this in
      s\<lparr>redis_free_map := (redis_free_map s)(handle \<mapsto> free_obj s t),
        free_obj := (free_obj s)(t := new_free)\<rparr>)"

function redis_dtor :: "u32 \<Rightarrow> agent \<Rightarrow> agent" where
  "redis_dtor h s =
     (let s1 = s\<lparr>redis_peers := map_remove (redis_peers s) h\<rparr>;
          s2 = s1\<lparr>redis_free_map := map_remove (redis_free_map s1) h\<rparr>
      in case redis_free_map s1 h of
           Some (Some f) \<Rightarrow>
             (case f of
                EngineFree n \<Rightarrow> emit (EngineFreeRun n h) s2
              | RedisDtor \<Rightarrow> redis_dtor h s2)
         | _ \<Rightarrow> s2)"
  by pat_completeness auto
termination
  by (relation "measure (\<lambda>(h, s). if redis_free_map s h = None then 0 else 1)") auto

declare redis_dtor.simps [simp del]

text \<open>The engine frees an object through the handlers table of the object.\<close>

definition free_object :: "env \<Rightarrow> zobj \<Rightarrow> agent \<Rightarrow> agent" where
  "free_object E ob s =
     (case free_obj s (handlers_of E ob) of
        None \<Rightarrow> s
      | Some (EngineFree n) \<Rightarrow> emit (EngineFreeRun n (obj_handle ob)) s
      | Some RedisDtor \<Rightarrow> redis_dtor (obj_handle ob) s)"

lemma redis_dtor_none:
  "redis_free_map s h = None \<Longrightarrow> redis_dtor h s = s\<lparr>redis_peers := map_remove (redis_peers s) h\<rparr>"
  by (subst redis_dtor.simps) (simp add: Let_def map_remove_idem)

lemma redis_dtor_eq:
  "redis_dtor h s =
     (let s2 = s\<lparr>redis_peers := map_remove (redis_peers s) h,
                 redis_free_map := map_remove (redis_free_map s) h\<rparr>
      in case redis_free_map s h of Some (Some (EngineFree n)) \<Rightarrow> emit (EngineFreeRun n h) s2 | _ \<Rightarrow> s2)"
  by (subst redis_dtor.simps)
    (auto simp: Let_def redis_dtor_none map_remove_idem split: option.split free_fn.split)

lemma redis_dtor_sel [simp]:
  "redis_peers (redis_dtor h s) = map_remove (redis_peers s) h"
  "redis_free_map (redis_dtor h s) = map_remove (redis_free_map s) h"
  "free_obj (redis_dtor h s) = free_obj s" "span_view (redis_dtor h s) = span_view s"
  by (simp_all add: redis_dtor_eq Let_def split: option.split free_fn.split)

lemma hack_free_sel [simp]:
  "redis_peers (hack_free E ob f s) = redis_peers s" "log (hack_free E ob f s) = log s"
  "span_view (hack_free E ob f s) = span_view s"
  "redis_free_map (hack_free E ob f s) = (redis_free_map s)(obj_handle ob \<mapsto> free_obj s (handlers_of E ob))"
  "free_obj (hack_free E ob f s) = (free_obj s)(handlers_of E ob := f)"
  by (simp_all add: hack_free_def Let_def)

interpretation redis_patch: handler_patch "handlers_of E" "\<lambda>ob. hack_free E ob (Some f)" free_obj redis_free_map f
  for E f
  by unfold_locales simp_all

lemma log_fold_hack_free [simp]: "log (fold (\<lambda>ob. hack_free E ob f) obs s) = log s"
  by (induction obs arbitrary: s) auto

section \<open>Hooks\<close>

definition redis_construct_before :: "env \<Rightarrow> before_hook" where
  "redis_construct_before E rid ed =
     andthen (lift (get_this_mut ed)) (\<lambda>this.
     andthen (modify (hack_free E this (Some RedisDtor))) (\<lambda>_.
     ret (DUnit, ed)))"

definition redis_port :: "zval \<Rightarrow> bytes option" where
  "redis_port v =
     (case as_long v of Some n \<Rightarrow> Some (show_i64 n)
      | None \<Rightarrow> (case as_z_str v of
           Some t \<Rightarrow> Some (case to_str t of Some t \<Rightarrow> t | None \<Rightarrow> ''0'')
         | None \<Rightarrow> None))"

definition insert_redis_peer :: "u32 \<Rightarrow> bytes \<Rightarrow> agent \<Rightarrow> agent" where
  "insert_redis_peer h addr s = s\<lparr>redis_peers := (redis_peers s)(h \<mapsto> addr)\<rparr>"

definition redis_connect_before :: "bytes \<Rightarrow> bytes \<Rightarrow> before_hook" where
  "redis_connect_before class_name function_name rid ed =
     (if num_args ed < 2 then ret (DUnit, ed)
      else case z_val_to_string (get_parameter ed 0) of
        None \<Rightarrow> ret (DUnit, ed)
      | Some host \<Rightarrow>
          (case redis_port (get_parameter ed 1) of
             None \<Rightarrow> ret (DUnit, ed)
           | Some port \<Rightarrow>
               andthen (lift (get_this_mut ed)) (\<lambda>this.
               let addr = host @ '':'' @ port in
               andthen (modify (insert_redis_peer (obj_handle this) addr)) (\<lambda>_.
               with_exit_span rid (class_name @ ''->'' @ function_name) addr ed (\<lambda>i.
                 on_span i [SetLayer LayerCache, SetComponent COMPONENT_PHP_REDIS_ID,
                            AddTag TAG_CACHE_TYPE ''redis''])))))"

definition redis_method_calls :: "bytes \<Rightarrow> bytes option \<Rightarrow> bytes option \<Rightarrow> span_call list" where
  "redis_method_calls cmd op key =
     [SetLayer LayerCache, SetComponent COMPONENT_PHP_REDIS_ID, AddTag TAG_CACHE_TYPE ''redis'',
      AddTag TAG_CACHE_CMD cmd] @
     (case op of Some op \<Rightarrow> [AddTag TAG_CACHE_OP op] | None \<Rightarrow> []) @
     (case key of Some key \<Rightarrow> [AddTag TAG_CACHE_KEY key] | None \<Rightarrow> [])"

definition redis_methods_before :: "bytes \<Rightarrow> bytes \<Rightarrow> before_hook" where
  "redis_methods_before class_name function_name rid ed =
     andthen (lift (get_this_mut ed)) (\<lambda>this.
     andthen (reads (\<lambda>s. case redis_peers s (obj_handle this) of None \<Rightarrow> [] | Some a \<Rightarrow> a)) (\<lambda>pr.
     let function_name_key = to_ascii_lowercase function_name;
         op = redis_op function_name_key;
         key = Option.bind op (\<lambda>_. z_val_to_string (get_parameter ed 0))
     in with_exit_span rid (class_name @ ''->'' @ function_name) pr ed (\<lambda>i.
          case map_of REDIS_ALL_MAPPING function_name_key of
            None \<Rightarrow> panic (PanicStr ''called `Option::unwrap()` on a `None` value'')
          | Some cmd \<Rightarrow> on_span i (redis_method_calls cmd op key))))"

definition redis_after_hook :: "env \<Rightarrow> after_hook" where
  "redis_after_hook E rid d ed rv =
     (if d = DUnit then ret ()
      else downcast_span d (\<lambda>i. andthen (log_exception E i) (\<lambda>_. ret ())))"

lemma insert_redis_peer_sel [simp]:
  "span_view (insert_redis_peer h a s) = span_view s"
  "redis_peers (insert_redis_peer h a s) = (redis_peers s)(h \<mapsto> a)"
  "request_context (insert_redis_peer h a s) = request_context s"
  "next_id (insert_redis_peer h a s) = next_id s" "spans (insert_redis_peer h a s) = spans s"
  by (simp_all add: insert_redis_peer_def)

lemma noop_before_spec [intro, simp]: "after_spec DUnit (noop_after rid d ed rv)"
  by (auto simp: noop_after_def)

lemma redis_after_spec [intro]: "after_spec d (redis_after_hook E rid d ed rv)"
  unfolding redis_after_hook_def
  by (intro after_spec_if after_spec_quiet downcast_span_spec quiet_intros quiet_log_exception) simp

interpretation redis_connect: span_hook "redis_connect_before cn fn" "redis_after_hook E" for cn fn E
proof
  show "before_spec (redis_connect_before cn fn rid ed)" for rid ed
    unfolding redis_connect_before_def Let_def
    by (intro before_spec_if before_spec_option before_spec_ret before_spec_andthen
        with_exit_span_spec quiet_intros) simp_all
qed (rule redis_after_spec)

interpretation redis_methods: span_hook "redis_methods_before cn fn" "redis_after_hook E" for cn fn E
proof
  show "before_spec (redis_methods_before cn fn rid ed)" for rid ed
    unfolding redis_methods_before_def Let_def
    by (intro before_spec_andthen with_exit_span_spec quiet_intros)
qed (rule redis_after_spec)

interpretation redis_construct: silent_hook "redis_construct_before E" for E
proof
  show "quiet (redis_construct_before E rid ed)" for rid ed
    unfolding redis_construct_before_def by (intro quiet_intros) simp
  show "holds_none (redis_construct_before E rid ed)" for rid ed
    unfolding redis_construct_before_def by (intro holds_none_intros) simp
qed

interpretation redis_table:
  keyed_table redis_peers insert_redis_peer "\<lambda>h s. s\<lparr>redis_peers := map_remove (redis_peers s) h\<rparr>"
  by unfold_locales (simp_all)

definition redis_class_names :: "bytes list option" where [simp]:
  "redis_class_names = Some [''Redis'']"

definition redis_function_name_prefix :: "bytes option" where [simp]:
  "redis_function_name_prefix = None"

definition redis_hook :: "bytes option \<Rightarrow> bytes \<Rightarrow> hook_id option" where
  "redis_hook class_name f =
     (if class_name = Some ''Redis'' then
        (if f = ''__construct'' then Some HRedisConstruct
         else if f \<in> {''connect'', ''open'', ''pconnect'', ''popen''} then Some (HRedisConnect ''Redis'' f)
         else if contains_key REDIS_ALL_MAPPING (to_ascii_lowercase f) then Some (HRedisMethods ''Redis'' f)
         else None)
      else None)"

section \<open>Properties\<close>

lemma redis_tables_disjoint:
  "\<forall>k \<in> fst ` set REDIS_READ_MAPPING. k \<notin> fst ` set REDIS_WRITE_MAPPING"
  by (simp add: REDIS_READ_MAPPING_def REDIS_WRITE_MAPPING_def)

lemma contains_key_iff: "contains_key m k \<longleftrightarrow> k \<in> fst ` set m"
  by (simp add: contains_key_def map_of_eq_None_iff)

lemma redis_auth_only:
  "contains_key REDIS_ALL_MAPPING k \<Longrightarrow> redis_op k = None \<longleftrightarrow> k = ''auth''"
proof -
  have "contains_key REDIS_ALL_MAPPING k =
      (k = ''auth'' \<or> contains_key REDIS_WRITE_MAPPING k \<or> contains_key REDIS_READ_MAPPING k)"
    by (simp add: contains_key_iff REDIS_ALL_MAPPING_def REDIS_OTHER_MAPPING_def image_Un)
  moreover have "\<not> contains_key REDIS_WRITE_MAPPING ''auth''" "\<not> contains_key REDIS_READ_MAPPING ''auth''"
    by code_simp+
  moreover have "redis_op k = None \<longleftrightarrow> \<not> contains_key REDIS_READ_MAPPING k \<and> \<not> contains_key REDIS_WRITE_MAPPING k"
    by (simp add: redis_op_def)
  ultimately show "contains_key REDIS_ALL_MAPPING k \<Longrightarrow> redis_op k = None \<longleftrightarrow> k = ''auth''" by metis
qed

text \<open>
  The command tables: no method is both reading and writing, the operation tag is
  \<^verbatim>\<open>read\<close> or \<^verbatim>\<open>write\<close> according to the table the method is in, and exactly the hooked
  method that is in neither, \<^verbatim>\<open>auth\<close>, gets none.
\<close>

theorem redis_op_classifies:
  "(redis_op k = Some ''read'') = contains_key REDIS_READ_MAPPING k \<and>
   (redis_op k = Some ''write'') = contains_key REDIS_WRITE_MAPPING k \<and>
   contains_key REDIS_ALL_MAPPING k = (redis_op k \<noteq> None \<or> k = ''auth'')"
proof -
  have disj: "contains_key REDIS_READ_MAPPING k \<Longrightarrow> \<not> contains_key REDIS_WRITE_MAPPING k"
    unfolding contains_key_iff using redis_tables_disjoint by blast
  have all: "contains_key REDIS_ALL_MAPPING k =
      (k = ''auth'' \<or> contains_key REDIS_WRITE_MAPPING k \<or> contains_key REDIS_READ_MAPPING k)"
    by (simp add: contains_key_iff REDIS_ALL_MAPPING_def REDIS_OTHER_MAPPING_def image_Un)
  show ?thesis using disj by (auto simp: redis_op_def all)
qed

lemma connect_remembers_peer:
  assumes connect: "redis_connect_before cn g rid ed0 s0 = (Ok (DSpan j, ed0), s1)" and obj: "this_obj ed0 = Some this"
  shows "\<exists>host port. z_val_to_string (get_parameter ed0 0) = Some host \<and> redis_port (get_parameter ed0 1) = Some port \<and>
    redis_peers s1 (obj_handle this) = Some (host @ '':'' @ port)"
proof -
  have "2 \<le> num_args ed0" using connect by (auto simp: redis_connect_before_def split: if_splits)
  moreover from connect obj obtain host port where
    args: "z_val_to_string (get_parameter ed0 0) = Some host" "redis_port (get_parameter ed0 1) = Some port"
    by (auto simp: redis_connect_before_def split: if_splits option.splits)
  moreover define s2 where "s2 = insert_redis_peer (obj_handle this) (host @ '':'' @ port) s0"
  ultimately have "with_exit_span rid (cn @ ''->'' @ g) (host @ '':'' @ port) ed0 (\<lambda>i.
      on_span i [SetLayer LayerCache, SetComponent COMPONENT_PHP_REDIS_ID, AddTag TAG_CACHE_TYPE ''redis'']) s2 =
      (Ok (DSpan j, ed0), s1)"
    using connect obj by (simp add: redis_connect_before_def Let_def)
  then have "redis_peers s1 = redis_peers s2"
    by (cases "request_context s2 rid") (auto simp: with_exit_span_eq with_exit_span_no_ctx)
  with args show ?thesis by (simp add: s2_def)
qed


lemma sample_connect:
  "redis_connect_before ''Redis'' ''connect'' None
     (sample_frame None None (Some (sample_obj ''Redis'')) [ZStr ''h'', ZLong 6379]) sample_agent =
   (Ok (DSpan 2, sample_frame None None (Some (sample_obj ''Redis'')) [ZStr ''h'', ZLong 6379]),
    upd_span 2 [SetLayer LayerCache, SetComponent COMPONENT_PHP_REDIS_ID, AddTag TAG_CACHE_TYPE ''redis'']
      (opened sample_ctx ''Redis->connect'' (''h:'' @ show_i64 6379) (insert_redis_peer 7 (''h:'' @ show_i64 6379) sample_agent)))"
proof -
  have ctx: "request_context (insert_redis_peer 7 p sample_agent) None = Some sample_ctx" for p by simp
  show ?thesis
    by (simp add: redis_connect_before_def z_val_to_string_def to_str_def redis_port_def Let_def
        with_exit_span_eq [OF ctx])
qed


text \<open>
  Freeing Redis objects: of several objects of the class, whose free handler every
  construction patches again, only the first one constructed is still freed by the engine's
  own function; for every later one that function never runs.
\<close>

theorem engine_free_runs_for_first_only:
  assumes tbl: "\<forall>ob \<in> set (ob0 # obs). handlers_of E ob = t"
    and dist: "distinct (map obj_handle (ob0 # obs))"
    and orig: "free_obj s t = Some (EngineFree n)"
    and ob: "ob \<in> set (ob0 # obs)"
  shows "log (free_object E ob (fold (\<lambda>ob. hack_free E ob (Some RedisDtor)) (ob0 # obs) s)) =
     log s @ (if ob = ob0 then [EngineFreeRun n (obj_handle ob0)] else [])"
proof -
  define s' where "s' = fold (\<lambda>ob. hack_free E ob (Some RedisDtor)) (ob0 # obs) s"
  note patched = redis_patch.fold_patched [OF tbl dist ob, of RedisDtor s, folded s'_def]
  have "handlers_of E ob = t" using tbl ob by auto
  then have run: "free_object E ob s' = redis_dtor (obj_handle ob) s'"
    using patched(1) by (simp add: free_object_def)
  have "log s' = log s" by (simp add: s'_def del: fold_simps)
  then show ?thesis
    unfolding s'_def [symmetric] run using patched(2) orig by (auto simp: redis_dtor_eq Let_def)
qed

theorem engine_free_runs_for_first_only_witness:
  "log (free_object sample_env (Zobj 8 ''Redis'' [])
     (fold (\<lambda>ob. hack_free sample_env ob (Some RedisDtor)) [Zobj 7 ''Redis'' [], Zobj 8 ''Redis'' []] sample_agent)) = []"
  using engine_free_runs_for_first_only [of "Zobj 7 ''Redis'' []" "[Zobj 8 ''Redis'' []]" sample_env 0 sample_agent 0
      "Zobj 8 ''Redis'' []"]
  by simp

end
