(* ===== verification/Amqplib.thy ===== *)
theory Amqplib
  imports Samples
begin

text \<open>
  \<^verbatim>\<open>src/src/plugin/plugin_amqplib.rs\<close>: the hook of \<^verbatim>\<open>AMQPChannel::basic_publish\<close>, which opens
  a span for the message and puts the \<^verbatim>\<open>sw8\<close> header into the message's application headers.
\<close>

definition CHANNEL_CLASS :: bytes where
  "CHANNEL_CLASS = class_path [''PhpAmqpLib'', ''Channel'', ''AMQPChannel'']"

definition TABLE_CLASS :: bytes where
  "TABLE_CLASS = class_path [''PhpAmqpLib'', ''Wire'', ''AMQPTable'']"

definition HEADER_NAME :: bytes where
  "HEADER_NAME = ''application_headers''"

definition amqplib_class_names :: "bytes list option" where [simp]:
  "amqplib_class_names = Some [CHANNEL_CLASS]"

definition amqplib_function_name_prefix :: "bytes option" where [simp]:
  "amqplib_function_name_prefix = None"

definition amqplib_hook :: "bytes option \<Rightarrow> bytes \<Rightarrow> hook_id option" where
  "amqplib_hook class_name function_name =
     (if class_name = Some CHANNEL_CLASS \<and> function_name = ''basic_publish''
      then Some (HAmqpBasicPublish CHANNEL_CLASS function_name) else None)"

definition amqp_get_peer :: "zobj \<Rightarrow> bytes" where
  "amqp_get_peer this =
     (case Option.bind (as_z_obj (get_property this ''connection'')) (\<lambda>conn. as_z_obj (get_property conn ''io'')) of
        None \<Rightarrow> ''unknown:0''
      | Some io \<Rightarrow>
          (case z_val_to_string (get_property io ''host'') of Some h \<Rightarrow> h | None \<Rightarrow> ''unknown'') @ '':'' @
          show_i64 (case as_long (get_property io ''port'') of Some p \<Rightarrow> p | None \<Rightarrow> 0))"

definition text_or_unknown :: "zval \<Rightarrow> bytes" where
  "text_or_unknown v = (case z_val_to_string v of Some t \<Rightarrow> t | None \<Rightarrow> ''unknown'')"

definition amqp_calls :: "bytes \<Rightarrow> bytes \<Rightarrow> bytes \<Rightarrow> span_call list" where
  "amqp_calls pr exchange routing_key =
     [SetLayer LayerMq, SetComponent COMPONENT_AMQP_PRODUCER_ID, AddTag TAG_MQ_BROKER pr,
      AddTag TAG_MQ_TOPIC exchange, AddTag TAG_MQ_QUEUE routing_key]"

definition new_sw_headers :: "env \<Rightarrow> bytes \<Rightarrow> zval agent_act" where
  "new_sw_headers E sw =
     andthen (call E (GlobalFn ''class_exists'') [ZStr TABLE_CLASS, ZBool True]) (\<lambda>ex.
     if as_bool ex \<noteq> Some True then fail (Anyhow (''Class '' @ TABLE_CLASS @ '' not exists''))
     else
       andthen (reads (\<lambda>s. class_exists E (log s) TABLE_CLASS)) (\<lambda>known.
       if \<not> known then fail (PHPer ''class not found'')
       else call E (NewObject TABLE_CLASS) [ZArr [(Key SW_HEADER, ZStr sw)]]))"

definition amqp_inject_sw_header :: "env \<Rightarrow> i64 option \<Rightarrow> exec_data \<Rightarrow> bytes \<Rightarrow> unit agent_act" where
  "amqp_inject_sw_header E rid ed pr =
     andthen (try_get_sw_header E rid pr) (\<lambda>sw.
     andthen (lift (with_context ''message isn't object'' (as_z_obj (get_parameter ed 0)))) (\<lambda>message.
     andthen (call_method E message ''has'' [ZStr HEADER_NAME]) (\<lambda>r.
     andthen (lift (expect ''bool'' (as_bool r))) (\<lambda>has.
     if has then
       andthen (call_method E message ''get'' [ZStr HEADER_NAME]) (\<lambda>h.
       andthen (lift (expect ''object'' (as_z_obj h))) (\<lambda>headers.
       andthen (call_method E headers ''set'' [ZStr SW_HEADER, ZStr sw]) (\<lambda>_. ret ())))
     else
       andthen (new_sw_headers E sw) (\<lambda>headers.
       andthen (call_method E message ''set'' [ZStr HEADER_NAME, headers]) (\<lambda>_. ret ()))))))"

definition amqp_publish_before :: "env \<Rightarrow> bytes \<Rightarrow> bytes \<Rightarrow> before_hook" where
  "amqp_publish_before E class_name function_name rid ed =
     andthen (lift (validate_num_args ed 1)) (\<lambda>_.
     andthen (lift (get_this_mut ed)) (\<lambda>this.
     let pr = amqp_get_peer this;
         exchange = text_or_unknown (get_parameter ed 1);
         routing_key = text_or_unknown (get_parameter ed 2)
     in with_exit_span rid (class_name @ ''->'' @ function_name) pr ed (\<lambda>i.
          andthen (on_span i (amqp_calls pr exchange routing_key)) (\<lambda>_.
          amqp_inject_sw_header E rid ed pr))))"

definition amqp_publish_after :: "env \<Rightarrow> after_hook" where
  "amqp_publish_after E rid d ed rv =
     downcast_span d (\<lambda>i. andthen (log_exception E i) (\<lambda>_. ret ()))"

section \<open>Contract\<close>

lemma quiet_new_sw_headers [intro, simp]: "quiet (new_sw_headers E sw)"
  unfolding new_sw_headers_def by (intro quiet_intros)

lemma quiet_amqp_inject [intro, simp]: "quiet (amqp_inject_sw_header E rid ed pr)"
  unfolding amqp_inject_sw_header_def by (intro quiet_intros quiet_try_get_sw_header quiet_new_sw_headers)

interpretation amqp: span_hook "amqp_publish_before E cn fn" "amqp_publish_after E" for E cn fn
proof
  show "before_spec (amqp_publish_before E cn fn rid ed)" for rid ed
    unfolding amqp_publish_before_def Let_def
    by (intro before_spec_andthen with_exit_span_spec quiet_intros quiet_amqp_inject)
  show "after_spec d (amqp_publish_after E rid d ed rv)" for d rid ed rv
    unfolding amqp_publish_after_def by (intro downcast_span_spec quiet_intros quiet_log_exception)
qed

section \<open>Properties\<close>

text \<open>
  (C32) Publishing a message hands the trace over: if the message has application headers, the
  \<^verbatim>\<open>sw8\<close> header is set in them, otherwise a new table with just that header is created and
  set on the message; the last call into PHP is that one, with the header encoded for the
  broker the span names as its peer.
\<close>

theorem publish_injects_header:
  assumes args: "1 \<le> num_args ed" "get_parameter ed 0 = ZObj m"
    and ctx: "request_context s rid = Some c" and obj: "this_obj ed = Some this"
    and known: "\<forall>l. class_exists E l TABLE_CLASS"
      "\<forall>l. php_call E l (GlobalFn ''class_exists'') [ZStr TABLE_CLASS, ZBool True] = Inr (ZBool True)"
      "\<forall>l args. php_call E l (NewObject TABLE_CLASS) args = Inr table"
    and has: "\<forall>l. php_call E l (MethodOf (obj_handle m) ''has'') [ZStr HEADER_NAME] = Inr (ZBool b)"
      "\<forall>l. php_call E l (MethodOf (obj_handle m) ''get'') [ZStr HEADER_NAME] = Inr (ZObj headers)"
    and setter: "\<forall>l h args. \<exists>v. php_call E l (MethodOf h ''set'') args = Inr v"
  shows "\<exists>i s' l op sw. amqp_publish_before E cn fn rid ed s = (Ok (DSpan i, ed), s') \<and>
     (\<exists>sp. spans s' i = Some sp \<and> sp_kind sp = ExitSpan (amqp_get_peer this)) \<and>
     sw = encode_propagation E l (tracing_context c) op (amqp_get_peer this) \<and>
     last (log s') = (if b then PhpCall (MethodOf (obj_handle headers) ''set'') [ZStr SW_HEADER, ZStr sw]
                      else PhpCall (MethodOf (obj_handle m) ''set'') [ZStr HEADER_NAME, table]) \<and>
     (b \<or> PhpCall (NewObject TABLE_CLASS) [ZArr [(Key SW_HEADER, ZStr sw)]] \<in> set (log s'))"
proof -
  have setter': "\<exists>v. call_result E t (MethodOf h ''set'') args = Ok v" for t h args
    using setter by (metis call_result_def sum.simps(6))
  have inject: "\<exists>t sw. amqp_inject_sw_header E rid ed pr u = (Ok (), t) \<and> spans t = spans u \<and>
      sw = encode_propagation E (log u) (tracing_context c) (operation_of u (entry_span c)) pr \<and>
      last (log t) = (if b then PhpCall (MethodOf (obj_handle headers) ''set'') [ZStr SW_HEADER, ZStr sw]
                      else PhpCall (MethodOf (obj_handle m) ''set'') [ZStr HEADER_NAME, table]) \<and>
      (b \<or> PhpCall (NewObject TABLE_CLASS) [ZArr [(Key SW_HEADER, ZStr sw)]] \<in> set (log t))"
    if "request_context u rid = Some c" for u pr
  proof -
    define sw where "sw = encode_propagation E (log u) (tracing_context c) (operation_of u (entry_span c)) pr"
    have sw: "try_get_sw_header E rid pr u = (Ok sw, u)"
      using that by (simp add: try_get_sw_header_def try_with_global_eq sw_def)
    note known' = known [THEN spec] has [THEN spec]
    show ?thesis
    proof (cases b)
      case True
      define u2 where "u2 = emit (PhpCall (MethodOf (obj_handle m) ''get'') [ZStr HEADER_NAME])
        (emit (PhpCall (MethodOf (obj_handle m) ''has'') [ZStr HEADER_NAME]) u)"
      obtain v where "call_result E u2 (MethodOf (obj_handle headers) ''set'') [ZStr SW_HEADER, ZStr sw] = Ok v"
        using setter' by blast
      then show ?thesis
        unfolding sw_def [symmetric] using True args(2) has
        by (simp add: amqp_inject_sw_header_def andthen_eqs(1) [where m = "try_get_sw_header E rid pr", OF sw]
            call_method_def call_result_def [of E _ "MethodOf _ ''has''"] call_result_def [of E _ "MethodOf _ ''get''"]
            u2_def [symmetric]) (simp add: u2_def)
    next
      case False
      define u3 where "u3 = emit (PhpCall (NewObject TABLE_CLASS) [ZArr [(Key SW_HEADER, ZStr sw)]])
        (emit (PhpCall (GlobalFn ''class_exists'') [ZStr TABLE_CLASS, ZBool True])
          (emit (PhpCall (MethodOf (obj_handle m) ''has'') [ZStr HEADER_NAME]) u))"
      obtain v where "call_result E u3 (MethodOf (obj_handle m) ''set'') [ZStr HEADER_NAME, table] = Ok v"
        using setter' by blast
      then show ?thesis
        unfolding sw_def [symmetric] using False args(2) has known
        by (simp add: amqp_inject_sw_header_def andthen_eqs(1) [where m = "try_get_sw_header E rid pr", OF sw]
            call_method_def call_result_def [of E _ "MethodOf _ ''has''"] new_sw_headers_def
            call_result_def [of E _ "GlobalFn _"] call_result_def [of E _ "NewObject _"]
            u3_def [symmetric]) (simp add: u3_def)
    qed
  qed
  define u where "u = upd_span (next_id s) (amqp_calls (amqp_get_peer this) (text_or_unknown (get_parameter ed 1))
      (text_or_unknown (get_parameter ed 2))) (opened c (cn @ ''->'' @ fn) (amqp_get_peer this) s)"
  have "request_context u rid = Some c" using ctx by (simp add: u_def)
  from inject [OF this, of "amqp_get_peer this"] obtain t where
    t: "amqp_inject_sw_header E rid ed (amqp_get_peer this) u = (Ok (), t)" "spans t = spans u"
      "last (log t) = (if b then PhpCall (MethodOf (obj_handle headers) ''set'') [ZStr SW_HEADER,
          ZStr (encode_propagation E (log u) (tracing_context c) (operation_of u (entry_span c)) (amqp_get_peer this))]
        else PhpCall (MethodOf (obj_handle m) ''set'') [ZStr HEADER_NAME, table])"
      "b \<or> PhpCall (NewObject TABLE_CLASS) [ZArr [(Key SW_HEADER,
          ZStr (encode_propagation E (log u) (tracing_context c) (operation_of u (entry_span c)) (amqp_get_peer this)))]] \<in> set (log t)"
    by blast
  have run: "amqp_publish_before E cn fn rid ed s = (Ok (DSpan (next_id s), ed), t)"
    using args(1) obj t(1) by (simp add: amqp_publish_before_def Let_def with_exit_span_eq [OF ctx] u_def)
  have "spans t (next_id s) = Some \<lparr>sp_ctx = tracing_context c, sp_kind = ExitSpan (amqp_get_peer this),
      sp_operation = cn @ ''->'' @ fn, sp_calls = amqp_calls (amqp_get_peer this) (text_or_unknown (get_parameter ed 1))
      (text_or_unknown (get_parameter ed 2))\<rparr>"
    by (simp add: t(2)) (simp add: u_def spans_upd_span)
  with run t(3,4) show ?thesis by auto
qed

text \<open>For the witness: a broker, and a message without application headers.\<close>

definition sample_amqp_env :: env where
  "sample_amqp_env = sample_env\<lparr>php_call := (\<lambda>l c args.
     if c = GlobalFn ''class_exists'' then Inr (ZBool True)
     else if c = NewObject TABLE_CLASS then Inr (ZObj (Zobj 9 TABLE_CLASS []))
     else if c = MethodOf 8 ''has'' then Inr (ZBool False)
     else if c = MethodOf 8 ''get'' then Inr (ZObj (Zobj 9 TABLE_CLASS []))
     else Inr ZNull)\<rparr>"

lemma sample_amqp_env_sel [simp]:
  "class_exists sample_amqp_env = (\<lambda>l c. True)"
  "php_call sample_amqp_env l (GlobalFn ''class_exists'') args = Inr (ZBool True)"
  "php_call sample_amqp_env l (NewObject TABLE_CLASS) args = Inr (ZObj (Zobj 9 TABLE_CLASS []))"
  "php_call sample_amqp_env l (MethodOf 8 ''has'') args = Inr (ZBool False)"
  "php_call sample_amqp_env l (MethodOf 8 ''get'') args = Inr (ZObj (Zobj 9 TABLE_CLASS []))"
  "php_call sample_amqp_env l (MethodOf h ''set'') args = Inr ZNull"
  by (simp_all add: sample_amqp_env_def)

theorem publish_injects_header_witness:
  "\<exists>i s'. amqp_publish_before sample_amqp_env CHANNEL_CLASS ''basic_publish'' None
      (sample_frame None None (Some (sample_obj CHANNEL_CLASS)) [ZObj (Zobj 8 ''Message'' []), ZStr ''exchange'']) sample_agent =
      (Ok (DSpan i, sample_frame None None (Some (sample_obj CHANNEL_CLASS)) [ZObj (Zobj 8 ''Message'' []), ZStr ''exchange'']), s') \<and>
     last (log s') = PhpCall (MethodOf 8 ''set'') [ZStr HEADER_NAME, ZObj (Zobj 9 TABLE_CLASS [])]"
  using publish_injects_header [where E = sample_amqp_env and cn = CHANNEL_CLASS and fn = "''basic_publish''"
      and ed = "sample_frame None None (Some (sample_obj CHANNEL_CLASS)) [ZObj (Zobj 8 ''Message'' []), ZStr ''exchange'']"
      and s = sample_agent and rid = None and c = sample_ctx and this = "sample_obj CHANNEL_CLASS"
      and m = "Zobj 8 ''Message'' []" and b = False and headers = "Zobj 9 TABLE_CLASS []" and table = "ZObj (Zobj 9 TABLE_CLASS [])"]
  by fastforce

end
