(* ===== verification/Mongodb.thy ===== *)
theory Mongodb
  imports Samples
begin

text \<open>
  \<^verbatim>\<open>src/src/plugin/plugin_mongodb.rs\<close>: the hooks of \<^verbatim>\<open>MongoDB\Driver\Manager\<close>.  The driver
  connects lazily, so the peer is set in the after hook from the servers it then knows.
\<close>

definition MANAGER_CLASS_NAME :: bytes where
  "MANAGER_CLASS_NAME = class_path [''MongoDB'', ''Driver'', ''Manager'']"

definition mongodb_class_names :: "bytes list option" where [simp]:
  "mongodb_class_names = Some [MANAGER_CLASS_NAME]"

definition mongodb_function_name_prefix :: "bytes option" where [simp]:
  "mongodb_function_name_prefix = None"

definition mongodb_hook :: "bytes option \<Rightarrow> bytes \<Rightarrow> hook_id option" where
  "mongodb_hook class_name f =
     (if class_name = Some MANAGER_CLASS_NAME then
        (if to_ascii_lowercase f \<in> {''executebulkwrite'', ''executequery''} then Some (HMongoNamespace f)
         else if to_ascii_lowercase f \<in>
             {''executecommand'', ''executereadcommand'', ''executereadwritecommand'', ''executewritecommand''}
         then Some (HMongoDb f) else None)
      else None)"

datatype crud_scope = Namespace | Db

fun scope_tags :: "crud_scope \<Rightarrow> bytes \<Rightarrow> span_call list" where
  "scope_tags Namespace ns =
     (case split (CHR ''.'') ns of
        [] \<Rightarrow> []
      | [db] \<Rightarrow> [AddTag ''mongo.db'' db]
      | db # collection # _ \<Rightarrow> [AddTag ''mongo.db'' db, AddTag ''mongo.collection'' collection])"
| "scope_tags Db name = [AddTag ''mongo.db'' name]"

definition before_manager_crud_hook :: "bytes \<Rightarrow> crud_scope \<Rightarrow> before_hook" where
  "before_manager_crud_hook function_name scope rid ed =
     andthen (lift (get_this_mut ed)) (\<lambda>this.
     with_exit_span rid (MANAGER_CLASS_NAME @ ''->'' @ function_name) [] ed (\<lambda>i.
       on_span i ([SetLayer LayerDatabase, SetComponent COMPONENT_MONGODB_ID, AddTag TAG_DB_TYPE ''MongoDB''] @
         (case z_val_to_string (get_parameter ed 0) of Some t \<Rightarrow> scope_tags scope t | None \<Rightarrow> []))))"

text \<open>The loop over the servers; \<open>addr\<close> are the addresses so far.\<close>

fun server_addresses :: "env \<Rightarrow> zarr \<Rightarrow> bytes list \<Rightarrow> bytes list agent_act" where
  "server_addresses E [] addr = ret addr"
| "server_addresses E ((k, server) # rest) addr =
     andthen (lift (expect ''object'' (as_z_obj server))) (\<lambda>server.
     andthen (call_method E server ''getHost'' []) (\<lambda>h.
     andthen (lift (expect ''string'' (as_z_str h))) (\<lambda>raw.
     andthen (lift (expect_utf8 raw)) (\<lambda>host.
     andthen (call_method E server ''getPort'' []) (\<lambda>p.
     andthen (lift (expect ''long'' (as_long p))) (\<lambda>port.
     server_addresses E rest (addr @ [host @ '':'' @ show_i64 port])))))))"

definition mongodb_get_peer :: "env \<Rightarrow> zobj \<Rightarrow> bytes agent_act" where
  "mongodb_get_peer E this =
     andthen (call_method E this ''getServers'' []) (\<lambda>servers.
     andthen (lift (expect ''array'' (as_z_arr servers))) (\<lambda>servers.
     andthen (server_addresses E servers []) (\<lambda>addr.
     ret (join '';'' addr))))"

definition after_manager_crud_hook :: "env \<Rightarrow> after_hook" where
  "after_manager_crud_hook E rid d ed rv =
     downcast_span d (\<lambda>i.
     andthen (lift (get_this_mut ed)) (\<lambda>this.
     andthen (attempt (mongodb_get_peer E this)) (\<lambda>r.
     andthen (case r of Ok p \<Rightarrow> ret p | Err e \<Rightarrow> ret [] | Panic q \<Rightarrow> panic q) (\<lambda>p.
     andthen (on_span i [SetPeer p]) (\<lambda>_.
     andthen (log_exception E i) (\<lambda>_. ret ()))))))"

text \<open>The two pairs of closures.\<close>

definition hook_manager_execute_namespace_method :: "env \<Rightarrow> bytes \<Rightarrow> before_hook \<times> after_hook" where [simp]:
  "hook_manager_execute_namespace_method E function_name =
     (before_manager_crud_hook function_name Namespace, after_manager_crud_hook E)"

definition hook_manager_execute_db_method :: "env \<Rightarrow> bytes \<Rightarrow> before_hook \<times> after_hook" where [simp]:
  "hook_manager_execute_db_method E function_name =
     (before_manager_crud_hook function_name Db, after_manager_crud_hook E)"

section \<open>Contract\<close>

lemma quiet_server_addresses [intro, simp]: "quiet (server_addresses E servers addr)"
proof (induction servers arbitrary: addr)
  case (Cons a servers)
  obtain k v where "a = (k, v)" by fastforce
  then show ?case by (simp only: server_addresses.simps) (intro quiet_intros Cons.IH)
qed (simp only: server_addresses.simps quiet_basic)

lemma quiet_mongodb_get_peer [intro, simp]: "quiet (mongodb_get_peer E this)"
  unfolding mongodb_get_peer_def by (intro quiet_intros quiet_server_addresses)

interpretation mongodb: span_hook "before_manager_crud_hook fn scope" "after_manager_crud_hook E" for fn scope E
proof
  show "before_spec (before_manager_crud_hook fn scope rid ed)" for rid ed
    unfolding before_manager_crud_hook_def by (intro before_spec_andthen with_exit_span_spec quiet_intros)
  show "after_spec d (after_manager_crud_hook E rid d ed rv)" for d rid ed rv
    unfolding after_manager_crud_hook_def
    by (intro downcast_span_spec quiet_intros quiet_mongodb_get_peer quiet_log_exception)
qed

section \<open>Properties\<close>

lemma server_addresses_ok:
  assumes "\<forall>l ob. php_call E l (MethodOf (obj_handle ob) ''getHost'') [] = Inr (ZStr (host ob))"
    and "\<forall>l ob. php_call E l (MethodOf (obj_handle ob) ''getPort'') [] = Inr (ZLong (port ob))"
    and "\<forall>ob. utf8_valid (host ob)"
  shows "\<exists>t. server_addresses E (map (\<lambda>(k, ob). (k, ZObj ob)) servers) addr s =
       (Ok (addr @ map (\<lambda>(k, ob). host ob @ '':'' @ show_i64 (port ob)) servers), t) \<and>
     spans t = spans s \<and> finished t = finished s"
proof (induction servers arbitrary: addr s)
  case (Cons a servers)
  obtain k ob where a: "a = (k, ob)" by fastforce
  show ?case
    using assms Cons.IH [of "addr @ [host ob @ '':'' @ show_i64 (port ob)]"
        "emit (PhpCall (MethodOf (obj_handle ob) ''getPort'') [])
           (emit (PhpCall (MethodOf (obj_handle ob) ''getHost'') []) s)"]
    by (simp add: a call_method_def call_result_def)
qed simp

text \<open>
  The peer of a MongoDB operation: when the operation has finished, the span's peer is set
  to the addresses of all servers the manager knows, in their order and separated by
  semicolons, and the span is finished.
\<close>

theorem mongodb_peer_lists_servers:
  assumes obj: "this_obj ed = Some this" and open_span: "spans s i = Some sp"
    and no_exception: "\<forall>l. pending_exception E l = None"
    and servers: "\<forall>l. php_call E l (MethodOf (obj_handle this) ''getServers'') [] =
        Inr (ZArr (map (\<lambda>(k, ob). (k, ZObj ob)) servers))"
    and host: "\<forall>l ob. php_call E l (MethodOf (obj_handle ob) ''getHost'') [] = Inr (ZStr (host ob))" "\<forall>ob. utf8_valid (host ob)"
    and port: "\<forall>l ob. php_call E l (MethodOf (obj_handle ob) ''getPort'') [] = Inr (ZLong (port ob))"
  shows "\<exists>s'. after_manager_crud_hook E rid (DSpan i) ed rv s = (Ok (), s') \<and>
     finished s' = finished s @ [sp\<lparr>sp_calls := sp_calls sp @
       [SetPeer (join '';'' (map (\<lambda>(k, ob). host ob @ '':'' @ show_i64 (port ob)) servers))]\<rparr>]"
proof -
  define s0 where "s0 = emit (PhpCall (MethodOf (obj_handle this) ''getServers'') []) s"
  obtain t where t: "server_addresses E (map (\<lambda>(k, ob). (k, ZObj ob)) servers) [] s0 =
      (Ok (map (\<lambda>(k, ob). host ob @ '':'' @ show_i64 (port ob)) servers), t)"
    and sel: "spans t = spans s" "finished t = finished s"
    using server_addresses_ok [OF host(1) port host(2), of servers "[]" s0] by (auto simp: s0_def)
  have "mongodb_get_peer E this s = (Ok (join '';'' (map (\<lambda>(k, ob). host ob @ '':'' @ show_i64 (port ob)) servers)), t)"
    using servers t by (simp add: mongodb_get_peer_def call_method_def call_result_def s0_def [symmetric]
        andthen_eqs(1) [where m = "server_addresses E (map (\<lambda>(k, ob). (k, ZObj ob)) servers) []", OF t])
  then show ?thesis
    using obj no_exception open_span sel
    by (simp add: after_manager_crud_hook_def downcast_span_def on_exit_def finished_close_span spans_upd_span)
qed

theorem mongodb_peer_lists_servers_witness:
  "\<exists>s'. after_manager_crud_hook (sample_env\<lparr>php_call := (\<lambda>l c args.
       if c = MethodOf 7 ''getServers'' then Inr (ZArr [(Index 0, ZObj (Zobj 8 [] [])), (Index 1, ZObj (Zobj 9 [] []))])
       else if (\<exists>h. c = MethodOf h ''getHost'') then Inr (ZStr ''m'') else Inr (ZLong 27017))\<rparr>) None (DSpan 2)
      (sample_frame None None (Some (sample_obj MANAGER_CLASS_NAME)) []) ZNull sample_in_flight = (Ok (), s') \<and>
     length (finished s') = 1"
  using mongodb_peer_lists_servers [where E = "sample_env\<lparr>php_call := (\<lambda>l c args.
       if c = MethodOf 7 ''getServers'' then Inr (ZArr [(Index 0, ZObj (Zobj 8 [] [])), (Index 1, ZObj (Zobj 9 [] []))])
       else if (\<exists>h. c = MethodOf h ''getHost'') then Inr (ZStr ''m'') else Inr (ZLong 27017))\<rparr>"
      and ed = "sample_frame None None (Some (sample_obj MANAGER_CLASS_NAME)) []" and this = "sample_obj MANAGER_CLASS_NAME"
      and s = sample_in_flight and i = 2 and sp = sample_exit and rid = None and rv = ZNull
      and servers = "[(Index 0, Zobj 8 [] []), (Index 1, Zobj 9 [] [])]" and host = "\<lambda>ob. ''m''" and port = "\<lambda>ob. 27017"]
  by fastforce

end
