(* ===== verification/Memcache.thy ===== *)
theory Memcache
  imports Memcached
begin

text \<open>
  \<^verbatim>\<open>src/src/plugin/plugin_memcache.rs\<close>: the hooks of the classes \<^verbatim>\<open>Memcache\<close> and
  \<^verbatim>\<open>MemcachePool\<close> and of the functions \<^verbatim>\<open>memcache_*\<close>, and the cache of peers per object,
  which is filled from \<^verbatim>\<open>getExtendedStats\<close> and dropped when the servers change.  The
  tag record and the tags of a span are the ones of the memcached plugin (the source repeats
  them).
\<close>

section \<open>Method tables and selection\<close>

definition MEMCACHE_EMPTY_METHOD_MAPPING :: "(bytes \<times> tag_info) list" where
  "MEMCACHE_EMPTY_METHOD_MAPPING = [(''flush'', tag_info_new None None)]"

definition MEMCACHE_KEY_METHOD_MAPPING :: "(bytes \<times> tag_info) list" where
  "MEMCACHE_KEY_METHOD_MAPPING =
     [(''set'', tag_info_new (Some ''set'') (Some Write)),
      (''add'', tag_info_new (Some ''add'') (Some Write)),
      (''replace'', tag_info_new (Some ''replace'') (Some Write)),
      (''get'', tag_info_new (Some ''get'') (Some Read)),
      (''delete'', tag_info_new (Some ''delete'') (Some Write)),
      (''increment'', tag_info_new (Some ''increment'') (Some Write)),
      (''decrement'', tag_info_new (Some ''decrement'') (Some Write))]"

definition MEMCACHE_PREFIX :: bytes where
  "MEMCACHE_PREFIX = ''memcache_''"

text \<open>
  The arms of the \<^verbatim>\<open>match\<close> in their order; the guards of the procedural arms slice the name,
  which panics for a name shorter than the prefix.
\<close>

definition memcache_class_names :: "bytes list option" where [simp]:
  "memcache_class_names = Some [''Memcache'', ''MemcachePool'']"

definition memcache_function_name_prefix :: "bytes option" where [simp]:
  "memcache_function_name_prefix = Some MEMCACHE_PREFIX"

definition memcache_hook :: "bytes option \<Rightarrow> bytes \<Rightarrow> hook_id option outcome" where
  "memcache_hook class_name function_name =
     (let f = to_ascii_lowercase function_name; n = length MEMCACHE_PREFIX in
      case class_name of
        Some c \<Rightarrow>
          Ok (if c \<in> {''Memcache'', ''MemcachePool''} then
                (if f \<in> {''connect'', ''addserver'', ''close''} then
                   Some (HMemcacheServer class_name function_name ObjectOriented)
                 else if has_method MEMCACHE_EMPTY_METHOD_MAPPING f then
                   Some (HMemcacheEmpty class_name function_name ObjectOriented)
                 else if has_method MEMCACHE_KEY_METHOD_MAPPING f then
                   Some (HMemcacheKey class_name function_name ObjectOriented)
                 else None)
              else None)
      | None \<Rightarrow>
          if f \<in> {''memcache_add_server'', ''memcache_close''} then
            Ok (Some (HMemcacheServer None function_name Procedural))
          else
            (case str_slice_from n f of
               Ok key \<Rightarrow>
                 if has_method MEMCACHE_EMPTY_METHOD_MAPPING key then
                   Ok (Some (HMemcacheEmpty None function_name Procedural))
                 else if has_method MEMCACHE_KEY_METHOD_MAPPING key then
                   Ok (Some (HMemcacheKey None function_name Procedural))
                 else Ok None
             | Err e \<Rightarrow> Err e
             | Panic p \<Rightarrow> Panic p))"

fun get_tag_key :: "bytes option \<Rightarrow> bytes \<Rightarrow> bytes outcome" where
  "get_tag_key (Some c) function_name = Ok (to_ascii_lowercase function_name)"
| "get_tag_key None function_name = str_slice_from (length MEMCACHE_PREFIX) function_name"

section \<open>Peers and spans\<close>

fun iter_key_name :: "zkey \<Rightarrow> bytes" where
  "iter_key_name (Index i) = show_i64 i"
| "iter_key_name (Key s) = (case to_str s of Some t \<Rightarrow> t | None \<Rightarrow> [])"

definition stats_peer :: "zval \<Rightarrow> bytes" where
  "stats_peer stats =
     (case as_z_arr stats of Some a \<Rightarrow> join '','' (map (\<lambda>(k, _). iter_key_name k) a) | None \<Rightarrow> [])"

definition put_memcache_peer :: "u32 \<Rightarrow> bytes \<Rightarrow> agent \<Rightarrow> agent" where
  "put_memcache_peer h p s = s\<lparr>memcache_peers := (memcache_peers s)(h \<mapsto> p)\<rparr>"

definition del_memcache_peer :: "u32 \<Rightarrow> agent \<Rightarrow> agent" where
  "del_memcache_peer h s = s\<lparr>memcache_peers := map_remove (memcache_peers s) h\<rparr>"

text \<open>\<^verbatim>\<open>entry(handle).or_insert_with(...)\<close>: an error counts as an empty peer and is kept too.\<close>

definition memcache_get_peer :: "env \<Rightarrow> zobj \<Rightarrow> bytes agent_act" where
  "memcache_get_peer E this =
     andthen (reads (\<lambda>s. memcache_peers s (obj_handle this))) (\<lambda>cached.
     case cached of Some p \<Rightarrow> ret p
     | None \<Rightarrow>
         andthen (attempt (call_method E this ''getExtendedStats'' [])) (\<lambda>r.
         andthen (case r of Ok stats \<Rightarrow> ret (stats_peer stats) | Err e \<Rightarrow> ret [] | Panic q \<Rightarrow> panic q) (\<lambda>p.
         andthen (modify (put_memcache_peer (obj_handle this) p)) (\<lambda>_. ret p))))"

definition memcache_span ::
  "api_style \<Rightarrow> i64 option \<Rightarrow> bytes option \<Rightarrow> bytes \<Rightarrow> bytes \<Rightarrow> tag_info \<Rightarrow> bytes option \<Rightarrow> exec_data \<Rightarrow>
   (hook_data \<times> exec_data) agent_act" where
  "memcache_span st rid class_name function_name remote_peer ti key ed =
     with_exit_span rid (generate_operation_name st class_name function_name) remote_peer ed
       (\<lambda>i. on_span i (cache_calls ti key))"

section \<open>Hooks\<close>

definition memcache_server_before :: "api_style \<Rightarrow> before_hook" where
  "memcache_server_before st rid ed =
     andthen (lift (style_this_mut st ed)) (\<lambda>this.
     andthen (modify (del_memcache_peer (obj_handle this))) (\<lambda>_.
     ret (DUnit, ed)))"

definition lookup_tags :: "(bytes \<times> tag_info) list \<Rightarrow> bytes option \<Rightarrow> bytes \<Rightarrow> tag_info outcome" where
  "lookup_tags tbl class_name function_name =
     (case get_tag_key class_name function_name of
        Ok k \<Rightarrow> (case map_of tbl k of Some ti \<Rightarrow> Ok ti | None \<Rightarrow> Panic unwrap_none)
      | Err e \<Rightarrow> Err e
      | Panic p \<Rightarrow> Panic p)"

definition memcache_empty_before :: "env \<Rightarrow> bytes option \<Rightarrow> bytes \<Rightarrow> api_style \<Rightarrow> before_hook" where
  "memcache_empty_before E class_name function_name st rid ed =
     andthen (lift (lookup_tags MEMCACHE_EMPTY_METHOD_MAPPING class_name function_name)) (\<lambda>ti.
     andthen (lift (style_this_mut st ed)) (\<lambda>this.
     andthen (memcache_get_peer E this) (\<lambda>pr.
     memcache_span st rid class_name function_name pr ti None ed)))"

definition memcache_key_before :: "env \<Rightarrow> bytes option \<Rightarrow> bytes \<Rightarrow> api_style \<Rightarrow> before_hook" where
  "memcache_key_before E class_name function_name st rid ed =
     andthen (lift (lookup_tags MEMCACHE_KEY_METHOD_MAPPING class_name function_name)) (\<lambda>ti.
     let key = (case z_val_to_string (style_parameter st ed 0) of Some k \<Rightarrow> k | None \<Rightarrow> []) in
     andthen (lift (style_this_mut st ed)) (\<lambda>this.
     andthen (memcache_get_peer E this) (\<lambda>pr.
     memcache_span st rid class_name function_name pr ti (Some key) ed)))"

definition memcache_after_hook :: "env \<Rightarrow> after_hook" where
  "memcache_after_hook E rid d ed rv =
     expect_span d (\<lambda>i. andthen (mark_false i rv) (\<lambda>_. andthen (log_exception E i) (\<lambda>_. ret ())))"

section \<open>Contract\<close>

lemma memcache_peer_sel [simp]:
  "span_view (put_memcache_peer h p s) = span_view s" "span_view (del_memcache_peer h s) = span_view s"
  "memcache_peers (put_memcache_peer h p s) = (memcache_peers s)(h \<mapsto> p)"
  "memcache_peers (del_memcache_peer h s) = map_remove (memcache_peers s) h"
  "request_context (put_memcache_peer h p s) = request_context s"
  "request_context (del_memcache_peer h s) = request_context s"
  "spans (put_memcache_peer h p s) = spans s" "next_id (put_memcache_peer h p s) = next_id s"
  "log (put_memcache_peer h p s) = log s" "log (del_memcache_peer h s) = log s"
  by (simp_all add: put_memcache_peer_def del_memcache_peer_def)

interpretation memcache_table:
  keyed_table memcache_peers put_memcache_peer del_memcache_peer
  by unfold_locales simp_all

lemma quiet_memcache_get_peer [intro, simp]: "quiet (memcache_get_peer E this)"
  unfolding memcache_get_peer_def by (intro quiet_intros) simp

interpretation memcache_server: silent_hook "memcache_server_before st" for st
proof
  show "quiet (memcache_server_before st rid ed)" for rid ed
    unfolding memcache_server_before_def by (intro quiet_intros) simp
  show "holds_none (memcache_server_before st rid ed)" for rid ed
    unfolding memcache_server_before_def by (intro holds_none_intros) simp
qed

lemma memcache_after_spec [intro]: "after_spec d (memcache_after_hook E rid d ed rv)"
  unfolding memcache_after_hook_def
  by (intro expect_span_spec quiet_intros quiet_mark_false quiet_log_exception)

lemma memcache_span_spec [intro]: "before_spec (memcache_span st rid cn fn pr ti key ed)"
  unfolding memcache_span_def by (intro with_exit_span_spec quiet_intros)

interpretation memcache_empty: span_hook "memcache_empty_before E cn fn st" "memcache_after_hook E" for E cn fn st
proof
  show "before_spec (memcache_empty_before E cn fn st rid ed)" for rid ed
    unfolding memcache_empty_before_def
    by (intro before_spec_andthen memcache_span_spec quiet_intros quiet_memcache_get_peer)
qed (rule memcache_after_spec)

interpretation memcache_key: span_hook "memcache_key_before E cn fn st" "memcache_after_hook E" for E cn fn st
proof
  show "before_spec (memcache_key_before E cn fn st rid ed)" for rid ed
    unfolding memcache_key_before_def Let_def
    by (intro before_spec_andthen memcache_span_spec quiet_intros quiet_memcache_get_peer)
qed (rule memcache_after_spec)

section \<open>Properties\<close>

text \<open>
  Selection is safe: for a function name with the plugin's prefix, as the dispatcher
  guarantees for functions outside a class, choosing the hook never panics, although the
  guards slice the name; methods are chosen by their whole name and never slice.
\<close>

theorem memcache_hook_no_panic:
  assumes "cls = None \<longrightarrow> utf8_valid f \<and> starts_with f MEMCACHE_PREFIX"
  shows "\<exists>h. memcache_hook cls f = Ok h"
proof (cases cls)
  case None
  with assms have "str_slice_from (length MEMCACHE_PREFIX) f = Ok (drop (length MEMCACHE_PREFIX) f)"
    by (intro str_slice_prefix) (simp_all add: MEMCACHE_PREFIX_def)
  from str_slice_lower [OF this] None show ?thesis by (simp add: memcache_hook_def Let_def)
qed (simp add: memcache_hook_def Let_def)

theorem memcache_hook_no_panic_witness: "\<exists>h. memcache_hook None ''memcache_get'' = Ok h"
  using memcache_hook_no_panic [of None "''memcache_get''"]
  by (simp add: MEMCACHE_PREFIX_def starts_with_def)

text \<open>
  (C27) The cache of peers: the first operation on an object asks the extension for its servers,
  later ones with the same handle use the remembered answer without asking, until a hooked
  change of the servers forgets it; other objects keep theirs.
\<close>

theorem memcache_peer_cached:
  assumes unknown: "memcache_peers s (obj_handle this) = None"
    and stats: "call_result E s (MethodOf (obj_handle this) ''getExtendedStats'') [] = Ok (ZArr a)"
    and first: "memcache_get_peer E this s = (r, s1)"
    and server: "style_this_mut st ed = Ok this"
  shows "r = Ok (join '','' (map (\<lambda>(k, _). iter_key_name k) a)) \<and>
     (\<forall>E' that. obj_handle that = obj_handle this \<longrightarrow> memcache_get_peer E' that s1 = (r, s1)) \<and>
     (\<exists>s2. memcache_server_before st rid ed s1 = (Ok (DUnit, ed), s2) \<and> memcache_peers s2 = memcache_peers s)"
  using first unknown server
  by (auto simp: memcache_get_peer_def andthen_def [of "call_method E this x y" for x y]
      call_method_def call_eq stats stats_peer_def memcache_server_before_def map_remove_insert)

theorem memcache_peer_cached_witness:
  "\<exists>r s1. memcache_get_peer (sample_env\<lparr>php_call := (\<lambda>l c args. Inr (ZArr [(Key ''m:11211'', ZNull)]))\<rparr>)
      (sample_obj ''Memcache'') sample_agent = (r, s1) \<and> r = Ok ''m:11211''"
proof -
  let ?E = "sample_env\<lparr>php_call := (\<lambda>l c args. Inr (ZArr [(Key ''m:11211'', ZNull)]))\<rparr>"
  let ?ed = "sample_frame None None (Some (sample_obj ''Memcache'')) []"
  obtain r s1 where run: "memcache_get_peer ?E (sample_obj ''Memcache'') sample_agent = (r, s1)" by fastforce
  have stats: "call_result ?E sample_agent (MethodOf (obj_handle (sample_obj ''Memcache'')) ''getExtendedStats'') [] =
      Ok (ZArr [(Key ''m:11211'', ZNull)])"
    by (simp add: call_result_def)
  from memcache_peer_cached [OF _ stats run, of ObjectOriented ?ed None] run show ?thesis
    by (simp add: to_str_def)
qed

end
