(* ===== verification/Psr3.thy ===== *)
theory Psr3
  imports Samples
begin

text \<open>
  \<^verbatim>\<open>src/src/plugin/plugin_psr3.rs\<close>: the hooks of loggers that implement
  \<^verbatim>\<open>Psr\Log\LoggerInterface\<close>.  A message at or above the configured level is reported with the
  trace of the request, and the string keys of its context become tags.
\<close>

definition LOGGER_INTERFACE :: bytes where
  "LOGGER_INTERFACE = class_path [''Psr'', ''Log'', ''LoggerInterface'']"

definition psr3_class_names :: "bytes list option" where [simp]:
  "psr3_class_names = None"

definition psr3_function_name_prefix :: "bytes option" where [simp]:
  "psr3_function_name_prefix = None"

definition psr3_hook :: "psr_level \<Rightarrow> bytes option \<Rightarrow> bytes \<Rightarrow> hook_id option" where
  "psr3_hook threshold class_name function_name =
     (case class_name of None \<Rightarrow> None
      | Some cn \<Rightarrow>
          if to_uppercase function_name \<in>
               {''EMERGENCY'', ''ALERT'', ''CRITICAL'', ''ERROR'', ''WARNING'', ''NOTICE'', ''INFO'', ''DEBUG''}
          then (if threshold \<le> level_of_str function_name
                then Some (HPsrLogMethods cn function_name (level_of_str function_name)) else None)
          else if to_uppercase function_name = ''LOG'' then Some (HPsrLog cn function_name)
          else None)"

definition cast_object_to_string :: "env \<Rightarrow> zobj \<Rightarrow> bytes option agent_act" where
  "cast_object_to_string E ob =
     andthen (call E (GlobalFn ''method_exists'') [ZObj ob, ZStr ''__toString'']) (\<lambda>r.
     if as_bool r = Some True then
       andthen (call_method E ob ''__toString'' []) (\<lambda>v.
       andthen (lift (expect ''string'' (as_z_str v))) (\<lambda>raw.
       andthen (lift (expect_utf8 raw)) (\<lambda>t. ret (Some t))))
     else ret None)"

definition handle_message :: "env \<Rightarrow> zval \<Rightarrow> bytes agent_act" where
  "handle_message E message =
     (case as_z_str message of
        Some raw \<Rightarrow> lift (expect_utf8 raw)
      | None \<Rightarrow>
          (case as_z_obj message of
             Some ob \<Rightarrow>
               andthen (cast_object_to_string E ob) (\<lambda>r.
               case r of Some t \<Rightarrow> ret t | None \<Rightarrow> fail (Anyhow ''message hasn't __toString method''))
           | None \<Rightarrow> fail (Anyhow ''unknown message type'')))"

text \<open>The text of one context value; \<open>None\<close> when the entry is skipped.\<close>

definition context_value :: "env \<Rightarrow> zval \<Rightarrow> bytes option agent_act" where
  "context_value E v =
     (case v of
        ZNull \<Rightarrow> ret (Some ''null'')
      | ZBool b \<Rightarrow> ret (Some (if b then ''true'' else ''false''))
      | ZLong n \<Rightarrow> ret (Some (show_i64 n))
      | ZDouble d \<Rightarrow> ret (Some (show_f64 E d))
      | ZStr raw \<Rightarrow> andthen (lift (expect_utf8 raw)) (\<lambda>t. ret (Some t))
      | ZArr a \<Rightarrow> ret (Some ''Array'')
      | ZObj ob \<Rightarrow> cast_object_to_string E ob
      | ZRes h \<Rightarrow> ret None
      | ZRef w \<Rightarrow> ret None)"

fun context_tags :: "env \<Rightarrow> zarr \<Rightarrow> (bytes \<times> bytes) list \<Rightarrow> (bytes \<times> bytes) list agent_act" where
  "context_tags E [] tags = ret tags"
| "context_tags E ((Index i, v) # rest) tags = context_tags E rest tags"
| "context_tags E ((Key k, v) # rest) tags =
     andthen (lift (expect_utf8 k)) (\<lambda>key.
     andthen (context_value E v) (\<lambda>value.
     context_tags E rest (case value of None \<Rightarrow> tags | Some t \<Rightarrow> tags @ [(key, t)])))"

definition handle_context :: "env \<Rightarrow> zval \<Rightarrow> (bytes \<times> bytes) list agent_act" where
  "handle_context E v = (case as_z_arr v of None \<Rightarrow> ret [] | Some a \<Rightarrow> context_tags E a [])"

definition handle_log ::
  "bytes \<Rightarrow> psr_level \<Rightarrow> i64 option \<Rightarrow> bytes \<Rightarrow> (bytes \<times> bytes) list \<Rightarrow> unit agent_act" where
  "handle_log class_name log_level rid message tags =
     try_with_global rid (\<lambda>c.
     andthen (reads (\<lambda>s. operation_of s (entry_span c))) (\<lambda>endpoint.
     modify (emit (LogReported
       \<lparr>lr_content = message, lr_ctx = tracing_context c, lr_endpoint = endpoint, lr_span = entry_span c,
        lr_tags = [(''level'', level_display log_level), (''logger'', class_name)] @ tags\<rparr>))))"

definition psr_log_methods_before :: "env \<Rightarrow> bytes \<Rightarrow> bytes \<Rightarrow> psr_level \<Rightarrow> before_hook" where
  "psr_log_methods_before E class_name function_name log_level rid ed =
     andthen (handle_message E (get_parameter ed 0)) (\<lambda>message.
     andthen (handle_context E (get_parameter ed 1)) (\<lambda>tags.
     andthen (handle_log class_name log_level rid message tags) (\<lambda>_.
     ret (DUnit, ed))))"

definition psr_log_before :: "env \<Rightarrow> bytes \<Rightarrow> bytes \<Rightarrow> before_hook" where
  "psr_log_before E class_name function_name rid ed =
     andthen (lift (expect ''string'' (as_z_str (get_parameter ed 0)))) (\<lambda>raw.
     andthen (lift (expect_utf8 raw)) (\<lambda>lvl.
     let log_level = level_of_str lvl in
     if log_level < psr_logging_level (cfg E) then ret (DUnit, ed)
     else
       andthen (handle_message E (get_parameter ed 1)) (\<lambda>message.
       andthen (handle_context E (get_parameter ed 2)) (\<lambda>tags.
       andthen (handle_log class_name log_level rid message tags) (\<lambda>_.
       ret (DUnit, ed))))))"

section \<open>Contract\<close>

lemma quiet_cast [intro, simp]: "quiet (cast_object_to_string E ob)"
  unfolding cast_object_to_string_def by (intro quiet_intros)

lemma quiet_handle_message [intro, simp]: "quiet (handle_message E v)"
  unfolding handle_message_def by (intro quiet_intros quiet_cast)

lemma quiet_context_value [intro, simp]: "quiet (context_value E v)"
  by (cases v) (auto simp: context_value_def intro!: quiet_intros)

lemma quiet_context_tags [intro, simp]: "quiet (context_tags E a tags)"
proof (induction a arbitrary: tags)
  case (Cons e a)
  have "quiet (context_tags E ((Key k, v) # a) tags)" for k v
    unfolding context_tags.simps by (intro quiet_intros quiet_context_value Cons.IH)
  with Cons.IH show ?case by (cases e rule: prod.exhaust; cases "fst e") auto
qed (simp only: context_tags.simps quiet_basic)

lemma quiet_handle_context [intro, simp]: "quiet (handle_context E v)"
  unfolding handle_context_def by (intro quiet_intros quiet_context_tags)

lemma quiet_handle_log [intro, simp]: "quiet (handle_log cn l rid m tags)"
  unfolding handle_log_def by (intro quiet_try_with_global quiet_intros) simp

interpretation psr_methods: silent_hook "psr_log_methods_before E cn fn l" for E cn fn l
proof
  show "quiet (psr_log_methods_before E cn fn l rid ed)" for rid ed
    unfolding psr_log_methods_before_def
    by (intro quiet_intros quiet_handle_message quiet_handle_context quiet_handle_log)
  show "holds_none (psr_log_methods_before E cn fn l rid ed)" for rid ed
    unfolding psr_log_methods_before_def by (intro holds_none_intros) simp
qed

interpretation psr_log: silent_hook "psr_log_before E cn fn" for E cn fn
proof
  show "quiet (psr_log_before E cn fn rid ed)" for rid ed
    unfolding psr_log_before_def Let_def
    by (intro quiet_intros quiet_handle_message quiet_handle_context quiet_handle_log)
  show "holds_none (psr_log_before E cn fn rid ed)" for rid ed
    unfolding psr_log_before_def Let_def by (intro holds_none_intros) simp_all
qed

section \<open>Properties\<close>

lemma context_tags_strings:
  "\<forall>(k, v) \<in> set kvs. utf8_valid k \<and> utf8_valid v \<Longrightarrow>
   context_tags E (map (\<lambda>(k, v). (Key k, ZStr v)) kvs) tags s = (Ok (tags @ kvs), s)"
  by (induction kvs arbitrary: tags) (auto simp: context_value_def)

text \<open>
  (C33) The level filter of \<^verbatim>\<open>log(level, message, context)\<close>: a message whose level, in any case of
  letters, is below the configured one (an unknown level is below every one) leaves the
  agent as it was; at or above it exactly one record is reported, with the message, the
  request's trace, the entry span's operation as endpoint and the context as tags.
\<close>

theorem psr_log_reports:
  assumes ctx: "request_context s rid = Some c"
    and lvl: "get_parameter ed 0 = ZStr l" "utf8_valid l"
    and message: "get_parameter ed 1 = ZStr m" "utf8_valid m"
    and tags: "get_parameter ed 2 = ZArr (map (\<lambda>(k, v). (Key k, ZStr v)) kvs)"
      "\<forall>(k, v) \<in> set kvs. utf8_valid k \<and> utf8_valid v"
  shows "psr_log_before E cn fn rid ed s =
     (Ok (DUnit, ed),
      if psr_logging_level (cfg E) \<le> level_of_str l
      then emit (LogReported \<lparr>lr_content = m, lr_ctx = tracing_context c,
             lr_endpoint = operation_of s (entry_span c), lr_span = entry_span c,
             lr_tags = [(''level'', level_display (level_of_str l)), (''logger'', cn)] @ kvs\<rparr>) s
      else s)"
  using lvl message context_tags_strings [OF tags(2), of E "[]" s]
  by (simp add: psr_log_before_def handle_message_def handle_context_def tags(1) not_less [symmetric] Let_def
      andthen_def [of "context_tags E x y" for x y] handle_log_def try_with_global_eq ctx
      andthen_def [of "try_with_global x y" for x y])

theorem psr_log_reports_witness:
  "fst (psr_log_before sample_env ''App'' ''log'' None
     (sample_frame None None None [ZStr ''error'', ZStr ''boom'', ZArr [(Key ''code'', ZStr ''7'')]]) sample_agent) =
   Ok (DUnit, sample_frame None None None [ZStr ''error'', ZStr ''boom'', ZArr [(Key ''code'', ZStr ''7'')]])"
  using psr_log_reports [of sample_agent None sample_ctx
      "sample_frame None None None [ZStr ''error'', ZStr ''boom'', ZArr [(Key ''code'', ZStr ''7'')]]"
      "''error''" "''boom''" "[(''code'', ''7'')]" sample_env "''App''" "''log''"]
  by simp

text \<open>
  The dedicated methods and \<^verbatim>\<open>log\<close> agree: for a method that is hooked, calling
  \<^verbatim>\<open>$logger->level(message, context)\<close> changes the agent exactly as
  \<^verbatim>\<open>$logger->log('level', message, context)\<close> does, whatever the message and the context are.
\<close>

theorem psr_methods_agree_with_log:
  assumes hook: "psr3_hook (psr_logging_level (cfg E)) (Some cn) f = Some (HPsrLogMethods cn f l)"
    and f: "utf8_valid f" "get_parameter ed 0 = ZStr f"
    and shifted: "get_parameter ed 1 = get_parameter ed' 0" "get_parameter ed 2 = get_parameter ed' 1"
  shows "snd (psr_log_before E cn fn rid ed s) = snd (psr_log_methods_before E cn f l rid ed' s) \<and>
    (fst (psr_log_before E cn fn rid ed s) = Ok (DUnit, ed) \<longleftrightarrow>
     fst (psr_log_methods_before E cn f l rid ed' s) = Ok (DUnit, ed'))"
proof -
  have l: "l = level_of_str f" "\<not> level_of_str f < psr_logging_level (cfg E)"
    using hook by (auto simp: psr3_hook_def split: if_splits)
  define report where "report = andthen (handle_message E (get_parameter ed' 0)) (\<lambda>message.
      andthen (handle_context E (get_parameter ed' 1)) (\<lambda>tags. handle_log cn l rid message tags))"
  have both: "psr_log_before E cn fn rid ed s = andthen report (\<lambda>_. ret (DUnit, ed)) s"
    "psr_log_methods_before E cn f l rid ed' s = andthen report (\<lambda>_. ret (DUnit, ed')) s"
    unfolding psr_log_before_def psr_log_methods_before_def shifted report_def using f l by simp_all
  show ?thesis
    unfolding both by (cases "report s"; cases "fst (report s)") (auto simp: andthen_def)
qed

theorem psr_methods_agree_with_log_witness:
  "snd (psr_log_before sample_env ''App'' ''log'' None
     (sample_frame None None None [ZStr ''error'', ZStr ''boom'', ZNull]) sample_agent) =
   snd (psr_log_methods_before sample_env ''App'' ''error'' Error None
     (sample_frame None None None [ZStr ''boom'', ZNull]) sample_agent)"
proof -
  have up: "to_uppercase ''error'' = ''ERROR''" by code_simp
  have hook: "psr3_hook (psr_logging_level (cfg sample_env)) (Some ''App'') ''error'' =
      Some (HPsrLogMethods ''App'' ''error'' Error)"
    by (simp add: psr3_hook_def up level_of_str_def less_eq_psr_level_def)
  show ?thesis
    using psr_methods_agree_with_log [OF hook, of "sample_frame None None None [ZStr ''error'', ZStr ''boom'', ZNull]"
        "sample_frame None None None [ZStr ''boom'', ZNull]" "''log''" None sample_agent]
    by simp
qed

end
