(* ===== verification/Plugins.thy ===== *)
theory Plugins
  imports Curl Pdo Mysqli Swoole Predis Memcached Redis Amqplib Mongodb Memcache Psr3
begin

text \<open>
  \<^verbatim>\<open>src/src/plugin/mod.rs\<close>: the list of plugins, the choice of a plugin and of its hook for a
  function, and the cache of these choices.  The two \<open>run_\<close> functions say which closures a
  hook stands for.
\<close>

section \<open>The registered plugins\<close>

datatype plugin =
    CurlPlugin | PdoPlugin | MySQLImprovedPlugin | SwooleServerPlugin | SwooleHttpResponsePlugin
  | PredisPlugin | MemcachedPlugin | RedisPlugin | AmqplibPlugin | MongodbPlugin | MemcachePlugin
  | Psr3Plugin

definition PLUGINS :: "env \<Rightarrow> plugin list" where
  "PLUGINS E =
     [CurlPlugin, PdoPlugin, MySQLImprovedPlugin, SwooleServerPlugin, SwooleHttpResponsePlugin,
      PredisPlugin, MemcachedPlugin, RedisPlugin, AmqplibPlugin, MongodbPlugin, MemcachePlugin] @
     (if Off < psr_logging_level (cfg E) then [Psr3Plugin] else [])"

fun class_names :: "plugin \<Rightarrow> bytes list option" where
  "class_names CurlPlugin = curl_class_names"
| "class_names PdoPlugin = pdo_class_names"
| "class_names MySQLImprovedPlugin = mysqli_class_names"
| "class_names SwooleServerPlugin = swoole_server_class_names"
| "class_names SwooleHttpResponsePlugin = swoole_response_class_names"
| "class_names PredisPlugin = predis_class_names"
| "class_names MemcachedPlugin = memcached_class_names"
| "class_names RedisPlugin = redis_class_names"
| "class_names AmqplibPlugin = amqplib_class_names"
| "class_names MongodbPlugin = mongodb_class_names"
| "class_names MemcachePlugin = memcache_class_names"
| "class_names Psr3Plugin = psr3_class_names"

fun function_name_prefix :: "plugin \<Rightarrow> bytes option" where
  "function_name_prefix CurlPlugin = curl_function_name_prefix"
| "function_name_prefix PdoPlugin = pdo_function_name_prefix"
| "function_name_prefix MySQLImprovedPlugin = mysqli_function_name_prefix"
| "function_name_prefix SwooleServerPlugin = swoole_server_function_name_prefix"
| "function_name_prefix SwooleHttpResponsePlugin = swoole_response_function_name_prefix"
| "function_name_prefix PredisPlugin = predis_function_name_prefix"
| "function_name_prefix MemcachedPlugin = memcached_function_name_prefix"
| "function_name_prefix RedisPlugin = redis_function_name_prefix"
| "function_name_prefix AmqplibPlugin = amqplib_function_name_prefix"
| "function_name_prefix MongodbPlugin = mongodb_function_name_prefix"
| "function_name_prefix MemcachePlugin = memcache_function_name_prefix"
| "function_name_prefix Psr3Plugin = psr3_function_name_prefix"

text \<open>The parent classes that exist; the others are skipped.\<close>

fun parent_classes :: "env \<Rightarrow> event list \<Rightarrow> plugin \<Rightarrow> bytes option list option" where
  "parent_classes E l Psr3Plugin =
     Some [if class_exists E l LOGGER_INTERFACE then Some LOGGER_INTERFACE else None]"
| "parent_classes E l _ = None"

fun plugin_hook :: "env \<Rightarrow> plugin \<Rightarrow> bytes option \<Rightarrow> bytes \<Rightarrow> hook_id option outcome" where
  "plugin_hook E CurlPlugin cls f = Ok (curl_hook cls f)"
| "plugin_hook E PdoPlugin cls f = Ok (pdo_hook cls f)"
| "plugin_hook E MySQLImprovedPlugin cls f = Ok (mysqli_hook cls f)"
| "plugin_hook E SwooleServerPlugin cls f = Ok (swoole_server_hook cls f)"
| "plugin_hook E SwooleHttpResponsePlugin cls f = Ok (swoole_response_hook cls f)"
| "plugin_hook E PredisPlugin cls f = Ok (predis_hook cls f)"
| "plugin_hook E MemcachedPlugin cls f = Ok (memcached_hook cls f)"
| "plugin_hook E RedisPlugin cls f = Ok (redis_hook cls f)"
| "plugin_hook E AmqplibPlugin cls f = Ok (amqplib_hook cls f)"
| "plugin_hook E MongodbPlugin cls f = Ok (mongodb_hook cls f)"
| "plugin_hook E MemcachePlugin cls f = memcache_hook cls f"
| "plugin_hook E Psr3Plugin cls f = Ok (psr3_hook (psr_logging_level (cfg E)) cls f)"

section \<open>Selection\<close>

definition plugin_matches :: "env \<Rightarrow> event list \<Rightarrow> bytes option \<Rightarrow> bytes \<Rightarrow> plugin \<Rightarrow> bool" where
  "plugin_matches E l cls f p =
     ((case cls of
         Some c \<Rightarrow>
           (case class_names p of Some names \<Rightarrow> c \<in> set names | None \<Rightarrow> False) \<or>
           (case parent_classes E l p of
              Some parents \<Rightarrow>
                class_exists E l c \<and> list_ex (\<lambda>q. instance_of E l c q) (List.map_filter id parents)
            | None \<Rightarrow> False)
       | None \<Rightarrow> False) \<or>
      (case function_name_prefix p of Some pre \<Rightarrow> starts_with f pre | None \<Rightarrow> False))"

definition select_plugin :: "env \<Rightarrow> event list \<Rightarrow> bytes option \<Rightarrow> bytes \<Rightarrow> plugin option" where
  "select_plugin E l cls f = find (plugin_matches E l cls f) (PLUGINS E)"

definition fresh_hook :: "env \<Rightarrow> event list \<Rightarrow> bytes option \<Rightarrow> bytes \<Rightarrow> hook_id option outcome" where
  "fresh_hook E l cls f =
     (case select_plugin E l cls f of None \<Rightarrow> Ok None | Some p \<Rightarrow> plugin_hook E p cls f)"

definition put_hook :: "bytes option \<Rightarrow> bytes \<Rightarrow> hook_id option \<Rightarrow> agent \<Rightarrow> agent" where
  "put_hook cls f h s = s\<lparr>hook_map := (hook_map s)((cls, f) \<mapsto> h)\<rparr>"

definition select_plugin_hook :: "env \<Rightarrow> bytes option \<Rightarrow> bytes \<Rightarrow> hook_id option agent_act" where
  "select_plugin_hook E cls f =
     andthen (reads (\<lambda>s. hook_map s (cls, f))) (\<lambda>cached.
     case cached of Some h \<Rightarrow> ret h
     | None \<Rightarrow>
         andthen (reads log) (\<lambda>l.
         andthen (lift (fresh_hook E l cls f)) (\<lambda>h.
         andthen (modify (put_hook cls f h)) (\<lambda>_. ret h))))"

section \<open>What a hook stands for\<close>

fun run_before :: "env \<Rightarrow> hook_id \<Rightarrow> before_hook" where
  "run_before E HCurlSetopt = curl_setopt_before"
| "run_before E HCurlSetoptArray = curl_setopt_array_before"
| "run_before E HCurlExec = curl_exec_before E"
| "run_before E HCurlClose = curl_close_before"
| "run_before E HCurlMultiAddHandle = curl_multi_add_handle_before"
| "run_before E HCurlMultiRemoveHandle = curl_multi_remove_handle_before"
| "run_before E HCurlMultiExec = curl_multi_exec_before E"
| "run_before E HCurlMultiClose = curl_multi_close_before"
| "run_before E HPdoConstruct = pdo_construct_before E"
| "run_before E (HPdoMethods f) = pdo_methods_before f"
| "run_before E (HPdoStatementMethods f) = pdo_statement_methods_before f"
| "run_before E (HMysqliConnect cls f st) = mysqli_connect_before cls f st"
| "run_before E (HMysqliMethods cls f st) = mysqli_methods_before E cls f st"
| "run_before E HSwooleOn = swoole_on_before"
| "run_before E HSwooleHandle = swoole_handle_before"
| "run_before E HSwooleStatus = swoole_status_before"
| "run_before E (HPredisExecuteCommand cls) = predis_before E cls"
| "run_before E (HMemcachedEmpty cls f) = memcached_empty_before cls f"
| "run_before E (HMemcachedKey cls f) = memcached_key_before E cls f"
| "run_before E (HMemcachedServerKey cls f) = memcached_server_key_before E cls f"
| "run_before E HRedisConstruct = redis_construct_before E"
| "run_before E (HRedisConnect cls f) = redis_connect_before cls f"
| "run_before E (HRedisMethods cls f) = redis_methods_before cls f"
| "run_before E (HAmqpBasicPublish cls f) = amqp_publish_before E cls f"
| "run_before E (HMongoNamespace f) = fst (hook_manager_execute_namespace_method E f)"
| "run_before E (HMongoDb f) = fst (hook_manager_execute_db_method E f)"
| "run_before E (HMemcacheServer cls f st) = memcache_server_before st"
| "run_before E (HMemcacheEmpty cls f st) = memcache_empty_before E cls f st"
| "run_before E (HMemcacheKey cls f st) = memcache_key_before E cls f st"
| "run_before E (HPsrLogMethods cls f l) = psr_log_methods_before E cls f l"
| "run_before E (HPsrLog cls f) = psr_log_before E cls f"

fun run_after :: "env \<Rightarrow> hook_id \<Rightarrow> after_hook" where
  "run_after E HCurlExec = curl_exec_after E"
| "run_after E HCurlMultiExec = curl_multi_exec_after E"
| "run_after E HPdoConstruct = pdo_construct_after E"
| "run_after E (HPdoMethods f) = pdo_after_hook E"
| "run_after E (HPdoStatementMethods f) = pdo_after_hook E"
| "run_after E (HMysqliConnect cls f st) = mysqli_connect_after E st"
| "run_after E (HMysqliMethods cls f st) = mysqli_methods_after E"
| "run_after E (HPredisExecuteCommand cls) = predis_after E"
| "run_after E (HMemcachedEmpty cls f) = memcached_after_hook E"
| "run_after E (HMemcachedKey cls f) = memcached_after_hook E"
| "run_after E (HMemcachedServerKey cls f) = memcached_after_hook E"
| "run_after E (HRedisConnect cls f) = redis_after_hook E"
| "run_after E (HRedisMethods cls f) = redis_after_hook E"
| "run_after E (HAmqpBasicPublish cls f) = amqp_publish_after E"
| "run_after E (HMongoNamespace f) = snd (hook_manager_execute_namespace_method E f)"
| "run_after E (HMongoDb f) = snd (hook_manager_execute_db_method E f)"
| "run_after E (HMemcacheEmpty cls f st) = memcache_after_hook E"
| "run_after E (HMemcacheKey cls f st) = memcache_after_hook E"
| "run_after E _ = noop_after"

text \<open>Every hook keeps the contract of the interceptors.\<close>

lemma all_hooks_traced: "traced_hook (run_before E h) (run_after E h)"
  by (cases h)
    (simp_all add:
      curl_setopt.silent.traced.traced_hook_axioms curl_setopt_array.silent.traced.traced_hook_axioms
      curl_exec.traced.traced_hook_axioms curl_close.silent.traced.traced_hook_axioms
      curl_multi_add_handle.silent.traced.traced_hook_axioms
      curl_multi_remove_handle.silent.traced.traced_hook_axioms
      curl_multi_exec.traced_hook_axioms curl_multi_close.traced_hook_axioms
      pdo_construct.traced.traced_hook_axioms pdo_methods.traced.traced_hook_axioms
      pdo_statement.traced.traced_hook_axioms mysqli_connect.traced.traced_hook_axioms
      mysqli_methods.traced.traced_hook_axioms swoole_on.silent.traced.traced_hook_axioms
      swoole_handle.silent.traced.traced_hook_axioms swoole_status.silent.traced.traced_hook_axioms
      predis.traced.traced_hook_axioms memcached_empty.traced.traced_hook_axioms
      memcached_key.traced.traced_hook_axioms memcached_server_key.traced.traced_hook_axioms
      redis_construct.silent.traced.traced_hook_axioms redis_connect.traced.traced_hook_axioms
      redis_methods.traced.traced_hook_axioms amqp.traced.traced_hook_axioms
      mongodb.traced.traced_hook_axioms memcache_server.silent.traced.traced_hook_axioms
      memcache_empty.traced.traced_hook_axioms memcache_key.traced.traced_hook_axioms
      psr_methods.silent.traced.traced_hook_axioms psr_log.silent.traced.traced_hook_axioms)

section \<open>Properties\<close>

lemma find_SomeD: "find P xs = Some x \<Longrightarrow> P x \<and> x \<in> set xs"
  by (auto simp: find_Some_iff)

text \<open>
  (C13) Choosing a hook never panics: this choice runs outside the agent's panic handler, and for
  every function name in UTF-8 and every class it returns a hook or none, although the
  memcache plugin slices the name.
\<close>

theorem selection_never_panics:
  assumes "utf8_valid f"
  shows "\<exists>h. fresh_hook E l cls f = Ok h"
proof (cases "select_plugin E l cls f")
  case (Some p)
  then have m: "plugin_matches E l cls f p" by (auto simp: select_plugin_def dest: find_SomeD)
  show ?thesis
  proof (cases "p = MemcachePlugin")
    case True
    with m have "cls = None \<Longrightarrow> starts_with f MEMCACHE_PREFIX" by (simp add: plugin_matches_def)
    then show ?thesis
      using True Some assms
      by (cases cls) (auto simp: fresh_hook_def memcache_hook_def Let_def MEMCACHE_PREFIX_def
          dest!: str_slice_prefix [THEN str_slice_lower, rotated])
  next
    case False
    with Some show ?thesis by (cases p) (simp_all add: fresh_hook_def)
  qed
qed (simp add: fresh_hook_def)

theorem selection_never_panics_witness: "\<exists>h. fresh_hook sample_env [] None ''memcache_'' = Ok h"
  using selection_never_panics [of "''memcache_''" sample_env "[]" None] by simp

text \<open>The cache holds nothing but what a fresh choice would give.\<close>

definition hooks_current :: "env \<Rightarrow> agent \<Rightarrow> bool" where
  "hooks_current E s \<longleftrightarrow>
     (\<forall>cls f h l. hook_map s (cls, f) = Some h \<longrightarrow> fresh_hook E l cls f = Ok h)"

text \<open>
  (C14) The cache of choices is invisible: if the classes PHP knows do not change, then from a
  cache that holds current choices (such as the empty one) a lookup returns exactly what a
  fresh choice gives, changes nothing but the cache, and leaves it current.
\<close>

theorem hook_cache_transparent:
  assumes stable: "\<forall>l l' c. class_exists E l c = class_exists E l' c"
      "\<forall>l l' c d. instance_of E l c d = instance_of E l' c d"
    and cur: "hooks_current E s"
    and run: "select_plugin_hook E cls f s = (r, s')"
  shows "r = fresh_hook E (log s) cls f \<and> hooks_current E s' \<and> s'\<lparr>hook_map := hook_map s\<rparr> = s"
proof -
  have same: "fresh_hook E l c g = fresh_hook E l' c g" for l l' c g
  proof -
    have "parent_classes E l p = parent_classes E l' p" for p
      using stable(1) [rule_format, of l LOGGER_INTERFACE l'] by (cases p) simp_all
    moreover have "class_exists E l = class_exists E l'" "instance_of E l = instance_of E l'"
      using stable by blast+
    ultimately have "plugin_matches E l c g = plugin_matches E l' c g"
      by (simp add: plugin_matches_def fun_eq_iff cong: option.case_cong)
    then show ?thesis by (simp add: fresh_hook_def select_plugin_def)
  qed
  show ?thesis
  proof (cases "hook_map s (cls, f)")
    case (Some h)
    then show ?thesis using run cur by (auto simp: select_plugin_hook_def hooks_current_def)
  next
    case None
    show ?thesis
    proof (cases "fresh_hook E (log s) cls f")
      case (Ok h)
      then have rs: "r = Ok h" "s' = put_hook cls f h s"
        using run None by (simp_all add: select_plugin_hook_def)
      moreover have all: "fresh_hook E l cls f = Ok h" for l
        using same [of l cls f "log s"] Ok by simp
      have "hooks_current E s'"
        using cur all by (auto simp: rs(2) hooks_current_def put_hook_def)
      ultimately show ?thesis using Ok by (simp add: put_hook_def)
    qed (use run None cur in \<open>auto simp: select_plugin_hook_def\<close>)
  qed
qed

theorem hook_cache_transparent_witness:
  "fst (select_plugin_hook sample_env None ''curl_exec'' sample_agent) = fresh_hook sample_env [] None ''curl_exec''"
  using hook_cache_transparent [where E = sample_env and s = sample_agent, OF _ _ _ prod.collapse [symmetric]]
  by (simp add: hooks_current_def)

text \<open>
  The curl plugin looks at function names only: any function or method whose name starts
  with \<^verbatim>\<open>curl_\<close> gets the hook of the curl function of that name, whatever class it belongs to.
\<close>

theorem curl_prefix_shadows_classes:
  assumes "starts_with f ''curl_''"
  shows "fresh_hook E l cls f = Ok (curl_hook None f)"
proof -
  have "select_plugin E l cls f = Some CurlPlugin"
    using assms by (simp add: select_plugin_def PLUGINS_def plugin_matches_def)
  then show ?thesis by (simp add: fresh_hook_def curl_hook_def)
qed

theorem curl_prefix_shadows_classes_witness:
  "fresh_hook sample_env [] (Some ''Crawler'') ''curl_exec'' = Ok (Some HCurlExec)"
  using curl_prefix_shadows_classes [of "''curl_exec''" sample_env "[]" "Some ''Crawler''"]
  by (simp add: starts_with_def curl_hook_def)

text \<open>
  Log collection is off unless configured: with the level \<^verbatim>\<open>Off\<close> no logger hook is ever
  chosen, and otherwise a dedicated log method is hooked only at or above the level.
\<close>

theorem log_hooks_need_level:
  assumes "fresh_hook E l cls f = Ok (Some h)" and "h = HPsrLogMethods cn g lv \<or> h = HPsrLog cn g"
  shows "psr_logging_level (cfg E) \<noteq> Off \<and> (h = HPsrLogMethods cn g lv \<longrightarrow> psr_logging_level (cfg E) \<le> lv)"
proof -
  obtain p where p: "select_plugin E l cls f = Some p" "plugin_hook E p cls f = Ok (Some h)"
    using assms(1) by (auto simp: fresh_hook_def split: option.splits)
  have "p = Psr3Plugin"
    using p(2) assms(2)
    by (cases p) (auto simp: curl_hook_def pdo_hook_def mysqli_hook_def swoole_server_hook_def
        swoole_response_hook_def predis_hook_def memcached_hook_def redis_hook_def amqplib_hook_def
        mongodb_hook_def memcache_hook_def Let_def split: if_splits option.splits outcome.splits)
  moreover have "p \<in> set (PLUGINS E)"
    using p(1) by (auto simp: select_plugin_def dest: find_SomeD)
  ultimately have "psr_logging_level (cfg E) \<noteq> Off" by (auto simp: PLUGINS_def split: if_splits)
  with p(2) \<open>p = Psr3Plugin\<close> assms(2) show ?thesis
    by (auto simp: psr3_hook_def split: option.splits if_splits)
qed

theorem log_hooks_need_level_witness:
  "psr_logging_level (cfg sample_env) \<noteq> Off \<and> Info \<le> Error"
proof -
  have up: "to_uppercase ''error'' = ''ERROR''" by code_simp
  have h: "fresh_hook (sample_env\<lparr>instance_of := (\<lambda>l c d. True)\<rparr>) [] (Some ''App'') ''error'' =
      Ok (Some (HPsrLogMethods ''App'' ''error'' Error))"
    by (simp add: fresh_hook_def select_plugin_def PLUGINS_def plugin_matches_def class_path_def CLIENT_CLASS_def
        CHANNEL_CLASS_def MANAGER_CLASS_NAME_def starts_with_def MEMCACHE_PREFIX_def psr3_hook_def up
        level_of_str_def less_eq_psr_level_def List.map_filter_def)
  from log_hooks_need_level [OF h, of "''App''" "''error''" Error] show ?thesis by simp
qed

end
