(* ===== verification/Execute.thy ===== *)
theory Execute
  imports Plugins
begin

text \<open>
  \<^verbatim>\<open>src/src/execute.rs\<close> and \<^verbatim>\<open>catch_unwind_result\<close> of \<^verbatim>\<open>src/src/util.rs\<close>: the interceptors
  that the agent installs in the engine, by replacing \<^verbatim>\<open>zend_execute_internal\<close> and
  \<^verbatim>\<open>zend_execute_ex\<close> or as a Zend observer.

  The intercepted function is a parameter \<open>ori\<close>: an arbitrary transformer of the frame and of
  the agent's state (it may run further intercepted functions) with the value it returns; it
  gets no frame when the engine passes a null pointer.  Every run of it is logged.
\<close>

section \<open>Panics\<close>

fun panic_message :: "payload \<Rightarrow> bytes" where
  "panic_message (PanicStr m) = ''paniced: '' @ m"
| "panic_message (PanicString m) = ''paniced: '' @ m"
| "panic_message PanicOther = ''paniced''"

definition catch_unwind_result :: "('s, 'a) act \<Rightarrow> ('s, 'a) act" where
  "catch_unwind_result m = (\<lambda>s. case m s of
     (Ok x, s') \<Rightarrow> (Ok x, s')
   | (Err e, s') \<Rightarrow> (Err e, s')
   | (Panic p, s') \<Rightarrow> (Err (Anyhow (panic_message p)), s'))"

lemma catch_unwind_no_panic: "fst (catch_unwind_result m s) \<noteq> Panic p"
  by (simp add: catch_unwind_result_def split: prod.split outcome.split)

lemma catch_unwind_state [simp]: "snd (catch_unwind_result m s) = snd (m s)"
  by (simp add: catch_unwind_result_def split: prod.split outcome.split)

lemma catch_unwind_Ok_iff: "catch_unwind_result m s = (Ok x, s') \<longleftrightarrow> m s = (Ok x, s')"
  by (auto simp: catch_unwind_result_def split: prod.split outcome.split)

section \<open>Names and the request of a frame\<close>

definition opt_utf8 :: "bytes option \<Rightarrow> bytes option outcome" where
  "opt_utf8 v =
     (case v of None \<Rightarrow> Ok None
      | Some raw \<Rightarrow> (case expect_utf8 raw of Ok t \<Rightarrow> Ok (Some t) | Err e \<Rightarrow> Err e | Panic p \<Rightarrow> Panic p))"

definition get_function_and_class_name :: "exec_data \<Rightarrow> (bytes option \<times> bytes option) outcome" where
  "get_function_and_class_name ed =
     (case opt_utf8 (fn_name ed) of
        Ok f \<Rightarrow> (case opt_utf8 (fn_class ed) of Ok c \<Rightarrow> Ok (f, c) | Err e \<Rightarrow> Err e | Panic p \<Rightarrow> Panic p)
      | Err e \<Rightarrow> Err e
      | Panic p \<Rightarrow> Panic p)"

text \<open>The walk along \<^verbatim>\<open>prev_execute_data\<close>.\<close>

fun infer_from_frames :: "frame list \<Rightarrow> i64 option" where
  "infer_from_frames [] = None"
| "infer_from_frames (f # fs) =
     (if fn_name f = Some HACK_SWOOLE_ON_REQUEST_FUNCTION_NAME
      then Option.bind (as_z_obj (get_parameter f 0)) (\<lambda>req. as_long (get_property req ''fd''))
      else infer_from_frames fs)"

definition infer_request_id :: "exec_data \<Rightarrow> agent \<Rightarrow> i64 option" where
  "infer_request_id ed s =
     (if \<not> is_swoole s then None else infer_from_frames (frame.truncate ed # callers ed))"

section \<open>The interceptors\<close>

type_synonym original = "exec_data option \<Rightarrow> agent \<Rightarrow> (exec_data \<times> zval) \<times> agent"

definition call_ori ::
  "original \<Rightarrow> bytes option \<Rightarrow> exec_data option \<Rightarrow> agent \<Rightarrow> (exec_data \<times> zval) \<times> agent" where
  "call_ori ori name ed s = ori ed (emit (OriginalCalled name) s)"

text \<open>
  The part the two interceptors share, from the choice of the hook on: the before hook under
  the panic handler, the intercepted function in any case, and the after hook only if the
  before hook succeeded.  \<open>rv_of\<close> is where the after hook finds the returned value.
\<close>

definition with_hook ::
  "env \<Rightarrow> original \<Rightarrow> (zval \<Rightarrow> zval) \<Rightarrow> hook_id \<Rightarrow> exec_data \<Rightarrow> agent \<Rightarrow> zval \<times> agent" where
  "with_hook E ori rv_of h ed s =
     (let rid = infer_request_id ed s in
      case catch_unwind_result (run_before E h rid ed) s of
        (Ok (d, ed1), s1) \<Rightarrow>
          (case call_ori ori (fn_name ed) (Some ed1) s1 of
             ((ed2, rv), s2) \<Rightarrow>
               (rv, snd (catch_unwind_result (run_after E h rid d ed2 (rv_of rv)) s2)))
      | (_, s1) \<Rightarrow> (case call_ori ori (fn_name ed) (Some ed) s1 of ((ed2, rv), s2) \<Rightarrow> (rv, s2)))"

definition without_hook :: "original \<Rightarrow> exec_data option \<Rightarrow> agent \<Rightarrow> zval \<times> agent" where
  "without_hook ori ed s = (case call_ori ori (Option.bind ed fn_name) ed s of ((_, rv), s1) \<Rightarrow> (rv, s1))"

text \<open>A panic of the choice of a hook would end the process; it does not happen.\<close>

definition pick_hook :: "env \<Rightarrow> bytes option \<Rightarrow> bytes \<Rightarrow> agent \<Rightarrow> hook_id option \<times> agent" where
  "pick_hook E cls f s =
     (case select_plugin_hook E cls f s of (Ok h, s') \<Rightarrow> (h, s') | (_, s') \<Rightarrow> (None, s'))"

definition execute_internal ::
  "env \<Rightarrow> original \<Rightarrow> exec_data option \<Rightarrow> bool \<Rightarrow> agent \<Rightarrow> zval \<times> agent" where
  "execute_internal E ori ed_ptr has_rv s =
     (case ed_ptr of
        None \<Rightarrow> without_hook ori None s
      | Some ed \<Rightarrow>
          if \<not> has_rv then without_hook ori (Some ed) s
          else case get_function_and_class_name ed of
            Ok (Some f, cls) \<Rightarrow>
              if f = HACK_SWOOLE_ON_REQUEST_FUNCTION_NAME then without_hook ori (Some ed) s
              else
                (case pick_hook E cls f s of
                   (None, s1) \<Rightarrow> without_hook ori (Some ed) s1
                 | (Some h, s1) \<Rightarrow> with_hook E ori (\<lambda>rv. rv) h ed s1)
          | _ \<Rightarrow> without_hook ori (Some ed) s)"

text \<open>
  User functions: the hook of Swoole is an internal function and never gets here; a frame may
  have no place for the returned value, and the after hook then sees a null.
\<close>

definition execute_ex ::
  "env \<Rightarrow> original \<Rightarrow> exec_data option \<Rightarrow> bool \<Rightarrow> agent \<Rightarrow> zval \<times> agent" where
  "execute_ex E ori ed_ptr has_rv s =
     (case ed_ptr of
        None \<Rightarrow> without_hook ori None s
      | Some ed \<Rightarrow>
          (case get_function_and_class_name ed of
            Ok (Some f, cls) \<Rightarrow>
              (case pick_hook E cls f s of
                 (None, s1) \<Rightarrow> without_hook ori (Some ed) s1
               | (Some h, s1) \<Rightarrow> with_hook E ori (\<lambda>rv. if has_rv then rv else ZNull) h ed s1)
          | _ \<Rightarrow> without_hook ori (Some ed) s))"

section \<open>The observer\<close>

definition drop_data :: "hook_data \<Rightarrow> agent \<Rightarrow> agent" where
  "drop_data d s = (case d of DSpan i \<Rightarrow> close_span i s | _ \<Rightarrow> s)"

definition put_result :: "nat \<Rightarrow> hook_data \<Rightarrow> agent \<Rightarrow> agent" where
  "put_result a d s =
     (case result_map s a of Some old \<Rightarrow> drop_data old (s\<lparr>result_map := (result_map s)(a \<mapsto> d)\<rparr>)
      | None \<Rightarrow> s\<lparr>result_map := (result_map s)(a \<mapsto> d)\<rparr>)"

definition take_result :: "nat \<Rightarrow> agent \<Rightarrow> agent" where
  "take_result a s = s\<lparr>result_map := map_remove (result_map s) a\<rparr>"

text \<open>Whether the engine is told to call \<open>observer_begin\<close> and \<open>observer_end\<close> for a function.\<close>

definition observer_handler :: "env \<Rightarrow> exec_data \<Rightarrow> agent \<Rightarrow> bool \<times> agent" where
  "observer_handler E ed s =
     (case get_function_and_class_name ed of
        Ok (Some f, cls) \<Rightarrow>
          if f = HACK_SWOOLE_ON_REQUEST_FUNCTION_NAME then (False, s)
          else (case pick_hook E cls f s of (h, s1) \<Rightarrow> (h \<noteq> None, s1))
      | _ \<Rightarrow> (False, s))"

definition observer_begin :: "env \<Rightarrow> exec_data \<Rightarrow> agent \<Rightarrow> exec_data \<times> agent" where
  "observer_begin E ed s =
     (case get_function_and_class_name ed of
        Ok (Some f, cls) \<Rightarrow>
          (case pick_hook E cls f s of
             (None, s1) \<Rightarrow> (ed, s1)
           | (Some h, s1) \<Rightarrow>
               (case catch_unwind_result (run_before E h (infer_request_id ed s1) ed) s1 of
                  (Ok (d, ed1), s2) \<Rightarrow> (ed1, put_result (address ed) d s2)
                | (_, s2) \<Rightarrow> (ed, s2)))
      | _ \<Rightarrow> (ed, s))"

definition observer_end :: "env \<Rightarrow> exec_data \<Rightarrow> zval option \<Rightarrow> agent \<Rightarrow> agent" where
  "observer_end E ed rv s =
     (case result_map s (address ed) of
        None \<Rightarrow> s
      | Some d \<Rightarrow>
          let s1 = take_result (address ed) s in
          (case get_function_and_class_name ed of
             Ok (Some f, cls) \<Rightarrow>
               (case pick_hook E cls f s1 of
                  (None, s2) \<Rightarrow> drop_data d s2
                | (Some h, s2) \<Rightarrow>
                    snd (catch_unwind_result
                      (run_after E h (infer_request_id ed s2) d ed (case rv of Some v \<Rightarrow> v | None \<Rightarrow> ZNull)) s2))
           | _ \<Rightarrow> drop_data d s1))"

section \<open>Properties\<close>

text \<open>
  (C22) The request of a call: under Swoole it is the descriptor held by the innermost enclosing
  call of the agent's request callback, whatever other calls surround or separate them;
  without Swoole, or without such a call, there is none.
\<close>

theorem request_id_is_innermost:
  assumes chain: "frame.truncate ed # callers ed = pre @ rest"
    and pre: "\<forall>g \<in> set pre. fn_name g \<noteq> Some HACK_SWOOLE_ON_REQUEST_FUNCTION_NAME"
    and rest: "rest = [] \<or> fn_name (hd rest) = Some HACK_SWOOLE_ON_REQUEST_FUNCTION_NAME"
  shows "infer_request_id ed s =
    (if is_swoole s \<and> rest \<noteq> []
     then Option.bind (as_z_obj (get_parameter (hd rest) 0)) (\<lambda>req. as_long (get_property req ''fd''))
     else None)"
proof -
  have "infer_from_frames (pre @ rest) = infer_from_frames rest"
    using pre by (induction pre) auto
  then show ?thesis unfolding infer_request_id_def chain using rest by (cases rest) simp_all
qed

definition sample_hack_frame :: frame where
  "sample_hack_frame = \<lparr>fn_name = Some HACK_SWOOLE_ON_REQUEST_FUNCTION_NAME, fn_class = None, num_args = 2,
     slots = (\<lambda>i. ZObj (Zobj 3 ''Request'' [(''fd'', ZLong 11)])), this_obj = None, address = 1\<rparr>"

theorem request_id_is_innermost_witness:
  "infer_request_id (sample_frame None (Some ''curl_exec'') None []\<lparr>callers := [sample_hack_frame]\<rparr>)
     (sample_agent\<lparr>is_swoole := True\<rparr>) = Some 11"
  using request_id_is_innermost [of "sample_frame None (Some ''curl_exec'') None []\<lparr>callers := [sample_hack_frame]\<rparr>"
      "[frame.truncate (sample_frame None (Some ''curl_exec'') None []\<lparr>callers := [sample_hack_frame]\<rparr>)]"
      "[sample_hack_frame]" "sample_agent\<lparr>is_swoole := True\<rparr>"]
  by (simp add: sample_hack_frame_def HACK_SWOOLE_ON_REQUEST_FUNCTION_NAME_def get_parameter_def get_property_def
      sample_frame_def frame.defs)

subsection \<open>Accounting of spans and calls\<close>

text \<open>A step of the intercepted code that accounts for its own spans, and the calls it made.\<close>

definition settles :: "event list \<Rightarrow> (agent \<Rightarrow> 'a \<times> agent) \<Rightarrow> bool" where
  "settles evs m \<longleftrightarrow>
     (\<forall>s. spans_wf s \<longrightarrow> spans_wf (snd (m s)) \<and> loose_spans (snd (m s)) = loose_spans s \<and>
          originals (snd (m s)) = originals s @ evs \<and> request_context (snd (m s)) = request_context s)"

lemma settlesD:
  "settles evs m \<Longrightarrow> spans_wf s \<Longrightarrow> m s = (x, s') \<Longrightarrow>
   spans_wf s' \<and> loose_spans s' = loose_spans s \<and> originals s' = originals s @ evs \<and>
   request_context s' = request_context s"
  by (auto simp: settles_def dest: spec [where x = s])

lemma emit_original [simp]:
  "spans_wf (emit (OriginalCalled f) s) = spans_wf s"
  "loose_spans (emit (OriginalCalled f) s) = loose_spans s"
  "originals (emit (OriginalCalled f) s) = originals s @ [OriginalCalled f]"
  by (simp_all add: spans_wf_def loose_spans_def transfers_def originals_def)

lemma settles_call_ori: "settles evs (ori ed) \<Longrightarrow> settles (OriginalCalled f # evs) (call_ori ori f ed)"
  by (simp add: settles_def call_ori_def)

lemma pick_hook_views [simp]:
  "loose_spans (snd (pick_hook E cls f s)) = loose_spans s" "spans_wf (snd (pick_hook E cls f s)) = spans_wf s"
  "originals (snd (pick_hook E cls f s)) = originals s" "result_map (snd (pick_hook E cls f s)) = result_map s"
  "request_context (snd (pick_hook E cls f s)) = request_context s"
proof -
  have put: "request_context (put_hook cls f h s) = request_context s" "loose_spans (put_hook cls f h s) = loose_spans s" "spans_wf (put_hook cls f h s) = spans_wf s"
    "originals (put_hook cls f h s) = originals s" "result_map (put_hook cls f h s) = result_map s" for h
    by (simp_all add: put_hook_def loose_spans_def open_spans_def transfers_def multi_spans_def spans_wf_def
        fresh_ids_def originals_def)
  have "snd (pick_hook E cls f s) = s \<or> (\<exists>h. snd (pick_hook E cls f s) = put_hook cls f h s)"
    by (cases "hook_map s (cls, f)"; cases "fresh_hook E (log s) cls f")
      (auto simp: pick_hook_def select_plugin_hook_def)
  then show "loose_spans (snd (pick_hook E cls f s)) = loose_spans s"
    "spans_wf (snd (pick_hook E cls f s)) = spans_wf s"
    "originals (snd (pick_hook E cls f s)) = originals s" "result_map (snd (pick_hook E cls f s)) = result_map s"
    "request_context (snd (pick_hook E cls f s)) = request_context s"
    using put by auto
qed

lemma settles_snd: "settles evs m \<Longrightarrow> (\<And>s. snd (m' s) = snd (m s)) \<Longrightarrow> settles evs m'"
  by (simp add: settles_def)

lemma settles_without:
  assumes "\<And>e. settles evs (ori e)"
  shows "settles (OriginalCalled (Option.bind ed fn_name) # evs) (without_hook ori ed)"
proof (rule settles_snd)
  show "settles (OriginalCalled (Option.bind ed fn_name) # evs) (call_ori ori (Option.bind ed fn_name) ed)"
    by (rule settles_call_ori [OF assms])
qed (simp add: without_hook_def split: prod.split)

lemma originals_ctl: "ctl_view s = ctl_view t \<Longrightarrow> originals s = originals t"
  by (simp add: ctl_view_def)

lemma settles_with_hook:
  assumes ori: "\<And>e. settles evs (ori e)"
  shows "settles (OriginalCalled (fn_name ed) # evs) (with_hook E ori rv_of h ed)"
  unfolding settles_def
proof (intro allI impI)
  fix s assume wf: "spans_wf s"
  obtain r s1 where b: "run_before E h (infer_request_id ed s) ed s = (r, s1)" by fastforce
  obtain ed2 rv s2 where c: "call_ori ori (fn_name ed) (Some (case r of Ok (d, ed1) \<Rightarrow> ed1 | _ \<Rightarrow> ed)) s1 = ((ed2, rv), s2)"
    by (metis prod.collapse)
  define s3 where "s3 = (case r of Ok (d, ed') \<Rightarrow>
      snd (run_after E h (infer_request_id ed s) d ed2 (rv_of rv) s2) | _ \<Rightarrow> s2)"
  have run: "with_hook E ori rv_of h ed s = (rv, s3)"
    using b c by (cases r) (auto simp: with_hook_def s3_def catch_unwind_result_def Let_def
        split: prod.splits outcome.split)
  have wf1: "spans_wf s1"
    using traced_hook.traced_before [OF all_hooks_traced wf b] by simp
  note mid = settlesD [OF settles_call_ori [OF ori] wf1 c]
  have "loose_spans s3 = loose_spans s \<and> spans_wf s3 \<and> ctl_view s1 = ctl_view s \<and> ctl_view s3 = ctl_view s2"
    by (rule traced_hook.balanced [OF all_hooks_traced wf _ _ b s3_def]) (use mid in auto)
  with mid run show "spans_wf (snd (with_hook E ori rv_of h ed s)) \<and>
        loose_spans (snd (with_hook E ori rv_of h ed s)) = loose_spans s \<and>
        originals (snd (with_hook E ori rv_of h ed s)) = originals s @ OriginalCalled (fn_name ed) # evs \<and>
        request_context (snd (with_hook E ori rv_of h ed s)) = request_context s"
    by (auto simp: ctl_view_def)
qed

lemma settles_pick:
  assumes "settles evs m" and "\<And>h. settles evs (k h)"
  shows "settles evs (\<lambda>s. case pick_hook E cls f s of (None, s1) \<Rightarrow> m s1 | (Some h, s1) \<Rightarrow> k h s1)"
  unfolding settles_def
proof (intro allI impI)
  fix s assume wf: "spans_wf s"
  obtain h s1 where p: "pick_hook E cls f s = (h, s1)" by fastforce
  from pick_hook_views [of E cls f s] p wf have
    s1: "spans_wf s1" "loose_spans s1 = loose_spans s" "originals s1 = originals s" "request_context s1 = request_context s"
    by simp_all
  show "spans_wf (snd (case pick_hook E cls f s of (None, s1) \<Rightarrow> m s1 | (Some h, s1) \<Rightarrow> k h s1)) \<and>
    loose_spans (snd (case pick_hook E cls f s of (None, s1) \<Rightarrow> m s1 | (Some h, s1) \<Rightarrow> k h s1)) = loose_spans s \<and>
    originals (snd (case pick_hook E cls f s of (None, s1) \<Rightarrow> m s1 | (Some h, s1) \<Rightarrow> k h s1)) = originals s @ evs \<and>
    request_context (snd (case pick_hook E cls f s of (None, s1) \<Rightarrow> m s1 | (Some h, s1) \<Rightarrow> k h s1)) = request_context s"
    using assms s1 by (cases h) (simp_all add: p settles_def)
qed

lemma settles_execute_internal:
  assumes ori: "\<And>e. settles evs (ori e)"
  shows "settles (OriginalCalled (Option.bind ed fn_name) # evs) (execute_internal E ori ed has_rv)"
proof (cases ed)
  case None
  then show ?thesis using settles_without [OF ori, of None] by (simp add: execute_internal_def [abs_def])
next
  case (Some e)
  have no: "settles (OriginalCalled (fn_name e) # evs) (without_hook ori (Some e))"
    using settles_without [OF ori, of "Some e"] by simp
  show ?thesis
  proof (cases "get_function_and_class_name e")
    case (Ok p)
    obtain f cls where p: "p = (f, cls)" by fastforce
    have "settles (OriginalCalled (fn_name e) # evs) (\<lambda>s. case pick_hook E cls f s of
        (None, s1) \<Rightarrow> without_hook ori (Some e) s1 | (Some h, s1) \<Rightarrow> with_hook E ori rv_of h e s1)" for f rv_of
      by (rule settles_pick [OF no settles_with_hook [OF ori]])
    with Some no Ok p show ?thesis
      by (cases f; cases "f = Some HACK_SWOOLE_ON_REQUEST_FUNCTION_NAME"; cases has_rv)
        (simp_all add: execute_internal_def [abs_def])
  qed (use Some no in \<open>cases has_rv; simp add: execute_internal_def [abs_def]\<close>)+
qed

lemma settles_execute_ex:
  assumes ori: "\<And>e. settles evs (ori e)"
  shows "settles (OriginalCalled (Option.bind ed fn_name) # evs) (execute_ex E ori ed has_rv)"
proof (cases ed)
  case None
  then show ?thesis using settles_without [OF ori, of None] by (simp add: execute_ex_def [abs_def])
next
  case (Some e)
  have no: "settles (OriginalCalled (fn_name e) # evs) (without_hook ori (Some e))"
    using settles_without [OF ori, of "Some e"] by simp
  show ?thesis
  proof (cases "get_function_and_class_name e")
    case (Ok p)
    obtain f cls where p: "p = (f, cls)" by fastforce
    have "settles (OriginalCalled (fn_name e) # evs) (\<lambda>s. case pick_hook E cls f s of
        (None, s1) \<Rightarrow> without_hook ori (Some e) s1 | (Some h, s1) \<Rightarrow> with_hook E ori rv_of h e s1)" for f rv_of
      by (rule settles_pick [OF no settles_with_hook [OF ori]])
    with Some no Ok p show ?thesis
      by (cases f; cases "f = Some HACK_SWOOLE_ON_REQUEST_FUNCTION_NAME"; cases has_rv)
        (simp_all add: execute_ex_def [abs_def])
  qed (use Some no in \<open>simp add: execute_ex_def [abs_def]\<close>)+
qed

text \<open>
  A program as the engine runs it: a tree of calls of internal and user functions, each with
  its frame, the value it returns and the calls it makes.
\<close>

datatype call_tree = InternalCall exec_data zval "call_tree list" | UserCall exec_data bool zval "call_tree list"

fun run_tree :: "env \<Rightarrow> call_tree \<Rightarrow> agent \<Rightarrow> agent"
  and run_trees :: "env \<Rightarrow> call_tree list \<Rightarrow> agent \<Rightarrow> agent" where
  "run_tree E (InternalCall ed rv ts) s =
     snd (execute_internal E (\<lambda>e t. ((case e of Some e \<Rightarrow> e | None \<Rightarrow> ed, rv), run_trees E ts t)) (Some ed) True s)"
| "run_tree E (UserCall ed has_rv rv ts) s =
     snd (execute_ex E (\<lambda>e t. ((case e of Some e \<Rightarrow> e | None \<Rightarrow> ed, rv), run_trees E ts t)) (Some ed) has_rv s)"
| "run_trees E [] s = s"
| "run_trees E (t # ts) s = run_trees E ts (run_tree E t s)"

fun tree_calls :: "call_tree \<Rightarrow> event list" where
  "tree_calls (InternalCall ed rv ts) = OriginalCalled (fn_name ed) # concat (map tree_calls ts)"
| "tree_calls (UserCall ed has_rv rv ts) = OriginalCalled (fn_name ed) # concat (map tree_calls ts)"

lemma settles_const: "settles evs (\<lambda>s. ((), g s)) \<Longrightarrow> settles evs (\<lambda>s. (x, g s))"
  by (simp add: settles_def)

lemma run_trees_settles:
  "(\<And>t. t \<in> set ts \<Longrightarrow> settles (tree_calls t) (\<lambda>s. ((), run_tree E t s))) \<Longrightarrow>
   settles (concat (map tree_calls ts)) (\<lambda>s. ((), run_trees E ts s))"
  by (induction ts) (simp_all add: settles_def)

lemma run_tree_settles: "settles (tree_calls t) (\<lambda>s. ((), run_tree E t s))"
proof (induction t)
  case (InternalCall ed rv ts)
  have "settles (concat (map tree_calls ts)) (\<lambda>t. ((case e of Some e \<Rightarrow> e | None \<Rightarrow> ed, rv), run_trees E ts t))" for e
    by (rule settles_const [OF run_trees_settles [OF InternalCall.IH]])
  from settles_execute_internal [of _ "\<lambda>e t. ((case e of Some e \<Rightarrow> e | None \<Rightarrow> ed, rv), run_trees E ts t)", OF this, of "Some ed" E True]
  show ?case by (simp add: settles_def)
next
  case (UserCall ed has_rv rv ts)
  have "settles (concat (map tree_calls ts)) (\<lambda>t. ((case e of Some e \<Rightarrow> e | None \<Rightarrow> ed, rv), run_trees E ts t))" for e
    by (rule settles_const [OF run_trees_settles [OF UserCall.IH]])
  from settles_execute_ex [of _ "\<lambda>e t. ((case e of Some e \<Rightarrow> e | None \<Rightarrow> ed, rv), run_trees E ts t)", OF this, of "Some ed" E has_rv]
  show ?case by (simp add: settles_def)
qed

text \<open>
  (C1) Interception is transparent and tidy for whole programs: however the intercepted calls of
  a program nest, every function of its call tree is run exactly once and in the program's
  order, whether its hooks succeed, fail or panic; and when the program returns, every span
  its hooks opened is closed again, except those that the table of multi handles holds, and the
  requests being served are the same.
\<close>

theorem nested_calls_run_once_and_balance:
  assumes "spans_wf s"
  shows "originals (run_tree E t s) = originals s @ tree_calls t \<and>
         loose_spans (run_tree E t s) = loose_spans s \<and> spans_wf (run_tree E t s) \<and>
         request_context (run_tree E t s) = request_context s"
  using run_tree_settles [of t E] assms by (simp add: settles_def)

theorem nested_calls_run_once_and_balance_witness:
  "originals (run_tree sample_env
      (UserCall (sample_frame None (Some ''main'') None []) True ZNull
        [InternalCall sample_curl_frame (ZBool False) []]) sample_agent) =
   [OriginalCalled (Some ''main''), OriginalCalled (Some ''curl_exec'')]"
  using nested_calls_run_once_and_balance [of sample_agent sample_env
      "UserCall (sample_frame None (Some ''main'') None []) True ZNull [InternalCall sample_curl_frame (ZBool False) []]"]
  by (simp add: originals_def sample_curl_frame_def)

text \<open>
  (C9) A hook cannot disturb the program: when the before hook of a call fails or panics, the
  function runs with the frame as the caller made it, its value is what the caller gets, and
  the after hook does not run: the call ends in the state the function left.
\<close>

theorem failing_before_hook_is_contained:
  assumes names: "get_function_and_class_name ed = Ok (Some f, cls)" "f \<noteq> HACK_SWOOLE_ON_REQUEST_FUNCTION_NAME"
    and hook: "pick_hook E cls f s = (Some h, s1)"
    and fails: "run_before E h (infer_request_id ed s1) ed s1 = (r, s2)" "\<forall>x. r \<noteq> Ok x"
  shows "execute_internal E ori (Some ed) True s = without_hook ori (Some ed) s2 \<and>
         execute_ex E ori (Some ed) has_rv s = without_hook ori (Some ed) s2"
  using assms
  by (cases r) (auto simp: execute_internal_def execute_ex_def with_hook_def without_hook_def
      catch_unwind_result_def Let_def)

theorem failing_before_hook_is_contained_witness:
  "fst (execute_internal sample_env (\<lambda>e s. ((the e, ZLong 42), s))
     (Some (sample_frame None (Some ''curl_close'') None [])) True sample_agent) = ZLong 42"
proof -
  let ?ed = "sample_frame None (Some ''curl_close'') None []"
  define s1 where "s1 = put_hook None ''curl_close'' (Some HCurlClose) sample_agent"
  have hook: "pick_hook sample_env None ''curl_close'' sample_agent = (Some HCurlClose, s1)"
    by (simp add: pick_hook_def select_plugin_hook_def fresh_hook_def select_plugin_def PLUGINS_def
        plugin_matches_def starts_with_def curl_hook_def s1_def)
  have "run_before sample_env HCurlClose (infer_request_id ?ed s1) ?ed s1 =
      (Err (Anyhow ''argument count incorrect''), s1)"
    by (simp add: curl_close_before_def validate_num_args_def)
  from failing_before_hook_is_contained [OF _ _ hook this, of "\<lambda>e s. ((the e, ZLong 42), s)" True] show ?thesis
    by (simp add: get_function_and_class_name_def opt_utf8_def HACK_SWOOLE_ON_REQUEST_FUNCTION_NAME_def
        without_hook_def call_ori_def)
qed

text \<open>
  The observer interface pairs its two halves: a call observed by \<^verbatim>\<open>observer_begin\<close> and
  \<^verbatim>\<open>observer_end\<close> around a function that keeps the pending result and the cached hook leaves
  the open spans as they were and no pending result behind, whether the hooks succeed or not.
\<close>

theorem observer_balanced:
  assumes wf: "spans_wf s" and free: "result_map s (address ed) = None"
    and names: "get_function_and_class_name ed = Ok (Some f, cls)"
    and begin_run: "observer_begin E ed s = (ed1, s1)"
    and mid: "spans_wf s1 \<longrightarrow> spans_wf s2" "loose_spans s2 = loose_spans s1"
      "result_map s2 (address ed) = result_map s1 (address ed)" "hook_map s2 (cls, f) = hook_map s1 (cls, f)"
    and frame: "address ed2 = address ed" "get_function_and_class_name ed2 = Ok (Some f, cls)"
  shows "loose_spans (observer_end E ed2 rv s2) = loose_spans s \<and>
         result_map (observer_end E ed2 rv s2) (address ed) = None"
proof -
  obtain h sa where p: "pick_hook E cls f s = (h, sa)" by fastforce
  from pick_hook_views [of E cls f s] p wf free have
    sa: "spans_wf sa" "loose_spans sa = loose_spans s" "result_map sa (address ed) = None" by simp_all
  show ?thesis
  proof (cases h)
    case None
    then have "s1 = sa" using begin_run names p by (simp add: observer_begin_def)
    then show ?thesis using mid sa frame by (simp add: observer_end_def)
  next
    case (Some h')
    have cached: "hook_map sa (cls, f) = Some (Some h')"
      using p Some by (auto simp: pick_hook_def select_plugin_hook_def put_hook_def andthen_def lift_def
          split: outcome.splits option.splits prod.splits)
    obtain r sb where b: "run_before E h' (infer_request_id ed sa) ed sa = (r, sb)" by fastforce
    note post = traced_hook.traced_before [OF all_hooks_traced sa(1) b]
    have same: "result_map sb = result_map sa" "hook_map sb = hook_map sa"
      using post by (simp_all add: ctl_view_def)
    show ?thesis
    proof (cases "\<exists>d ed'. r = Ok (d, ed')")
      case True
      then obtain d ed' where r: "r = Ok (d, ed')" by blast
      have s1: "s1 = sb\<lparr>result_map := (result_map sb)(address ed \<mapsto> d)\<rparr>"
        using begin_run names p Some b r same sa(3)
        by (simp add: observer_begin_def catch_unwind_result_def put_result_def)
      have view: "spans_wf (t\<lparr>result_map := m\<rparr>) = spans_wf t" "loose_spans (t\<lparr>result_map := m\<rparr>) = loose_spans t" for t m
        by (simp_all add: spans_wf_def fresh_ids_def open_spans_def transfers_def multi_spans_def loose_spans_def)
      define s2' where "s2' = take_result (address ed) s2"
      have pend: "result_map s2 (address ed) = Some d" using mid(3) s1 by simp
      have s2': "spans_wf s2'" "loose_spans s2' = loose_spans sb" "hook_map s2' (cls, f) = Some (Some h')"
        "result_map s2' (address ed) = None"
        using mid s1 post same cached view r by (simp_all add: s2'_def take_result_def)
      have again: "pick_hook E cls f s2' = (Some h', s2')"
        using s2'(3) by (simp add: pick_hook_def select_plugin_hook_def)
      obtain ra t where a: "run_after E h' (infer_request_id ed2 s2') d ed2 (case rv of Some v \<Rightarrow> v | None \<Rightarrow> ZNull) s2' = (ra, t)"
        by fastforce
      have "observer_end E ed2 rv s2 = t"
        using pend frame again a by (simp add: observer_end_def s2'_def [symmetric] Let_def)
      moreover have "held d \<subseteq> loose_spans s2'" "loose_spans sb = loose_spans sa \<union> held d" "held d \<inter> loose_spans sa = {}"
        using post r s2'(2) by auto
      moreover note fin = traced_hook.traced_after [OF all_hooks_traced b [unfolded r] s2'(1) _ a]
      ultimately show ?thesis using s2' sa by (auto simp: ctl_view_def)
    next
      case False
      then have "s1 = sb" using begin_run names p Some b
        by (cases r) (auto simp: observer_begin_def catch_unwind_result_def)
      moreover have "loose_spans sb = loose_spans sa" using post False by (cases r) auto
      ultimately show ?thesis using mid sa same frame by (simp add: observer_end_def)
    qed
  qed
qed

theorem observer_balanced_witness:
  "loose_spans (observer_end sample_env (sample_frame None (Some ''curl_close'') None []) None
     (snd (observer_begin sample_env (sample_frame None (Some ''curl_close'') None []) sample_agent))) =
   loose_spans sample_agent"
proof -
  let ?ed = "sample_frame None (Some ''curl_close'') None []"
  have names: "get_function_and_class_name ?ed = Ok (Some ''curl_close'', None)"
    by (simp add: get_function_and_class_name_def opt_utf8_def)
  show ?thesis
    using observer_balanced [OF _ _ names prod.collapse [symmetric] _ refl refl refl refl names, of sample_agent sample_env None]
    by simp
qed

end
