(* ===== verification/Hook_Types.thy ===== *)
theory Hook_Types
  imports Plugins
begin

text \<open>
  The dynamic types of \<^verbatim>\<open>src/src/execute.rs\<close>: a before hook hands its after hook a
  \<^verbatim>\<open>Box<dyn Any>\<close>, which the after hook downcasts to the type it expects and panics if the
  box holds another one.  \<open>hook_type\<close> is the type each pair of closures agrees on; this theory
  proves that they keep to it, and that no hook the plugins choose panics.
\<close>

section \<open>Types\<close>

datatype data_type = TUnit | TSpan | TBool | TUnitOrSpan

fun has_type :: "data_type \<Rightarrow> hook_data \<Rightarrow> bool" where
  "has_type TUnit d = (d = DUnit)"
| "has_type TSpan d = (case d of DSpan i \<Rightarrow> True | _ \<Rightarrow> False)"
| "has_type TBool d = (case d of DBool b \<Rightarrow> True | _ \<Rightarrow> False)"
| "has_type TUnitOrSpan d = (case d of DBool b \<Rightarrow> False | _ \<Rightarrow> True)"

fun hook_type :: "hook_id \<Rightarrow> data_type" where
  "hook_type HCurlExec = TSpan"
| "hook_type HCurlMultiExec = TBool"
| "hook_type HPdoConstruct = TSpan"
| "hook_type (HPdoMethods f) = TSpan"
| "hook_type (HPdoStatementMethods f) = TSpan"
| "hook_type (HMysqliConnect cls f st) = TSpan"
| "hook_type (HMysqliMethods cls f st) = TSpan"
| "hook_type (HPredisExecuteCommand cls) = TUnitOrSpan"
| "hook_type (HMemcachedEmpty cls f) = TSpan"
| "hook_type (HMemcachedKey cls f) = TSpan"
| "hook_type (HMemcachedServerKey cls f) = TSpan"
| "hook_type (HRedisConnect cls f) = TUnitOrSpan"
| "hook_type (HRedisMethods cls f) = TUnitOrSpan"
| "hook_type (HAmqpBasicPublish cls f) = TSpan"
| "hook_type (HMongoNamespace f) = TSpan"
| "hook_type (HMongoDb f) = TSpan"
| "hook_type (HMemcacheEmpty cls f st) = TSpan"
| "hook_type (HMemcacheKey cls f st) = TSpan"
| "hook_type _ = TUnit"

text \<open>Every value that a computation returns satisfies \<open>P\<close>.\<close>

definition returns :: "('a \<Rightarrow> bool) \<Rightarrow> 'a agent_act \<Rightarrow> bool" where
  "returns P m \<longleftrightarrow> (\<forall>s x s'. m s = (Ok x, s') \<longrightarrow> P x)"

lemma returnsD: "returns P m \<Longrightarrow> m s = (Ok x, s') \<Longrightarrow> P x"
  unfolding returns_def by blast

lemma returns_ret [intro]: "P x \<Longrightarrow> returns P (ret x)"
  by (simp add: returns_def)

lemma returns_fail [intro]: "returns P (fail e)" "returns P (panic p)"
  by (simp_all add: returns_def)

lemma returns_andthen [intro]: "(\<And>x. returns P (k x)) \<Longrightarrow> returns P (andthen m k)"
  unfolding returns_def by (blast elim: andthen_OkE)

lemma returns_if [intro]: "returns P m \<Longrightarrow> returns P n \<Longrightarrow> returns P (if b then m else n)"
  by simp

lemma returns_option [intro]:
  "returns P m \<Longrightarrow> (\<And>x. returns P (f x)) \<Longrightarrow> returns P (case v of None \<Rightarrow> m | Some x \<Rightarrow> f x)"
  by (simp split: option.split)

lemma returns_with_exit_span [intro]: "(\<And>i. P (DSpan i, ed)) \<Longrightarrow> returns P (with_exit_span rid op pr ed k)"
  unfolding returns_def
  by (auto simp: with_exit_span_def on_failure_def elim!: andthen_OkE split: outcome.splits prod.splits)

lemmas returns_intros = returns_ret returns_fail returns_andthen returns_if returns_option
  returns_with_exit_span

text \<open>What a before hook returns: data of its type, and a frame of the same call.\<close>

definition same_call :: "exec_data \<Rightarrow> exec_data \<Rightarrow> bool" where
  "same_call ed ed' \<longleftrightarrow> fn_name ed' = fn_name ed \<and> fn_class ed' = fn_class ed \<and> address ed' = address ed"

lemma same_call_simps [simp]: "same_call ed ed" "same_call ed (set_parameter ed n v)"
  by (simp_all add: same_call_def set_parameter_def)

lemma returns_hack_callback [intro]:
  "P (DUnit, set_parameter ed 1 (ZStr HACK_SWOOLE_ON_REQUEST_FUNCTION_NAME)) \<Longrightarrow>
   returns P (andthen (hack_callback ed) (\<lambda>ed'. ret (DUnit, ed')))"
  by (auto simp: returns_def hack_callback_def)

lemma before_returns:
  "returns (\<lambda>(d, ed'). has_type (hook_type h) d \<and> same_call ed ed') (run_before E h rid ed)"
  by (cases h)
    (simp_all add: curl_setopt_before_def curl_setopt_array_before_def curl_exec_before_def
      curl_close_before_def curl_multi_add_handle_before_def curl_multi_remove_handle_before_def
      curl_multi_exec_before_def curl_multi_close_before_def pdo_construct_before_def
      pdo_methods_before_def pdo_statement_methods_before_def dsn_span_def with_dsn_def
      mysqli_connect_before_def mysqli_methods_before_def mysqli_span_def swoole_on_before_def
      swoole_handle_before_def swoole_status_before_def predis_before_def
      memcached_empty_before_def memcached_key_before_def memcached_server_key_before_def
      memcached_span_def redis_construct_before_def redis_connect_before_def
      redis_methods_before_def amqp_publish_before_def before_manager_crud_hook_def
      memcache_server_before_def memcache_empty_before_def memcache_key_before_def
      memcache_span_def psr_log_methods_before_def psr_log_before_def Let_def returns_intros returns_hack_callback)

lemma before_yields:
  assumes "run_before E h rid ed s = (Ok (d, ed'), s')"
  shows "has_type (hook_type h) d" "same_call ed ed'"
  using returnsD [OF before_returns assms] by simp_all

section \<open>After hooks\<close>

lemma no_panic_values [simp]:
  "expect_utf8 raw \<noteq> Panic p" "expect ty v \<noteq> Panic p" "get_this_mut ed \<noteq> Panic p"
  "get_handle_id ch \<noteq> Panic p" "get_resource_id ed \<noteq> Panic p" "validate_num_args ed n \<noteq> Panic p"
  "style_this_mut st ed \<noteq> Panic p" "get_error_info_item info i \<noteq> Panic p"
  by (simp_all add: expect_utf8_def expect_def get_this_mut_def get_handle_id_def get_resource_id_def
      validate_num_args_def get_error_info_item_def split: option.split)
    (cases st; simp add: get_this_mut_def)

lemma panic_free_calls [intro, simp]:
  "panic_free (call E c args)" "panic_free (call_method E ob name args)" "panic_free (on_span i cs)"
  by (simp_all add: panic_free_def call_def call_method_def on_span_def split: sum.split)

lemma panic_free_try_with_global [intro]: "(\<And>c. panic_free (f c)) \<Longrightarrow> panic_free (try_with_global rid f)"
  unfolding try_with_global_def by (intro panic_free_intros)

lemma panic_free_log_exception [intro, simp]: "panic_free (log_exception E i)"
  unfolding log_exception_def Let_def by (intro panic_free_intros panic_free_calls)

lemma panic_free_mark_false [intro, simp]: "panic_free (mark_false i rv)"
  unfolding mark_false_def by (intro panic_free_intros panic_free_calls)

lemma panic_free_downcast:
  "has_type TSpan d \<Longrightarrow> (\<And>i. panic_free (k i)) \<Longrightarrow> panic_free (downcast_span d k)"
  "has_type TSpan d \<Longrightarrow> (\<And>i. panic_free (k i)) \<Longrightarrow> panic_free (expect_span d k)"
  by (cases d; simp add: downcast_span_def expect_span_def panic_free_on_exit)+

lemma panic_free_report [intro, simp]:
  "panic_free (report_status E i ch code)" "panic_free (finish_exit_span E i ch)"
  "panic_free (report_result_code E ed i)" "panic_free (get_peer_by_this E this)"
  "panic_free (reset_peer E i this)" "panic_free (after_hook_when_false E this i)"
  "panic_free (after_hook_when_pdo_statement E pdo stmt)"
proof -
  show st: "panic_free (report_status E i ch code)"
    unfolding report_status_def by (intro panic_free_intros panic_free_calls) simp_all
  show "panic_free (finish_exit_span E i ch)"
    unfolding finish_exit_span_def
    by (intro panic_free_intros panic_free_calls panic_free_log_exception)
      (simp_all add: report_status_def panic_free_intros)
  show "panic_free (report_result_code E ed i)"
    unfolding report_result_code_def by (intro panic_free_intros panic_free_calls) simp_all
  show peer: "panic_free (get_peer_by_this E this)"
    unfolding get_peer_by_this_def by (intro panic_free_intros panic_free_calls) simp_all
  show "panic_free (reset_peer E i this)"
    unfolding reset_peer_def by (intro panic_free_intros panic_free_calls) (simp_all add: get_peer_by_this_def panic_free_intros)
  show "panic_free (after_hook_when_false E this i)"
    unfolding after_hook_when_false_def by (intro panic_free_intros panic_free_calls) simp_all
  show "panic_free (after_hook_when_pdo_statement E pdo stmt)"
    unfolding after_hook_when_pdo_statement_def by (intro panic_free_intros) simp_all
qed

lemma panic_free_finish_transfers [intro, simp]: "panic_free (finish_transfers E sps handles)"
proof (induction E sps handles rule: finish_transfers.induct)
  case (2 E cid i sps handles)
  then show ?case
    by (simp only: finish_transfers.simps) (intro panic_free_intros panic_free_report)
qed (simp only: finish_transfers.simps panic_free_basic)

lemma panic_free_servers [intro, simp]: "panic_free (server_addresses E servers addr)"
proof (induction servers arbitrary: addr)
  case (Cons a servers)
  obtain k v where "a = (k, v)" by fastforce
  then show ?case
    by (simp only: server_addresses.simps) (intro panic_free_intros panic_free_calls Cons.IH; simp)
qed (simp add: panic_free_intros)

lemma panic_free_mongodb_peer [intro, simp]: "panic_free (mongodb_get_peer E this)"
  unfolding mongodb_get_peer_def by (intro panic_free_intros panic_free_calls panic_free_servers) simp

text \<open>The class \<^verbatim>\<open>PDOStatement\<close>, which the after hook of PDO unwraps.\<close>

definition pdo_known :: "env \<Rightarrow> hook_id \<Rightarrow> bool" where
  "pdo_known E h \<longleftrightarrow>
     (case h of HPdoMethods f \<Rightarrow> True | HPdoStatementMethods f \<Rightarrow> True | _ \<Rightarrow> False) \<longrightarrow>
     (\<forall>l. class_exists E l ''PDOStatement'')"

lemma pdo_after_panic_free:
  assumes "has_type TSpan d" "\<forall>l. class_exists E l ''PDOStatement''"
  shows "panic_free (pdo_after_hook E rid d ed rv)"
  unfolding pdo_after_hook_def using assms(2)
  by (intro panic_free_downcast assms(1) panic_free_intros panic_free_log_exception panic_free_report) simp_all

lemma after_panic_free:
  assumes "has_type (hook_type h) d" "pdo_known E h"
  shows "panic_free (run_after E h rid d ed rv)"
proof (cases h)
  case HCurlMultiExec
  with assms(1) obtain b where "d = DBool b" by (cases d) simp_all
  then show ?thesis
    by (simp only: HCurlMultiExec run_after.simps curl_multi_exec_after_def hook_data.case)
      (intro panic_free_intros panic_free_finish_transfers; simp)
qed (use assms in \<open>simp_all add: pdo_known_def pdo_after_panic_free noop_after_def curl_exec_after_def
    pdo_construct_after_def mysqli_connect_after_def mysqli_methods_after_def predis_after_def
    memcached_after_hook_def redis_after_hook_def amqp_publish_after_def after_manager_crud_hook_def
    memcache_after_hook_def panic_free_intros panic_free_downcast panic_free_report
    split: hook_data.splits option.splits outcome.splits\<close>)

section \<open>Before hooks\<close>

text \<open>The tables that a closure reads with \<^verbatim>\<open>unwrap\<close> have an entry for the name it captured.\<close>

fun tables_cover :: "hook_id \<Rightarrow> bool" where
  "tables_cover (HMemcachedEmpty cls f) = has_method MEMCACHED_EMPTY_METHOD_MAPPING (to_ascii_lowercase f)"
| "tables_cover (HMemcachedKey cls f) = has_method MEMCACHED_KEY_METHOD_MAPPING (to_ascii_lowercase f)"
| "tables_cover (HMemcachedServerKey cls f) =
     has_method MEMCACHED_SERVER_KEY_METHOD_MAPPING (to_ascii_lowercase f)"
| "tables_cover (HRedisMethods cls f) = contains_key REDIS_ALL_MAPPING (to_ascii_lowercase f)"
| "tables_cover (HMemcacheEmpty cls f st) = (\<exists>ti. lookup_tags MEMCACHE_EMPTY_METHOD_MAPPING cls f = Ok ti)"
| "tables_cover (HMemcacheKey cls f st) = (\<exists>ti. lookup_tags MEMCACHE_KEY_METHOD_MAPPING cls f = Ok ti)"
| "tables_cover _ = True"

lemma panic_free_with_exit_span [intro]:
  "(\<And>i. panic_free (k i)) \<Longrightarrow> panic_free (with_exit_span rid op pr ed k)"
  unfolding with_exit_span_def create_exit_span_in_def try_with_global_ctx_def create_exit_span_def open_span_def
  by (intro panic_free_intros panic_free_try_with_global) (simp add: panic_free_def)

lemma panic_free_get_curl_info [intro, simp]: "panic_free (get_curl_info E cid ch)"
  unfolding get_curl_info_def by (intro panic_free_intros panic_free_calls) simp_all

lemma panic_free_get_sw_header [intro, simp]: "panic_free (try_get_sw_header E rid pr)"
  unfolding try_get_sw_header_def by (intro panic_free_try_with_global panic_free_intros)

lemma panic_free_inject [intro, simp]: "panic_free (inject_sw_header E rid ch info)"
  unfolding inject_sw_header_def by (intro panic_free_intros panic_free_calls panic_free_get_sw_header)

lemma panic_free_collect [intro, simp]: "panic_free (collect_infos E hs)"
proof (induction hs)
  case (Cons a hs)
  obtain cid ch where "a = (cid, ch)" by fastforce
  then show ?case
    by (simp only: collect_infos.simps) (intro panic_free_intros panic_free_get_curl_info Cons.IH)
qed (simp only: collect_infos.simps panic_free_basic)

lemma panic_free_open_transfers [intro, simp]: "panic_free (open_transfers E rid is acc)"
proof (induction "is" arbitrary: acc)
  case (Cons a "is")
  obtain cid ch info where "a = (cid, ch, info)" using prod_cases3 by blast
  then show ?case
    by (simp only: open_transfers.simps curl_create_exit_span_def decorate_curl_span_def
        create_exit_span_in_def try_with_global_ctx_def create_exit_span_def open_span_def)
      (intro panic_free_intros panic_free_calls panic_free_try_with_global panic_free_inject Cons.IH;
       simp add: panic_free_def)
qed (simp only: open_transfers.simps panic_free_basic)

lemma panic_free_dsn [intro]:
  "(\<And>i. panic_free (k i)) \<Longrightarrow> panic_free (dsn_span rid cn fn d ed k)"
  "(\<And>d. panic_free (f d)) \<Longrightarrow> panic_free (with_dsn h f)"
  by (auto simp: dsn_span_def with_dsn_def split: option.split intro!: panic_free_with_exit_span panic_free_intros)

lemma panic_free_tag_statement [intro, simp]: "panic_free (tag_statement i st)"
  unfolding tag_statement_def by (intro panic_free_intros panic_free_calls) simp

lemma dsn_from_str_no_panic [simp]: "dsn_from_str t \<noteq> Panic p"
  by (auto simp: dsn_from_str_def dsn_fields_no_panic split: prod.split option.split outcome.split)

lemma panic_free_peers [intro, simp]:
  "panic_free (predis_get_peer E c)" "panic_free (memcached_get_peer E this key)"
  "panic_free (memcache_get_peer E this)"
proof -
  show "panic_free (predis_get_peer E c)"
    unfolding predis_get_peer_def infer_connection_type_def
    by (intro panic_free_intros panic_free_calls;
        (split connection_type.split, intro conjI impI panic_free_intros panic_free_calls; simp)?)
  show "panic_free (memcached_get_peer E this key)"
    unfolding memcached_get_peer_def server_address_def
    by (intro panic_free_intros panic_free_calls) (simp_all split: outcome.split)
  show "panic_free (memcache_get_peer E this)"
    unfolding memcache_get_peer_def by (intro panic_free_intros panic_free_calls) simp_all
qed

lemma panic_free_amqp_inject [intro, simp]: "panic_free (amqp_inject_sw_header E rid ed pr)"
  unfolding amqp_inject_sw_header_def new_sw_headers_def
  by (intro panic_free_intros panic_free_calls panic_free_get_sw_header) simp_all

lemma panic_free_logger [intro, simp]:
  "panic_free (handle_message E v)" "panic_free (handle_context E v)"
  "panic_free (handle_log cn lv rid msg tags)"
proof -
  have cast: "panic_free (cast_object_to_string E ob)" for E ob
    unfolding cast_object_to_string_def by (intro panic_free_intros panic_free_calls) simp_all
  show "panic_free (handle_message E v)"
    unfolding handle_message_def by (intro panic_free_intros cast) simp_all
  have val: "panic_free (context_value E v)" for E v
    by (cases v) (auto simp: context_value_def intro!: panic_free_intros cast)
  have "panic_free (context_tags E a tags)" for a tags
    by (induction E a tags rule: context_tags.induct)
      (simp_all only: context_tags.simps panic_free_basic, intro panic_free_intros val, simp_all)
  then show "panic_free (handle_context E v)"
    unfolding handle_context_def by (intro panic_free_intros)
  show "panic_free (handle_log cn lv rid msg tags)"
    unfolding handle_log_def by (intro panic_free_try_with_global panic_free_intros)
qed

lemma before_panic_free:
  assumes "tables_cover h"
  shows "panic_free (run_before E h rid ed)"
proof (cases h)
  case HCurlMultiExec
  then show ?thesis
    by (simp only: run_before.simps curl_multi_exec_before_def)
      (intro panic_free_intros panic_free_collect panic_free_open_transfers; simp)
next
  case (HMemcacheEmpty cls f st)
  with assms show ?thesis
    by (auto simp: memcache_empty_before_def memcache_span_def intro!: panic_free_intros panic_free_with_exit_span)
next
  case (HMemcacheKey cls f st)
  with assms show ?thesis
    by (auto simp: memcache_key_before_def memcache_span_def Let_def intro!: panic_free_intros panic_free_with_exit_span)
qed (use assms in \<open>auto simp: curl_setopt_before_def curl_setopt_array_before_def curl_exec_before_def
      curl_close_before_def curl_multi_add_handle_before_def curl_multi_remove_handle_before_def
      curl_multi_close_before_def pdo_construct_before_def decorate_curl_span_def
      pdo_methods_before_def pdo_statement_methods_before_def
      mysqli_connect_before_def mysqli_methods_before_def mysqli_span_def swoole_on_before_def
      swoole_handle_before_def swoole_status_before_def hack_callback_def predis_before_def
      memcached_empty_before_def memcached_key_before_def memcached_server_key_before_def
      memcached_span_def redis_construct_before_def redis_connect_before_def
      redis_methods_before_def amqp_publish_before_def before_manager_crud_hook_def
      memcache_server_before_def psr_log_methods_before_def psr_log_before_def Let_def
      has_method_def contains_key_def
      intro!: panic_free_intros panic_free_with_exit_span panic_free_dsn\<close>)

section \<open>Properties\<close>

lemma ill_typed_panics:
  "\<not> has_type (hook_type h) d \<Longrightarrow> hook_type h \<noteq> TUnit \<Longrightarrow>
   \<exists>m. run_after E h rid d ed rv s = (Panic (PanicString m), s)"
  by (cases h; cases d)
    (simp_all add: curl_exec_after_def curl_multi_exec_after_def pdo_construct_after_def
      pdo_after_hook_def mysqli_connect_after_def mysqli_methods_after_def predis_after_def
      memcached_after_hook_def redis_after_hook_def amqp_publish_after_def after_manager_crud_hook_def
      memcache_after_hook_def downcast_span_def expect_span_def)

text \<open>
  (C10) The untyped box between the hooks of a call is well typed: what a before hook returns has
  the type its after hook downcasts to, whatever the state and the arguments, and with data
  of that type the after hook does not panic in any state (for PDO, as long as PHP knows
  \<^verbatim>\<open>PDOStatement\<close>, which the hook unwraps).  The check is real: with data of another type
  every after hook that looks at its data panics at once and changes nothing.
\<close>

theorem hook_data_well_typed:
  assumes "run_before E h rid ed s = (Ok (d, ed'), s')" and "pdo_known E h"
  shows "has_type (hook_type h) d \<and> fst (run_after E h rid2 d ed2 rv t) \<noteq> Panic p \<and>
    (\<forall>w. hook_type h \<noteq> TUnit \<longrightarrow> \<not> has_type (hook_type h) w \<longrightarrow>
       (\<exists>m. run_after E h rid2 w ed2 rv t = (Panic (PanicString m), t)))"
proof -
  have d: "has_type (hook_type h) d" by (rule before_yields(1) [OF assms(1)])
  with after_panic_free [OF d assms(2)] ill_typed_panics [of h] show ?thesis
    by (simp add: panic_free_def)
qed

theorem hook_data_well_typed_witness:
  "run_after sample_env HCurlExec None DUnit sample_curl_frame ZNull sample_agent =
     (Panic (PanicString unwrap_msg), sample_agent) \<and>
   has_type (hook_type HCurlClose) DUnit"
proof -
  define ed where "ed = sample_frame None (Some ''curl_close'') None [ZRes 7]"
  have b: "run_before sample_env HCurlClose None ed sample_agent = (Ok (DUnit, ed), del_headers 7 sample_agent)"
    by (simp add: ed_def curl_close_before_def validate_num_args_def get_resource_id_def get_handle_id_def
        get_parameter_def sample_frame_def)
  from hook_data_well_typed [OF b, of None ed ZNull sample_agent] show ?thesis
    by (simp add: pdo_known_def curl_exec_after_def downcast_span_def)
qed

lemma tables_have_tags:
  "has_method tbl k \<Longrightarrow> get_tag_key cls f = Ok k \<Longrightarrow> \<exists>ti. lookup_tags tbl cls f = Ok ti"
  by (auto simp: has_method_def lookup_tags_def)

lemma memcache_cover:
  assumes "memcache_hook cls f = Ok (Some h)" and "cls = None \<Longrightarrow> to_ascii_lowercase f = f"
  shows "tables_cover h"
proof (cases cls)
  case None
  with assms(2) have low: "to_ascii_lowercase f = f" by simp
  show ?thesis
  proof (cases "str_slice_from (length MEMCACHE_PREFIX) f")
    case (Ok k)
    then have "get_tag_key None f = Ok k" by simp
    with assms(1) Ok show ?thesis
      by (auto simp: None low memcache_hook_def Let_def simp del: get_tag_key.simps intro: tables_have_tags
          split: if_splits)
  qed (use assms(1) in \<open>auto simp: None low memcache_hook_def Let_def split: if_splits\<close>)
next
  case (Some c)
  have "get_tag_key (Some c) f = Ok (to_ascii_lowercase f)" by simp
  with assms(1) show ?thesis
    by (auto simp: Some memcache_hook_def Let_def simp del: get_tag_key.simps intro: tables_have_tags
        split: if_splits)
qed

lemma pred_option_if: "pred_option P a \<Longrightarrow> pred_option P b \<Longrightarrow> pred_option P (if c then a else b)"
  by simp

lemma plain_tables_cover:
  "pred_option tables_cover (curl_hook cls f)" "pred_option tables_cover (pdo_hook cls f)"
  "pred_option tables_cover (mysqli_hook cls f)" "pred_option tables_cover (swoole_server_hook cls f)"
  "pred_option tables_cover (swoole_response_hook cls f)" "pred_option tables_cover (predis_hook cls f)"
  "pred_option tables_cover (amqplib_hook cls f)" "pred_option tables_cover (mongodb_hook cls f)"
  unfolding curl_hook_def pdo_hook_def mysqli_hook_def swoole_server_hook_def swoole_response_hook_def
    predis_hook_def amqplib_hook_def mongodb_hook_def
  by (intro pred_option_if; simp only: option.pred_inject tables_cover.simps)+

lemma chosen_tables_cover:
  assumes chosen: "fresh_hook E l cls f = Ok (Some h)"
    and lower: "cls = None \<Longrightarrow> starts_with f MEMCACHE_PREFIX \<Longrightarrow> to_ascii_lowercase f = f"
  shows "tables_cover h"
proof -
  obtain p where p: "select_plugin E l cls f = Some p" "plugin_hook E p cls f = Ok (Some h)"
    using chosen unfolding fresh_hook_def by (cases "select_plugin E l cls f") simp_all
  then have m: "plugin_matches E l cls f p" using find_SomeD [OF p(1) [unfolded select_plugin_def]] by simp
  have plain: "x = Some h \<Longrightarrow> pred_option tables_cover x \<Longrightarrow> tables_cover h" for x by simp
  note plain = plain [OF _ plain_tables_cover(1)] plain [OF _ plain_tables_cover(2)]
    plain [OF _ plain_tables_cover(3)] plain [OF _ plain_tables_cover(4)] plain [OF _ plain_tables_cover(5)]
    plain [OF _ plain_tables_cover(6)] plain [OF _ plain_tables_cover(7)] plain [OF _ plain_tables_cover(8)]
  show ?thesis
  proof (cases p)
    case MemcachePlugin
    with m lower have low: "cls = None \<Longrightarrow> to_ascii_lowercase f = f" by (simp add: plugin_matches_def)
    from p(2) MemcachePlugin have "memcache_hook cls f = Ok (Some h)" by simp
    from memcache_cover [OF this low] show ?thesis .
  next
    case CurlPlugin with p(2) plain show ?thesis by simp
  next
    case PdoPlugin with p(2) plain show ?thesis by simp
  next
    case MySQLImprovedPlugin with p(2) plain show ?thesis by simp
  next
    case SwooleServerPlugin with p(2) plain show ?thesis by simp
  next
    case SwooleHttpResponsePlugin with p(2) plain show ?thesis by simp
  next
    case PredisPlugin with p(2) plain show ?thesis by simp
  next
    case AmqplibPlugin with p(2) plain show ?thesis by simp
  next
    case MongodbPlugin with p(2) plain show ?thesis by simp
  next
    case MemcachedPlugin with p(2) show ?thesis by (auto simp: memcached_hook_def split: if_splits)
  next
    case RedisPlugin with p(2) show ?thesis by (auto simp: redis_hook_def split: if_splits)
  next
    case Psr3Plugin with p(2) show ?thesis by (auto simp: psr3_hook_def split: if_splits option.splits)
  qed
qed

lemma memcache_keys_lower:
  "\<forall>k \<in> fst ` set MEMCACHE_EMPTY_METHOD_MAPPING. to_ascii_lowercase k = k"
  "\<forall>k \<in> fst ` set MEMCACHE_KEY_METHOD_MAPPING. to_ascii_lowercase k = k"
  by code_simp+

lemma memcache_other_case_panics:
  assumes chosen: "memcache_hook None f = Ok (Some h)" and h: "\<forall>g st. h \<noteq> HMemcacheServer None g st"
    and other: "to_ascii_lowercase f \<noteq> f" "starts_with f MEMCACHE_PREFIX"
  shows "run_before E h rid ed s = (Panic unwrap_none, s)"
proof -
  obtain g where f: "f = MEMCACHE_PREFIX @ g" using other(2) by (metis starts_with_drop)
  have "to_ascii_lowercase MEMCACHE_PREFIX = MEMCACHE_PREFIX" by code_simp
  then have lf: "to_ascii_lowercase f = MEMCACHE_PREFIX @ to_ascii_lowercase g" and g: "to_ascii_lowercase g \<noteq> g"
    using other(1) by (auto simp: f to_ascii_lowercase_def)
  have keys: "map_of MEMCACHE_EMPTY_METHOD_MAPPING g = None" "map_of MEMCACHE_KEY_METHOD_MAPPING g = None"
    using memcache_keys_lower g by (auto simp: map_of_eq_None_iff)
  have same: "str_slice_from (length MEMCACHE_PREFIX) f = Ok g"
    if "str_slice_from (length MEMCACHE_PREFIX) (to_ascii_lowercase f) = Ok k" for k
    using that [unfolded lf]
    by (cases g) (auto simp: f str_slice_from_def to_ascii_lowercase_def is_continuation_lower split: if_splits)
  have "lookup_tags tbl None f = Panic unwrap_none"
    if "str_slice_from (length MEMCACHE_PREFIX) (to_ascii_lowercase f) = Ok k" "map_of tbl g = None" for k tbl
    using same [OF that(1)] that(2) by (simp add: lookup_tags_def)
  note panics = this [OF _ keys(1)] this [OF _ keys(2)]
  show ?thesis
  proof (cases "str_slice_from (length MEMCACHE_PREFIX) (to_ascii_lowercase f)")
    case (Ok k)
    from chosen h have "h = HMemcacheEmpty None f Procedural \<or> h = HMemcacheKey None f Procedural"
      by (auto simp: memcache_hook_def Let_def Ok split: if_split_asm)
    with panics [OF Ok] show ?thesis
      by (auto simp: memcache_empty_before_def memcache_key_before_def Let_def)
  qed (use chosen h in \<open>auto simp: memcache_hook_def Let_def split: if_split_asm\<close>)
qed

lemma select_memcache: "starts_with f MEMCACHE_PREFIX \<Longrightarrow> fresh_hook E l None f = memcache_hook None f"
proof -
  assume pre: "starts_with f MEMCACHE_PREFIX"
  then obtain t where "f = ''memcache_'' @ t" unfolding MEMCACHE_PREFIX_def by (metis starts_with_drop)
  then have "\<not> starts_with f ''curl_''" "\<not> starts_with f ''mysqli_''" by (simp_all add: starts_with_def)
  with pre have "select_plugin E l None f = Some MemcachePlugin"
    by (simp add: select_plugin_def PLUGINS_def plugin_matches_def)
  then show ?thesis by (simp add: fresh_hook_def)
qed



end
