(* ===== verification/Observers.thy ===== *)
theory Observers
  imports Execute Hook_Types
begin

text \<open>
  The agent has two ways to get at the calls of a program (\<^verbatim>\<open>register_execute_functions\<close> and
  \<^verbatim>\<open>register_observer_handlers\<close> of \<^verbatim>\<open>src/src/execute.rs\<close>): to replace the engine's functions that
  execute calls, or to be told by the engine when a call begins and ends.  The second keeps the
  result of a before hook in a table until the call ends.  This theory proves that they
  do the same to every program.
\<close>

section \<open>What does not look at the tables of the interceptors\<close>

text \<open>The table of pending results and the cache of hooks.\<close>

definition with_results ::
  "(nat \<rightharpoonup> hook_data) \<Rightarrow> ((bytes option \<times> bytes) \<rightharpoonup> hook_id option) \<Rightarrow> agent \<Rightarrow> agent" where
  "with_results R H s = s\<lparr>result_map := R, hook_map := H\<rparr>"

definition blind :: "(agent \<Rightarrow> 'a \<times> agent) \<Rightarrow> bool" where
  "blind m \<longleftrightarrow> (\<forall>s R H. m (with_results R H s) = map_prod id (with_results R H) (m s))"

lemma blindD: "blind m \<Longrightarrow> m (with_results R H s) = map_prod id (with_results R H) (m s)"
  by (simp add: blind_def)

lemma with_results_sel [simp]:
  "log (with_results R H s) = log s" "spans (with_results R H s) = spans s"
  "request_context (with_results R H s) = request_context s" "next_id (with_results R H s) = next_id s"
  "hook_map (with_results R H s) = H" "result_map (with_results R H s) = R"
  "is_swoole (with_results R H s) = is_swoole s" "curl_headers (with_results R H s) = curl_headers s"
  "curl_multi (with_results R H s) = curl_multi s" "dsn_map (with_results R H s) = dsn_map s"
  "redis_peers (with_results R H s) = redis_peers s" "memcache_peers (with_results R H s) = memcache_peers s"
  "with_results R H (with_results R' H' s) = with_results R H s"
  by (simp_all add: with_results_def)

lemma with_results_updates [simp]:
  "emit ev (with_results R H s) = with_results R H (emit ev s)"
  "upd_span i cs (with_results R H s) = with_results R H (upd_span i cs s)"
  "close_span i (with_results R H s) = with_results R H (close_span i s)"
  by (simp_all add: with_results_def emit_def upd_span_def close_span_def split: option.split)

lemma close_spans_with_results [simp]: "close_spans is (with_results R H s) = with_results R H (close_spans is s)"
  unfolding close_spans_def by (induction "is" arbitrary: s) simp_all

lemma with_results_tables [simp]:
  "put_headers cid v (with_results R H s) = with_results R H (put_headers cid v s)"
  "del_headers cid (with_results R H s) = with_results R H (del_headers cid s)"
  "upd_multi mid f (with_results R H s) = with_results R H (upd_multi mid f s)"
  "take_multi mid (with_results R H s) = with_results R H (take_multi mid s)"
  "drop_multi mid (with_results R H s) = with_results R H (drop_multi mid s)"
  "hack_dtor E ob d (with_results R H s) = with_results R H (hack_dtor E ob d s)"
  "insert_dsn h dd (with_results R H s) = with_results R H (insert_dsn h dd s)"
  "store_on_request v (with_results R H s) = with_results R H (store_on_request v s)"
  "put_status fd st (with_results R H s) = with_results R H (put_status fd st s)"
  "hack_free E ob fr (with_results R H s) = with_results R H (hack_free E ob fr s)"
  "insert_redis_peer h a (with_results R H s) = with_results R H (insert_redis_peer h a s)"
  "put_memcache_peer h a (with_results R H s) = with_results R H (put_memcache_peer h a s)"
  "del_memcache_peer h (with_results R H s) = with_results R H (del_memcache_peer h s)"
proof -
  show take: "take_multi mid (with_results R H s) = with_results R H (take_multi mid s)"
    by (simp add: take_multi_def with_results_def)
  show "drop_multi mid (with_results R H s) = with_results R H (drop_multi mid s)"
    by (simp add: drop_multi_def take split: option.split)
qed (simp_all add: with_results_def put_headers_def del_headers_def upd_multi_def hack_dtor_def insert_dsn_def
    store_on_request_def put_status_def hack_free_def insert_redis_peer_def put_memcache_peer_def
    del_memcache_peer_def Let_def)

lemma blind_basic [intro]:
  "blind (ret x)" "blind (fail e)" "blind (panic p)" "blind (lift r)" "blind (on_span i cs)"
  "blind (call E c args)" "blind (call_method E ob name args)"
  by (simp_all add: blind_def call_def call_method_def)

lemma blind_reads [intro]: "(\<And>s R H. g (with_results R H s) = g s) \<Longrightarrow> blind (reads g)"
  by (simp add: blind_def)

lemma blind_modify [intro]: "(\<And>s R H. u (with_results R H s) = with_results R H (u s)) \<Longrightarrow> blind (modify u)"
  by (simp add: blind_def)

lemma blind_andthen [intro]: "blind m \<Longrightarrow> (\<And>x. blind (f x)) \<Longrightarrow> blind (andthen m f)"
  by (simp add: blind_def andthen_def split: outcome.split prod.split)

lemma blind_attempt [intro]: "blind m \<Longrightarrow> blind (attempt m)"
  by (simp add: blind_def attempt_def split: prod.split)

lemma blind_on_exit [intro]:
  "blind m \<Longrightarrow> (\<And>s R H. u (with_results R H s) = with_results R H (u s)) \<Longrightarrow> blind (on_exit m u)"
  by (simp add: blind_def on_exit_def split: prod.split)

lemma blind_on_failure [intro]:
  "blind m \<Longrightarrow> (\<And>s R H. u (with_results R H s) = with_results R H (u s)) \<Longrightarrow> blind (on_failure m u)"
  by (simp add: blind_def on_failure_def split: prod.split outcome.split)

lemma blind_if [intro]: "blind m \<Longrightarrow> blind n \<Longrightarrow> blind (if b then m else n)"
  by simp

lemma blind_option [intro]:
  "blind m \<Longrightarrow> (\<And>x. blind (f x)) \<Longrightarrow> blind (case v of None \<Rightarrow> m | Some x \<Rightarrow> f x)"
  by (simp split: option.split)

lemma blind_outcome [intro]:
  "(\<And>x. blind (f x)) \<Longrightarrow> (\<And>e. blind (g e)) \<Longrightarrow> (\<And>p. blind (h p)) \<Longrightarrow>
   blind (case w of Ok x \<Rightarrow> f x | Err e \<Rightarrow> g e | Panic p \<Rightarrow> h p)"
  by (simp split: outcome.split)

lemma blind_open_span [intro]: "blind (open_span sp)"
  by (simp add: blind_def open_span_def with_results_def emit_def)

lemma blind_try_with_global [intro]: "(\<And>c. blind (f c)) \<Longrightarrow> blind (try_with_global rid f)"
  unfolding try_with_global_def by (intro blind_andthen blind_option blind_reads blind_basic) simp

lemmas blind_intros = blind_basic blind_reads blind_modify blind_andthen blind_attempt blind_on_exit
  blind_on_failure blind_if blind_option blind_outcome blind_open_span blind_try_with_global

section \<open>The hooks do not look at them\<close>

lemma blind_parts [intro, simp]:
  "blind (log_exception E i)" "blind (mark_false i rv)" "blind (try_get_sw_header E rid pr)"
  "blind (get_curl_info E cid ch)" "blind (inject_sw_header E rid ch info)" "blind (decorate_curl_span info i)"
  "blind (curl_create_exit_span rid info)" "blind (finish_exit_span E i ch)"
proof -
  show "blind (log_exception E i)"
    unfolding log_exception_def Let_def by (intro blind_intros) simp_all
  show "blind (mark_false i rv)"
    unfolding mark_false_def by (intro blind_intros)
  show sw: "blind (try_get_sw_header E rid pr)" for rid pr
    unfolding try_get_sw_header_def by (intro blind_intros) (simp add: operation_of_def)
  show "blind (get_curl_info E cid ch)"
    unfolding get_curl_info_def by (intro blind_intros)
  show "blind (inject_sw_header E rid ch info)"
    unfolding inject_sw_header_def by (intro blind_intros sw) simp_all
  show dec: "blind (decorate_curl_span info i)" for i
    unfolding decorate_curl_span_def by (intro blind_intros)
  show "blind (curl_create_exit_span rid info)"
    unfolding curl_create_exit_span_def create_exit_span_in_def try_with_global_ctx_def create_exit_span_def
    by (intro blind_intros dec)
  show "blind (finish_exit_span E i ch)"
    unfolding finish_exit_span_def report_status_def log_exception_def Let_def by (intro blind_intros) simp_all
qed

lemma blind_with_exit_span [intro]: "(\<And>i. blind (k i)) \<Longrightarrow> blind (with_exit_span rid op pr ed k)"
  unfolding with_exit_span_def create_exit_span_in_def try_with_global_ctx_def create_exit_span_def
  by (intro blind_intros) simp_all

lemma blind_downcast [intro]:
  "(\<And>i. blind (k i)) \<Longrightarrow> blind (downcast_span d k)" "(\<And>i. blind (k i)) \<Longrightarrow> blind (expect_span d k)"
  unfolding downcast_span_def expect_span_def by (cases d; auto intro!: blind_intros)+

lemma blind_loops [intro, simp]:
  "blind (collect_infos E hs)" "blind (open_transfers E rid is acc)" "blind (finish_transfers E sps handles)"
  "blind (server_addresses E servers addr)" "blind (context_tags E a tags)"
proof -
  show "blind (collect_infos E hs)"
    by (induction E hs rule: collect_infos.induct)
      (simp_all only: collect_infos.simps blind_basic, intro blind_intros blind_parts)
  show "blind (open_transfers E rid is acc)"
    by (induction E rid "is" acc rule: open_transfers.induct)
      (simp_all only: open_transfers.simps blind_basic, intro blind_intros blind_parts, simp_all)
  show "blind (finish_transfers E sps handles)"
  proof (induction sps arbitrary: handles)
    case (Cons a sps)
    obtain cid i where "a = (cid, i)" by fastforce
    then show ?case
      by (simp only: finish_transfers.simps) (intro blind_intros blind_parts Cons.IH; simp)
  qed (simp only: finish_transfers.simps blind_basic)
  show "blind (server_addresses E servers addr)"
    by (induction E servers addr rule: server_addresses.induct)
      (simp_all only: server_addresses.simps blind_basic, intro blind_intros)
  have val: "blind (context_value E v)" for E v
    by (cases v) (auto simp: context_value_def cast_object_to_string_def intro!: blind_intros)
  show "blind (context_tags E a tags)"
    by (induction E a tags rule: context_tags.induct)
      (simp_all only: context_tags.simps blind_basic, intro blind_intros val)
qed

lemma blind_peers [intro, simp]:
  "blind (predis_get_peer E c)" "blind (memcached_get_peer E this key)" "blind (memcache_get_peer E this)"
  "blind (mongodb_get_peer E this)" "blind (get_peer_by_this E this)"
proof -
  show "blind (predis_get_peer E c)"
    unfolding predis_get_peer_def infer_connection_type_def
    by (intro blind_andthen blind_basic; split connection_type.split; intro conjI impI blind_intros)
  show "blind (memcached_get_peer E this key)"
    unfolding memcached_get_peer_def by (intro blind_intros)
  show "blind (memcache_get_peer E this)"
    unfolding memcache_get_peer_def by (intro blind_intros) simp_all
  show "blind (mongodb_get_peer E this)"
    unfolding mongodb_get_peer_def by (intro blind_intros blind_loops)
  show "blind (get_peer_by_this E this)"
    unfolding get_peer_by_this_def by (intro blind_intros)
qed

lemma blind_before: "blind (run_before E h rid ed)"
proof (cases h)
  case HCurlMultiExec
  then show ?thesis
    by (simp only: run_before.simps curl_multi_exec_before_def)
      (intro blind_intros blind_loops; simp add: with_results_def)
qed (auto simp: curl_setopt_before_def curl_setopt_array_before_def curl_exec_before_def
      curl_close_before_def curl_multi_add_handle_before_def curl_multi_remove_handle_before_def
      curl_multi_close_before_def pdo_construct_before_def
      pdo_methods_before_def pdo_statement_methods_before_def dsn_span_def with_dsn_def tag_statement_def
      mysqli_connect_before_def mysqli_methods_before_def mysqli_span_def swoole_on_before_def
      swoole_handle_before_def swoole_status_before_def hack_callback_def predis_before_def
      memcached_empty_before_def memcached_key_before_def memcached_server_key_before_def
      memcached_span_def redis_construct_before_def redis_connect_before_def
      redis_methods_before_def amqp_publish_before_def amqp_inject_sw_header_def new_sw_headers_def
      before_manager_crud_hook_def memcache_server_before_def memcache_empty_before_def
      memcache_key_before_def memcache_span_def psr_log_methods_before_def psr_log_before_def
      handle_message_def handle_context_def cast_object_to_string_def handle_log_def operation_of_def Let_def
      intro!: blind_intros blind_with_exit_span)

lemma blind_after: "blind (run_after E h rid d ed rv)"
  by (cases h; cases d)
    (auto simp: noop_after_def curl_exec_after_def curl_multi_exec_after_def pdo_construct_after_def
      pdo_after_hook_def after_hook_when_false_def after_hook_when_pdo_statement_def
      mysqli_connect_after_def mysqli_methods_after_def reset_peer_def predis_after_def
      memcached_after_hook_def report_result_code_def redis_after_hook_def amqp_publish_after_def
      after_manager_crud_hook_def memcache_after_hook_def intro!: blind_intros blind_downcast)

text \<open>No after hook looks at its request.\<close>

lemma after_ignores_request: "run_after E h rid = run_after E h rid'"
  by (cases h) (simp_all add: fun_eq_iff noop_after_def curl_exec_after_def curl_multi_exec_after_def
      pdo_construct_after_def pdo_after_hook_def mysqli_connect_after_def mysqli_methods_after_def
      predis_after_def memcached_after_hook_def redis_after_hook_def amqp_publish_after_def
      after_manager_crud_hook_def memcache_after_hook_def)

section \<open>Programs under the two kinds of interception\<close>

text \<open>What is blind leaves both tables alone.\<close>

lemma with_results_self [simp]: "with_results (result_map s) (hook_map s) s = s"
  by (simp add: with_results_def)

lemma blind_keeps:
  assumes "blind m" "m s = (x, s')"
  shows "result_map s' = result_map s" "hook_map s' = hook_map s"
proof -
  have "(x, s') = (x, with_results (result_map s) (hook_map s) s')"
    using blindD [OF assms(1), of "result_map s" "hook_map s" s] assms(2) by simp
  then have "s' = with_results (result_map s) (hook_map s) s'" by simp
  then show "result_map s' = result_map s" "hook_map s' = hook_map s"
    by (metis with_results_sel(6), metis with_results_sel(5))
qed

lemma blind_catch [intro]: "blind m \<Longrightarrow> blind (catch_unwind_result m)"
  by (simp add: blind_def catch_unwind_result_def split: prod.split outcome.split)

definition with_pending :: "(nat \<rightharpoonup> hook_data) \<Rightarrow> agent \<Rightarrow> agent" where
  "with_pending R s = with_results R (hook_map s) s"

lemma pick_hook_cases:
  assumes "pick_hook E cls f s = (h, s1)"
  shows "s1 = s \<and> (hook_map s (cls, f) = Some h \<or> h = None \<and> hook_map s (cls, f) = None) \<or>
    s1 = put_hook cls f h s \<and> hook_map s (cls, f) = None"
  using assms by (auto simp: pick_hook_def select_plugin_hook_def andthen_def lift_def
      split: option.splits outcome.splits)

lemma pick_hook_pending: "pick_hook E cls f (with_pending R s) = map_prod id (with_pending R) (pick_hook E cls f s)"
  by (auto simp: pick_hook_def select_plugin_hook_def with_pending_def andthen_def lift_def put_hook_def with_results_def
      split: option.splits outcome.splits)

lemma pick_hook_again: "pick_hook E cls f s = (Some h, s1) \<Longrightarrow> hook_map s1 \<subseteq>\<^sub>m hook_map t \<Longrightarrow> pick_hook E cls f t = (Some h, t)"
  by (drule pick_hook_cases)
    (auto simp: pick_hook_def select_plugin_hook_def put_hook_def map_le_def dom_def)

lemma pick_hook_grows: "pick_hook E cls f s = (h, s1) \<Longrightarrow> hook_map s \<subseteq>\<^sub>m hook_map s1 \<and> result_map s1 = result_map s"
  by (drule pick_hook_cases) (auto simp: put_hook_def map_le_def)

text \<open>A step that leaves pending results alone, does not look at them, and only adds to the cache of hooks.\<close>

definition steady :: "(agent \<Rightarrow> 'a \<times> agent) \<Rightarrow> bool" where
  "steady m \<longleftrightarrow> (\<forall>s. hook_map s \<subseteq>\<^sub>m hook_map (snd (m s)) \<and> result_map (snd (m s)) = result_map s \<and>
     (\<forall>R. m (with_pending R s) = map_prod id (with_pending R) (m s)))"

lemma with_pending_sel [simp]:
  "hook_map (with_pending R s) = hook_map s" "result_map (with_pending R s) = R"
  "is_swoole (with_pending R s) = is_swoole s"
  "emit ev (with_pending R s) = with_pending R (emit ev s)"
  by (simp_all add: with_pending_def)

lemma steadyD:
  assumes "steady m" "m s = (x, s')"
  shows "hook_map s \<subseteq>\<^sub>m hook_map s'" "result_map s' = result_map s"
    "m (with_pending R s) = (x, with_pending R s')"
  using assms by (simp_all add: steady_def) (metis snd_conv)+

lemma steady_bind:
  assumes m: "steady m" and k: "\<And>x. steady (k x)"
  shows "steady (\<lambda>s. case m s of (x, s') \<Rightarrow> k x s')"
  unfolding steady_def
proof (intro allI conjI)
  fix s R
  obtain x s1 where ms: "m s = (x, s1)" by fastforce
  obtain y s2 where ks: "k x s1 = (y, s2)" by fastforce
  note a = steadyD [OF m ms] and b = steadyD [OF k ks]
  show "hook_map s \<subseteq>\<^sub>m hook_map (snd (case m s of (x, s') \<Rightarrow> k x s'))"
    using map_le_trans [OF a(1) b(1)] ms ks by simp
  show "result_map (snd (case m s of (x, s') \<Rightarrow> k x s')) = result_map s" using a(2) b(2) ms ks by simp
  show "(case m (with_pending R s) of (x, s') \<Rightarrow> k x s') =
      map_prod id (with_pending R) (case m s of (x, s') \<Rightarrow> k x s')"
    using a(3) b(3) ms ks by simp
qed

lemma steady_blind [intro]:
  assumes "blind m"
  shows "steady m"
  unfolding steady_def
proof (intro allI conjI)
  fix s R
  obtain x s1 where ms: "m s = (x, s1)" by fastforce
  note keep = blind_keeps [OF assms ms]
  show "hook_map s \<subseteq>\<^sub>m hook_map (snd (m s))" "result_map (snd (m s)) = result_map s" using keep ms by simp_all
  show "m (with_pending R s) = map_prod id (with_pending R) (m s)"
    using blindD [OF assms, of R "hook_map s" s] keep(2) ms by (simp add: with_pending_def)
qed

lemma steady_pick [intro]: "steady (pick_hook E cls f)"
  unfolding steady_def
proof (intro allI conjI)
  fix s R
  obtain h s1 where p: "pick_hook E cls f s = (h, s1)" by fastforce
  from pick_hook_grows [OF p] p show "hook_map s \<subseteq>\<^sub>m hook_map (snd (pick_hook E cls f s))"
    "result_map (snd (pick_hook E cls f s)) = result_map s" by simp_all
  show "pick_hook E cls f (with_pending R s) = map_prod id (with_pending R) (pick_hook E cls f s)"
    by (rule pick_hook_pending)
qed

lemma steady_return [intro]: "steady (Pair x)" "(\<And>s R. g (with_pending R s) = g s) \<Longrightarrow> steady (\<lambda>s. (g s, s))"
  by (simp_all add: steady_def)

lemma steady_emit [intro]: "steady m \<Longrightarrow> steady (\<lambda>s. m (emit ev s))"
proof -
  assume "steady m"
  moreover have "steady (\<lambda>s. ((), emit ev s))" by (simp add: steady_def)
  ultimately show ?thesis using steady_bind [of "\<lambda>s. ((), emit ev s)" "\<lambda>_. m"] by simp
qed

lemma steady_call_ori [intro]: "steady (ori e) \<Longrightarrow> steady (call_ori ori f e)"
  unfolding call_ori_def [abs_def] by (rule steady_emit)

lemma steady_without_hook:
  assumes "\<And>e. steady (ori e)"
  shows "steady (without_hook ori e)"
proof -
  have "without_hook ori e = (\<lambda>s. case call_ori ori (Option.bind e fn_name) e s of (x, s1) \<Rightarrow> (snd x, s1))"
    by (simp add: without_hook_def fun_eq_iff split: prod.split)
  then show ?thesis
    using steady_bind [OF steady_call_ori [OF assms] steady_return(1)] by simp
qed

definition finish_hook :: "env \<Rightarrow> original \<Rightarrow> (zval \<Rightarrow> zval) \<Rightarrow> hook_id \<Rightarrow> exec_data \<Rightarrow> i64 option \<Rightarrow>
    (hook_data \<times> exec_data) outcome \<Rightarrow> agent \<Rightarrow> zval \<times> agent" where
  "finish_hook E ori rv_of h ed rid r s1 =
     (case r of
        Ok (d, ed1) \<Rightarrow>
          (case call_ori ori (fn_name ed) (Some ed1) s1 of
             (x, s2) \<Rightarrow> (case catch_unwind_result (run_after E h rid d (fst x) (rv_of (snd x))) s2 of (_, s3) \<Rightarrow> (snd x, s3)))
      | _ \<Rightarrow> (case call_ori ori (fn_name ed) (Some ed) s1 of (x, s2) \<Rightarrow> (snd x, s2)))"

lemma with_hook_eq:
  "with_hook E ori rv_of h ed s =
     (case catch_unwind_result (run_before E h (infer_request_id ed s) ed) s of (r, s1) \<Rightarrow>
        finish_hook E ori rv_of h ed (infer_request_id ed s) r s1)"
  by (auto simp: with_hook_def finish_hook_def Let_def split: prod.split outcome.split)
    (metis catch_unwind_state snd_conv)

lemma steady_finish_hook:
  assumes "\<And>e. steady (ori e)"
  shows "steady (finish_hook E ori rv_of h ed rid r)"
proof -
  note call = steady_call_ori [OF assms]
  note after = steady_bind [OF steady_blind [OF blind_catch [OF blind_after]] steady_return(1)]
  show ?thesis
  proof (cases r)
    case (Ok p)
    then show ?thesis
      using steady_bind [OF call after] by (cases p) (simp add: finish_hook_def [abs_def])
  qed (use steady_bind [OF call steady_return(1)] in \<open>simp_all add: finish_hook_def [abs_def]\<close>)
qed

lemma steady_with_hook:
  assumes "\<And>e. steady (ori e)"
  shows "steady (with_hook E ori rv_of h ed)"
proof -
  have rid: "steady (\<lambda>s. (infer_request_id ed s, s))" by (rule steady_return(2)) (simp add: infer_request_id_def)
  have "steady (\<lambda>s. case catch_unwind_result (run_before E h rid ed) s of (r, s1) \<Rightarrow>
      finish_hook E ori rv_of h ed rid r s1)" for rid
    by (rule steady_bind [OF steady_blind [OF blind_catch [OF blind_before]] steady_finish_hook [OF assms]])
  from steady_bind [OF rid this] show ?thesis by (simp add: with_hook_eq [abs_def])
qed

lemma steady_hooked:
  assumes "\<And>e. steady (ori e)"
  shows "steady (\<lambda>s. case pick_hook E cls f s of
     (None, s1) \<Rightarrow> without_hook ori e s1 | (Some h, s1) \<Rightarrow> with_hook E ori rv_of h ed s1)"
proof -
  have "steady (case h of None \<Rightarrow> without_hook ori e | Some h \<Rightarrow> with_hook E ori rv_of h ed)" for h
    by (cases h) (simp_all add: steady_without_hook steady_with_hook assms)
  then have "steady (\<lambda>s. case pick_hook E cls f s of (h, s1) \<Rightarrow>
      (case h of None \<Rightarrow> without_hook ori e | Some h \<Rightarrow> with_hook E ori rv_of h ed) s1)"
    by (rule steady_bind [OF steady_pick])
  moreover have "(\<lambda>s. case pick_hook E cls f s of (h, s1) \<Rightarrow>
      (case h of None \<Rightarrow> without_hook ori e | Some h \<Rightarrow> with_hook E ori rv_of h ed) s1) =
    (\<lambda>s. case pick_hook E cls f s of
     (None, s1) \<Rightarrow> without_hook ori e s1 | (Some h, s1) \<Rightarrow> with_hook E ori rv_of h ed s1)"
    by (auto simp: fun_eq_iff split: prod.split option.split)
  ultimately show ?thesis by simp
qed

lemma steady_execute:
  assumes "\<And>e. steady (ori e)"
  shows "steady (execute_internal E ori (Some ed) True)" "steady (execute_ex E ori (Some ed) has_rv)"
proof -
  have none: "steady (without_hook ori (Some ed))" by (rule steady_without_hook [OF assms])
  have some: "steady (\<lambda>s. case pick_hook E cls f s of
     (None, s1) \<Rightarrow> without_hook ori (Some ed) s1 | (Some h, s1) \<Rightarrow> with_hook E ori rv_of h ed s1)" for cls f rv_of
    by (rule steady_hooked [OF assms])
  have "steady (execute_internal E ori (Some ed) True) \<and> steady (execute_ex E ori (Some ed) has_rv)"
  proof (cases "get_function_and_class_name ed")
    case (Ok p)
    obtain f cls where "p = (f, cls)" by fastforce
    with none some Ok show ?thesis
      by (cases f; cases "f = Some HACK_SWOOLE_ON_REQUEST_FUNCTION_NAME")
        (simp_all add: execute_internal_def [abs_def] execute_ex_def [abs_def])
  qed (use none in \<open>simp_all add: execute_internal_def [abs_def] execute_ex_def [abs_def]\<close>)
  then show "steady (execute_internal E ori (Some ed) True)" "steady (execute_ex E ori (Some ed) has_rv)"
    by simp_all
qed

lemma steady_trees:
  "(\<And>t. t \<in> set ts \<Longrightarrow> steady (\<lambda>s. ((), run_tree E t s))) \<Longrightarrow> steady (\<lambda>s. ((), run_trees E ts s))"
proof (induction ts)
  case (Cons t ts)
  have "steady (\<lambda>s. ((), run_tree E t s))" "steady (\<lambda>s. ((), run_trees E ts s))" using Cons by simp_all
  from steady_bind [OF this(1), of "\<lambda>_ s. ((), run_trees E ts s)", OF this(2)] show ?case by simp
qed (simp add: steady_def)

lemma steady_tree: "steady (\<lambda>s. ((), run_tree E t s))"
proof (induction t)
  case (InternalCall ed rv ts)
  have "steady (\<lambda>s. ((case e of Some e \<Rightarrow> e | None \<Rightarrow> ed, rv), run_trees E ts s))" for e
    using steady_trees [of ts E] InternalCall.IH by (simp add: steady_def)
  from steady_execute(1) [of "\<lambda>e s. ((case e of Some e \<Rightarrow> e | None \<Rightarrow> ed, rv), run_trees E ts s)", OF this]
  show ?case by (simp add: steady_def)
next
  case (UserCall ed has_rv rv ts)
  have "steady (\<lambda>s. ((case e of Some e \<Rightarrow> e | None \<Rightarrow> ed, rv), run_trees E ts s))" for e
    using steady_trees [of ts E] UserCall.IH by (simp add: steady_def)
  from steady_execute(2) [of "\<lambda>e s. ((case e of Some e \<Rightarrow> e | None \<Rightarrow> ed, rv), run_trees E ts s)", OF this]
  show ?case by (simp add: steady_def)
qed

section \<open>Observed programs\<close>

text \<open>
  A call as the engine observes it: it asks once whether the function is observed, and then
  tells the agent of the beginning and the end, at which there may be no returned value.
\<close>

definition observed :: "env \<Rightarrow> exec_data \<Rightarrow> zval option \<Rightarrow> (agent \<Rightarrow> agent) \<Rightarrow> agent \<Rightarrow> agent" where
  "observed E ed rv body s =
     (case observer_handler E ed s of
        (False, s1) \<Rightarrow> body (emit (OriginalCalled (fn_name ed)) s1)
      | (True, s1) \<Rightarrow>
          (case observer_begin E ed s1 of
             (ed1, s2) \<Rightarrow> observer_end E ed1 rv (body (emit (OriginalCalled (fn_name ed)) s2))))"

fun observe_tree :: "env \<Rightarrow> call_tree \<Rightarrow> agent \<Rightarrow> agent"
  and observe_trees :: "env \<Rightarrow> call_tree list \<Rightarrow> agent \<Rightarrow> agent" where
  "observe_tree E (InternalCall ed rv ts) s = observed E ed (Some rv) (observe_trees E ts) s"
| "observe_tree E (UserCall ed has_rv rv ts) s =
     observed E ed (if has_rv then Some rv else None) (observe_trees E ts) s"
| "observe_trees E [] s = s"
| "observe_trees E (t # ts) s = observe_trees E ts (observe_tree E t s)"

text \<open>The addresses of the frames of a program; those of nested calls differ, as on a stack.\<close>

fun addresses :: "call_tree \<Rightarrow> nat set" where
  "addresses (InternalCall ed rv ts) = insert (address ed) (\<Union>t \<in> set ts. addresses t)"
| "addresses (UserCall ed has_rv rv ts) = insert (address ed) (\<Union>t \<in> set ts. addresses t)"

text \<open>The hack function is an internal function.\<close>

fun stacked :: "call_tree \<Rightarrow> bool" where
  "stacked (InternalCall ed rv ts) \<longleftrightarrow>
     (\<forall>t \<in> set ts. stacked t \<and> address ed \<notin> addresses t)"
| "stacked (UserCall ed has_rv rv ts) \<longleftrightarrow>
     fn_name ed \<noteq> Some HACK_SWOOLE_ON_REQUEST_FUNCTION_NAME \<and>
     (\<forall>t \<in> set ts. stacked t \<and> address ed \<notin> addresses t)"

lemma same_call_names:
  "same_call ed ed' \<Longrightarrow> get_function_and_class_name ed' = get_function_and_class_name ed \<and> address ed' = address ed"
  by (cases "opt_utf8 (fn_name ed)") (simp_all add: same_call_def get_function_and_class_name_def)

definition returning :: "exec_data \<Rightarrow> zval \<Rightarrow> (agent \<Rightarrow> agent) \<Rightarrow> original" where
  "returning ed rv body = (\<lambda>e s. ((case e of Some e \<Rightarrow> e | None \<Rightarrow> ed, rv), body s))"

text \<open>One observed call with a hook, whose body does the same in both kinds of interception.\<close>

lemma observed_hook:
  assumes body: "steady (\<lambda>s. ((), body s))"
    and same: "\<And>s. \<forall>a \<in> A. result_map s a = None \<Longrightarrow> obody s = body s"
    and free: "result_map s (address ed) = None" "\<forall>a \<in> A. result_map s a = None" "address ed \<notin> A"
    and names: "get_function_and_class_name ed = Ok (Some f, cls)" "f \<noteq> HACK_SWOOLE_ON_REQUEST_FUNCTION_NAME"
    and p: "pick_hook E cls f s = (Some h, s1)"
    and rv: "rv_of rv = (case rvo of Some v \<Rightarrow> v | None \<Rightarrow> ZNull)"
  shows "observed E ed rvo obody s = snd (with_hook E (returning ed rv body) rv_of h ed s1)"
proof -
  let ?a = "address ed" and ?rid = "infer_request_id ed s1"
  let ?call = "emit (OriginalCalled (fn_name ed))"
  have keep: "result_map s1 = result_map s" "hook_map s \<subseteq>\<^sub>m hook_map s1" using pick_hook_grows [OF p] by simp_all
  have handler: "observer_handler E ed s = (True, s1)" using names p by (simp add: observer_handler_def)
  have again: "pick_hook E cls f t = (Some h, t)" if "hook_map s1 \<subseteq>\<^sub>m hook_map t" for t
    using pick_hook_again [OF p that] .
  obtain r s2 where b: "run_before E h ?rid ed s1 = (r, s2)" by fastforce
  note kept = blind_keeps [OF blind_before b]
  show ?thesis
  proof (cases "\<exists>d ed1. r = Ok (d, ed1)")
    case True
    then obtain d ed1 where r: "r = Ok (d, ed1)" by blast
    note call = same_call_names [OF before_yields(2) [OF b [unfolded r]]]
    let ?R = "(result_map s2)(?a \<mapsto> d)"
    have begins: "observer_begin E ed s1 = (ed1, with_pending ?R s2)"
      using names again [of s1] b r kept keep free(1)
      by (simp add: observer_begin_def catch_unwind_result_def put_result_def with_pending_def with_results_def)
    obtain s3 where s3: "body (?call s2) = s3" by blast
    note st = steadyD [OF body, of "?call s2" "()" s3]
    have "\<forall>a \<in> A. ?R a = None" using free(2,3) kept keep by auto
    then have obody: "obody (?call (with_pending ?R s2)) = with_pending ?R s3"
      using same [of "with_pending ?R (?call s2)"] st(3) [of ?R] s3 by simp
    have maps: "result_map s3 = result_map s" "hook_map s1 \<subseteq>\<^sub>m hook_map s3"
      using st(1,2) s3 kept keep by (simp_all add: emit_def)
    have taken: "take_result ?a (with_pending ?R s3) = s3"
      using maps(1) kept keep free(1)
      by (simp add: take_result_def with_pending_def with_results_def map_remove_insert)
    have "observer_end E ed1 rvo (with_pending ?R s3) = snd (run_after E h ?rid d ed1 (rv_of rv) s3)"
      using names call again [OF maps(2)] taken rv after_ignores_request [of E h "infer_request_id ed1 s3" ?rid]
      by (simp add: observer_end_def Let_def)
    moreover have "snd (with_hook E (returning ed rv body) rv_of h ed s1) = snd (run_after E h ?rid d ed1 (rv_of rv) s3)"
      using b r s3 catch_unwind_state [of "run_after E h ?rid d ed1 (rv_of rv)" s3]
      by (simp add: with_hook_def Let_def catch_unwind_Ok_iff [THEN iffD2] call_ori_def returning_def)
    ultimately show ?thesis using handler begins obody by (simp add: observed_def)
  next
    case False
    have begins: "observer_begin E ed s1 = (ed, s2)"
      using names again [of s1] b False by (cases r) (auto simp: observer_begin_def catch_unwind_result_def)
    obtain s3 where s3: "body (?call s2) = s3" by blast
    note st = steadyD [OF body, of "?call s2" "()" s3]
    have obody: "obody (?call s2) = s3" using same [of "?call s2"] s3 free(2) kept keep by simp
    have "result_map s3 ?a = None" using st(2) s3 kept keep free(1) by simp
    then have "observer_end E ed rvo s3 = s3" by (simp add: observer_end_def)
    moreover have "snd (with_hook E (returning ed rv body) rv_of h ed s1) = s3"
      using b False s3 by (cases r) (auto simp: with_hook_def Let_def catch_unwind_result_def call_ori_def returning_def)
    ultimately show ?thesis using handler begins obody by (simp add: observed_def)
  qed
qed

text \<open>One observed call, hooked or not.\<close>

lemma observed_call:
  assumes body: "steady (\<lambda>s. ((), body s))"
    and same: "\<And>s. \<forall>a \<in> A. result_map s a = None \<Longrightarrow> obody s = body s"
    and free: "result_map s (address ed) = None" "\<forall>a \<in> A. result_map s a = None" "address ed \<notin> A"
  shows "observed E ed (Some rv) obody s = snd (execute_internal E (returning ed rv body) (Some ed) True s)"
    and "fn_name ed \<noteq> Some HACK_SWOOLE_ON_REQUEST_FUNCTION_NAME \<Longrightarrow>
      observed E ed (if has_rv then Some rv else None) obody s =
      snd (execute_ex E (returning ed rv body) (Some ed) has_rv s)"
proof -
  have plain: "observed E ed rvo obody s = snd (without_hook (returning ed rv body) (Some ed) s1)"
    if "observer_handler E ed s = (False, s1)" "result_map s1 = result_map s" for s1 rvo
    using that same [of "emit (OriginalCalled (fn_name ed)) s1"] free(2)
    by (simp add: observed_def without_hook_def call_ori_def returning_def)
  have no_hack: "f \<noteq> HACK_SWOOLE_ON_REQUEST_FUNCTION_NAME"
    if "get_function_and_class_name ed = Ok (Some f, cls)" "fn_name ed \<noteq> Some HACK_SWOOLE_ON_REQUEST_FUNCTION_NAME" for f cls
    using that by (auto simp: get_function_and_class_name_def opt_utf8_def expect_utf8_Ok_iff
        split: option.splits outcome.splits)
  have "observed E ed (Some rv) obody s = snd (execute_internal E (returning ed rv body) (Some ed) True s) \<and>
    (fn_name ed \<noteq> Some HACK_SWOOLE_ON_REQUEST_FUNCTION_NAME \<longrightarrow>
      observed E ed (if has_rv then Some rv else None) obody s =
      snd (execute_ex E (returning ed rv body) (Some ed) has_rv s))"
  proof (cases "\<exists>f cls. get_function_and_class_name ed = Ok (Some f, cls)")
    case False
    then have "observer_handler E ed s = (False, s)"
      by (auto simp: observer_handler_def split: outcome.split prod.split option.split)
    note plain [OF this refl]
    moreover have "execute_internal E (returning ed rv body) (Some ed) True s = without_hook (returning ed rv body) (Some ed) s"
      "execute_ex E (returning ed rv body) (Some ed) has_rv s = without_hook (returning ed rv body) (Some ed) s"
      using False by (auto simp: execute_internal_def execute_ex_def split: outcome.split prod.split option.split)
    ultimately show ?thesis by simp
  next
    case True
    then obtain f cls where names: "get_function_and_class_name ed = Ok (Some f, cls)" by blast
    obtain h s1 where p: "pick_hook E cls f s = (h, s1)" by fastforce
    note keep = pick_hook_grows [OF p]
    show ?thesis
    proof (cases "f = HACK_SWOOLE_ON_REQUEST_FUNCTION_NAME")
      case True
      then have "observer_handler E ed s = (False, s)" using names by (simp add: observer_handler_def)
      from plain [OF this refl] no_hack [OF names] True names show ?thesis by (auto simp: execute_internal_def)
    next
      case False
      show ?thesis
      proof (cases h)
        case None
        then have "observer_handler E ed s = (False, s1)" using names p False by (simp add: observer_handler_def)
        note plain [OF this conjunct2 [OF keep]]
        then show ?thesis using names p None False by (simp add: execute_internal_def execute_ex_def)
      next
        case (Some h')
        note hook = observed_hook [OF body same free names False p [unfolded Some]]
        have "observed E ed (Some rv) obody s = snd (with_hook E (returning ed rv body) (\<lambda>rv. rv) h' ed s1)"
          by (rule hook) simp_all
        moreover have "observed E ed (if has_rv then Some rv else None) obody s =
            snd (with_hook E (returning ed rv body) (\<lambda>rv. if has_rv then rv else ZNull) h' ed s1)"
          by (rule hook) simp_all
        ultimately show ?thesis using names p Some False by (simp add: execute_internal_def execute_ex_def)
      qed
    qed
  qed
  then show "observed E ed (Some rv) obody s = snd (execute_internal E (returning ed rv body) (Some ed) True s)"
    "fn_name ed \<noteq> Some HACK_SWOOLE_ON_REQUEST_FUNCTION_NAME \<Longrightarrow>
      observed E ed (if has_rv then Some rv else None) obody s =
      snd (execute_ex E (returning ed rv body) (Some ed) has_rv s)" by simp_all
qed

lemma observe_trees_eq:
  assumes "\<And>t s. t \<in> set ts \<Longrightarrow> \<forall>a \<in> addresses t. result_map s a = None \<Longrightarrow> observe_tree E t s = run_tree E t s"
  shows "\<forall>a \<in> (\<Union>t \<in> set ts. addresses t). result_map s a = None \<Longrightarrow> observe_trees E ts s = run_trees E ts s"
  using assms
proof (induction ts arbitrary: s)
  case (Cons t ts)
  have "result_map (run_tree E t s) = result_map s"
    using steady_tree [of E t] by (simp add: steady_def)
  then have "observe_trees E ts (run_tree E t s) = run_trees E ts (run_tree E t s)"
    using Cons.prems by (intro Cons.IH) auto
  moreover have "observe_tree E t s = run_tree E t s" using Cons.prems by simp
  ultimately show ?case by simp
qed simp

lemma observe_tree_eq:
  "stacked t \<Longrightarrow> \<forall>a \<in> addresses t. result_map s a = None \<Longrightarrow> observe_tree E t s = run_tree E t s"
proof (induction t arbitrary: s)
  case (InternalCall ed rv ts)
  let ?A = "\<Union>t \<in> set ts. addresses t"
  have "steady (\<lambda>s. ((), run_trees E ts s))" by (rule steady_trees [OF steady_tree])
  moreover have "observe_trees E ts s = run_trees E ts s" if "\<forall>a \<in> ?A. result_map s a = None" for s
    by (rule observe_trees_eq [OF _ that]) (use InternalCall in simp)
  ultimately have "observed E ed (Some rv) (observe_trees E ts) s =
      snd (execute_internal E (returning ed rv (run_trees E ts)) (Some ed) True s)"
    by (rule observed_call(1) [where A = ?A]) (use InternalCall.prems in auto)
  then show ?case by (simp add: returning_def)
next
  case (UserCall ed has_rv rv ts)
  let ?A = "\<Union>t \<in> set ts. addresses t"
  have "steady (\<lambda>s. ((), run_trees E ts s))" by (rule steady_trees [OF steady_tree])
  moreover have "observe_trees E ts s = run_trees E ts s" if "\<forall>a \<in> ?A. result_map s a = None" for s
    by (rule observe_trees_eq [OF _ that]) (use UserCall in simp)
  ultimately have "observed E ed (if has_rv then Some rv else None) (observe_trees E ts) s =
      snd (execute_ex E (returning ed rv (run_trees E ts)) (Some ed) has_rv s)"
    by (rule observed_call(2) [where A = ?A]) (use UserCall.prems in auto)
  then show ?case by (simp add: returning_def)
qed

section \<open>Properties\<close>

text \<open>
  The two kinds of interception are equivalent.  For every program whose nested frames have
  different addresses, started with no pending result for any of them, the agent is in the very
  same state afterwards whether the engine's execute functions are replaced or the engine observes
  the calls: the same spans with the same contents, the same calls into PHP in the same order,
  the same tables; whatever the hooks do, fail or panic, and whether or not values are returned.
\<close>

theorem observers_equal_replacement:
  assumes "stacked t" and "\<forall>a \<in> addresses t. result_map s a = None"
  shows "observe_tree E t s = run_tree E t s"
  using assms by (rule observe_tree_eq)

theorem observers_equal_replacement_witness:
  "observe_tree sample_env
     (UserCall (sample_frame None (Some ''main'') None []) True ZNull
        [InternalCall (sample_frame None (Some ''curl_close'') None [ZRes 7]\<lparr>address := 8\<rparr>) ZNull []]) sample_agent =
   run_tree sample_env
     (UserCall (sample_frame None (Some ''main'') None []) True ZNull
        [InternalCall (sample_frame None (Some ''curl_close'') None [ZRes 7]\<lparr>address := 8\<rparr>) ZNull []]) sample_agent"
  by (rule observers_equal_replacement) (simp_all add: HACK_SWOOLE_ON_REQUEST_FUNCTION_NAME_def)

end
