(* ===== verification/Own_Calls.thy ===== *)
theory Own_Calls
  imports Observers
begin

text \<open>
  The calls into PHP that hooks make themselves.  They go through the same engine and hence the
  same interceptors as the calls of the program.  This theory shows which calls these are, and
  that the agent does not trace itself: none of them has a hook, but for the \<^verbatim>\<open>curl_setopt\<close> of the curl
  plugin, whose hook only puts the real option in place of the plugin's private one.
\<close>

section \<open>Which calls\<close>

definition OWN_FUNCTIONS :: "bytes list" where
  "OWN_FUNCTIONS = [''curl_getinfo'', ''curl_error'', ''is_a'', ''method_exists'', ''class_exists'', ''mysqli_get_host_info'']"

definition OWN_METHODS :: "bytes list" where
  "OWN_METHODS = [''getTraceAsString'', ''getConnection'', ''getParameters'', ''__get'', ''getserverbykey'',
     ''getresultcode'', ''getresultmessage'', ''getExtendedStats'', ''errorInfo'', ''getServers'', ''getHost'', ''getPort'',
     ''__toString'']"

definition MESSAGE_METHODS :: "bytes list" where
  "MESSAGE_METHODS = [''has'', ''get'', ''set'']"

fun own_call :: "callee \<Rightarrow> zval list \<Rightarrow> bool" where
  "own_call (GlobalFn f) args \<longleftrightarrow> f \<in> set OWN_FUNCTIONS \<or>
     f = ''curl_setopt'' \<and> length args = 3 \<and> args ! 1 = ZLong SKY_CURLOPT_HTTPHEADER"
| "own_call (MethodOf h m) args \<longleftrightarrow> m \<in> set OWN_METHODS \<union> set MESSAGE_METHODS"
| "own_call (NewObject c) args \<longleftrightarrow> c = TABLE_CLASS"

text \<open>All calls but those made before.\<close>

definition own_calls :: "event set \<Rightarrow> agent \<Rightarrow> bool" where
  "own_calls L s \<longleftrightarrow> (\<forall>c args. PhpCall c args \<in> set (log s) - L \<longrightarrow> own_call c args)"

lemma own_calls_same [simp]:
  "own_calls L (upd_span i cs s) = own_calls L s" "own_calls L (close_span i s) = own_calls L s"
  "own_calls L (close_spans is s) = own_calls L s"
proof -
  show close: "own_calls L (close_span i s) = own_calls L s" for i s
    by (simp add: own_calls_def close_span_def split: option.split)
  show "own_calls L (close_spans is s) = own_calls L s"
    unfolding close_spans_def by (induction "is" arbitrary: s) (simp_all add: close)
qed (simp add: own_calls_def)

lemma own_calls_log: "log t = log s \<Longrightarrow> own_calls L t = own_calls L s"
  by (simp add: own_calls_def)

lemma own_calls_emit: "(\<And>c args. ev = PhpCall c args \<Longrightarrow> own_call c args) \<Longrightarrow> own_calls L s \<Longrightarrow> own_calls L (emit ev s)"
  by (auto simp: own_calls_def)

lemma own_calls_call [intro]: "own_call c args \<Longrightarrow> keeps (own_calls L) (call E c args)"
  by (intro keeps_call own_calls_emit) simp_all

lemma own_calls_method [intro]:
  "m \<in> set OWN_METHODS \<union> set MESSAGE_METHODS \<Longrightarrow> keeps (own_calls L) (call_method E ob m args)"
  unfolding call_method_def by (rule own_calls_call) simp

lemma own_calls_on_span [intro]: "keeps (own_calls L) (on_span i cs)"
  by (simp add: keeps_def)

lemma own_calls_open_span [intro]: "keeps (own_calls L) (open_span sp)"
  by (simp add: keeps_def open_span_def own_calls_def)

lemma own_calls_modify [intro]: "(\<And>s. log (u s) = log s) \<Longrightarrow> keeps (own_calls L) (modify u)"
  by (simp add: keeps_def own_calls_def)

lemma in_own_methods:
  "''getTraceAsString'' \<in> set OWN_METHODS" "''getConnection'' \<in> set OWN_METHODS" "''getParameters'' \<in> set OWN_METHODS"
  "''__get'' \<in> set OWN_METHODS" "''getserverbykey'' \<in> set OWN_METHODS" "''getresultcode'' \<in> set OWN_METHODS"
  "''getresultmessage'' \<in> set OWN_METHODS" "''getExtendedStats'' \<in> set OWN_METHODS" "''errorInfo'' \<in> set OWN_METHODS"
  "''getServers'' \<in> set OWN_METHODS" "''getHost'' \<in> set OWN_METHODS" "''getPort'' \<in> set OWN_METHODS"
  "''__toString'' \<in> set OWN_METHODS" "''has'' \<in> set MESSAGE_METHODS" "''get'' \<in> set MESSAGE_METHODS"
  "''set'' \<in> set MESSAGE_METHODS"
  by (simp_all add: OWN_METHODS_def MESSAGE_METHODS_def)

lemma in_own_functions:
  "''curl_getinfo'' \<in> set OWN_FUNCTIONS" "''curl_error'' \<in> set OWN_FUNCTIONS" "''is_a'' \<in> set OWN_FUNCTIONS"
  "''method_exists'' \<in> set OWN_FUNCTIONS" "''class_exists'' \<in> set OWN_FUNCTIONS" "''mysqli_get_host_info'' \<in> set OWN_FUNCTIONS"
  by (simp_all add: OWN_FUNCTIONS_def)

lemmas own_intros = keeps_simple own_calls_call own_calls_method own_calls_on_span own_calls_open_span own_calls_modify
  keeps_andthen keeps_attempt keeps_on_exit keeps_on_failure keeps_if keeps_case_option keeps_case_outcome
  keeps_try_with_global keeps_try_with_global_ctx

lemma own_parts [intro, simp]:
  "keeps (own_calls L) (log_exception E i)" "keeps (own_calls L) (mark_false i rv)" "keeps (own_calls L) (try_get_sw_header E rid pr)"
  "keeps (own_calls L) (get_curl_info E cid ch)" "keeps (own_calls L) (inject_sw_header E rid ch info)"
  "keeps (own_calls L) (curl_create_exit_span rid info)" "keeps (own_calls L) (finish_exit_span E i ch)"
proof -
  show exc: "keeps (own_calls L) (log_exception E i)" for i
    unfolding log_exception_def Let_def by (intro own_intros) (simp add: in_own_methods)
  show "keeps (own_calls L) (mark_false i rv)"
    unfolding mark_false_def by (intro own_intros)
  show sw: "keeps (own_calls L) (try_get_sw_header E rid pr)"  for rid pr
    unfolding try_get_sw_header_def by (intro own_intros)
  show "keeps (own_calls L) (get_curl_info E cid ch)"
    unfolding get_curl_info_def by (intro own_intros) (simp add: in_own_functions)
  show "keeps (own_calls L) (inject_sw_header E rid ch info)"
    unfolding inject_sw_header_def by (intro own_intros sw) (simp_all add: del_headers_def)
  show "keeps (own_calls L) (curl_create_exit_span rid info)"
    unfolding curl_create_exit_span_def create_exit_span_in_def create_exit_span_def decorate_curl_span_def
    by (intro own_intros)
  show "keeps (own_calls L) (finish_exit_span E i ch)"
    unfolding finish_exit_span_def report_status_def by (intro own_intros exc) (simp_all add: in_own_functions)
qed

lemma own_with_exit_span [intro]: "(\<And>i. keeps (own_calls L) (k i)) \<Longrightarrow> keeps (own_calls L) (with_exit_span rid op pr ed k)"
  unfolding with_exit_span_def create_exit_span_in_def create_exit_span_def by (intro own_intros) simp_all

lemma own_downcast [intro]:
  "(\<And>i. keeps (own_calls L) (k i)) \<Longrightarrow> keeps (own_calls L) (downcast_span d k)"
  "(\<And>i. keeps (own_calls L) (k i)) \<Longrightarrow> keeps (own_calls L) (expect_span d k)"
  by (cases d; simp add: downcast_span_def expect_span_def keeps_on_exit)+

lemma own_loops [intro, simp]:
  "keeps (own_calls L) (collect_infos E hs)" "keeps (own_calls L) (open_transfers E rid is acc)"
  "keeps (own_calls L) (finish_transfers E sps handles)"
  "keeps (own_calls L) (server_addresses E servers addr)" "keeps (own_calls L) (context_tags E a tags)"
proof -
  show "keeps (own_calls L) (collect_infos E hs)"
    by (induction E hs rule: collect_infos.induct)
      (simp_all only: collect_infos.simps keeps_simple, intro own_intros own_parts)
  show "keeps (own_calls L) (open_transfers E rid is acc)"
    by (induction E rid "is" acc rule: open_transfers.induct)
      (simp_all only: open_transfers.simps keeps_simple, intro own_intros own_parts, simp_all)
  show "keeps (own_calls L) (finish_transfers E sps handles)"
  proof (induction sps arbitrary: handles)
    case (Cons a sps)
    obtain cid i where "a = (cid, i)" by fastforce
    then show ?case
      by (simp only: finish_transfers.simps) (intro own_intros own_parts Cons.IH keeps_modify; simp)
  qed (simp only: finish_transfers.simps keeps_simple)
  show "keeps (own_calls L) (server_addresses E servers addr)"
    by (induction E servers addr rule: server_addresses.induct)
      (simp_all only: server_addresses.simps keeps_simple, intro own_intros, simp_all add: in_own_methods)
  have val: "keeps (own_calls L) (context_value E v)" for E v
    by (cases v) (auto simp: context_value_def cast_object_to_string_def in_own_methods in_own_functions intro!: own_intros)
  show "keeps (own_calls L) (context_tags E a tags)"
    by (induction E a tags rule: context_tags.induct)
      (simp_all only: context_tags.simps keeps_simple, intro own_intros val)
qed

lemma own_peers [intro, simp]:
  "keeps (own_calls L) (predis_get_peer E c)" "keeps (own_calls L) (memcached_get_peer E this key)"
  "keeps (own_calls L) (memcache_get_peer E this)" "keeps (own_calls L) (mongodb_get_peer E this)"
  "keeps (own_calls L) (get_peer_by_this E this)"
proof -
  show "keeps (own_calls L) (predis_get_peer E c)"
    unfolding predis_get_peer_def infer_connection_type_def
    by (intro keeps_andthen own_intros; (split connection_type.split, intro conjI impI own_intros)?)
      (simp_all add: in_own_methods in_own_functions)
  show "keeps (own_calls L) (memcached_get_peer E this key)"
    unfolding memcached_get_peer_def by (intro own_intros) (simp add: in_own_methods)
  show "keeps (own_calls L) (memcache_get_peer E this)"
    unfolding memcache_get_peer_def by (intro own_intros) (simp_all add: in_own_methods)
  show "keeps (own_calls L) (mongodb_get_peer E this)"
    unfolding mongodb_get_peer_def by (intro own_intros own_loops) (simp add: in_own_methods)
  show "keeps (own_calls L) (get_peer_by_this E this)"
    unfolding get_peer_by_this_def by (intro own_intros) (simp add: in_own_functions)
qed

lemma own_before: "keeps (own_calls L) (run_before E h rid ed)"
proof (cases h)
  case HCurlMultiExec
  then show ?thesis
    by (simp only: run_before.simps curl_multi_exec_before_def) (intro own_intros own_loops; simp)
next
  case HCurlMultiClose
  have "own_calls L s \<Longrightarrow> own_calls L (drop_multi mid s)" for mid s
    by (cases "curl_multi s mid") (simp_all add: drop_multi_def take_multi_def own_calls_log [of "_\<lparr>curl_multi := _\<rparr>"])
  then show ?thesis
    by (simp only: HCurlMultiClose run_before.simps curl_multi_close_before_def) (intro own_intros keeps_modify)
qed (auto simp: curl_setopt_before_def curl_setopt_array_before_def curl_exec_before_def
      curl_close_before_def curl_multi_add_handle_before_def curl_multi_remove_handle_before_def
      put_headers_def del_headers_def upd_multi_def decorate_curl_span_def
      pdo_construct_before_def hack_dtor_def insert_dsn_def
      pdo_methods_before_def pdo_statement_methods_before_def dsn_span_def with_dsn_def tag_statement_def
      mysqli_connect_before_def mysqli_methods_before_def mysqli_span_def swoole_on_before_def store_on_request_def
      swoole_handle_before_def swoole_status_before_def put_status_def hack_callback_def predis_before_def
      memcached_empty_before_def memcached_key_before_def memcached_server_key_before_def
      memcached_span_def redis_construct_before_def hack_free_def redis_connect_before_def insert_redis_peer_def
      redis_methods_before_def amqp_publish_before_def amqp_inject_sw_header_def new_sw_headers_def
      before_manager_crud_hook_def memcache_server_before_def del_memcache_peer_def memcache_empty_before_def
      memcache_key_before_def memcache_span_def psr_log_methods_before_def psr_log_before_def
      handle_message_def handle_context_def cast_object_to_string_def handle_log_def Let_def
      in_own_methods in_own_functions
      intro!: own_intros own_with_exit_span keeps_modify [where g = "emit _"] own_calls_emit)

lemma own_after: "keeps (own_calls L) (run_after E h rid d ed rv)"
  by (cases h; cases d)
    (auto simp: noop_after_def curl_exec_after_def curl_multi_exec_after_def take_multi_def pdo_construct_after_def
      pdo_after_hook_def after_hook_when_false_def after_hook_when_pdo_statement_def hack_dtor_def insert_dsn_def Let_def
      mysqli_connect_after_def mysqli_methods_after_def reset_peer_def predis_after_def
      memcached_after_hook_def report_result_code_def redis_after_hook_def amqp_publish_after_def
      after_manager_crud_hook_def memcache_after_hook_def in_own_methods intro!: own_intros own_downcast)

section \<open>They have no hooks\<close>

lemma fresh_hook_none:
  "(\<And>p. plugin_matches E l cls f p \<Longrightarrow> plugin_hook E p cls f = Ok None) \<Longrightarrow> fresh_hook E l cls f = Ok None"
  by (simp add: fresh_hook_def select_plugin_def split: option.split) (blast dest: find_SomeD)

lemma own_functions_unhooked:
  assumes "f \<in> set OWN_FUNCTIONS"
  shows "fresh_hook E l None f = Ok None"
proof (rule fresh_hook_none)
  fix p assume "plugin_matches E l None f p"
  moreover have "\<forall>f \<in> set OWN_FUNCTIONS. \<not> starts_with f MEMCACHE_PREFIX" "\<forall>f \<in> set OWN_FUNCTIONS. curl_hook None f = None"
    "\<forall>f \<in> set OWN_FUNCTIONS. mysqli_hook None f = None" by code_simp+
  ultimately show "plugin_hook E p None f = Ok None"
    using assms by (cases p) (simp_all add: plugin_matches_def)
qed

text \<open>Names that no plugin hooks, in whatever class.\<close>

definition no_hook_name :: "bytes \<Rightarrow> bool" where
  "no_hook_name m \<longleftrightarrow> curl_hook None m = None \<and> pdo_hook (Some ''PDO'') m = None \<and> pdo_hook (Some ''PDOStatement'') m = None \<and>
     mysqli_hook (Some ''mysqli'') m = None \<and>
     m \<notin> {''on'', ''handle'', ''status'', ''__call'', ''basic_publish''} \<and> is_ascii m \<and>
     map ascii_upper m \<notin> {''EMERGENCY'', ''ALERT'', ''CRITICAL'', ''ERROR'', ''WARNING'', ''NOTICE'', ''INFO'', ''DEBUG'', ''LOG''} \<and>
     mongodb_hook (Some MANAGER_CLASS_NAME) m = None"

definition no_cache_name :: "bytes \<Rightarrow> bool" where
  "no_cache_name m \<longleftrightarrow> memcached_hook (Some ''Memcached'') m = None \<and> redis_hook (Some ''Redis'') m = None \<and>
     memcache_hook (Some ''Memcache'') m = Ok None \<and> memcache_hook (Some ''MemcachePool'') m = Ok None"

lemma no_hook_name_unhooked:
  assumes "no_hook_name m" and "cls \<in> {''Redis'', ''Memcached'', ''Memcache'', ''MemcachePool''} \<longrightarrow> no_cache_name m"
  shows "fresh_hook E l (Some cls) m = Ok None"
proof (rule fresh_hook_none)
  fix p
  show "plugin_hook E p (Some cls) m = Ok None"
  proof (cases p)
    case CurlPlugin
    with assms(1) show ?thesis by (simp add: no_hook_name_def curl_hook_def)
  next
    case PdoPlugin
    with assms(1) show ?thesis
      by (cases "cls = ''PDO''"; cases "cls = ''PDOStatement''") (simp_all add: no_hook_name_def, simp_all add: pdo_hook_def)
  next
    case MySQLImprovedPlugin
    with assms(1) show ?thesis
      by (cases "cls = ''mysqli''") (simp_all add: no_hook_name_def, simp_all add: mysqli_hook_def)
  next
    case MongodbPlugin
    with assms(1) show ?thesis
      by (cases "cls = MANAGER_CLASS_NAME") (simp_all add: no_hook_name_def, simp_all add: mongodb_hook_def)
  next
    case MemcachedPlugin
    with assms(2) show ?thesis
      by (cases "cls = ''Memcached''") (simp_all add: no_cache_name_def, simp_all add: memcached_hook_def)
  next
    case RedisPlugin
    with assms(2) show ?thesis
      by (cases "cls = ''Redis''") (simp_all add: no_cache_name_def, simp_all add: redis_hook_def)
  next
    case MemcachePlugin
    with assms(2) show ?thesis
      by (cases "cls = ''Memcache''"; cases "cls = ''MemcachePool''")
        (simp_all add: no_cache_name_def, simp_all add: memcache_hook_def)
  next
    case Psr3Plugin
    with assms(1) show ?thesis by (simp add: no_hook_name_def psr3_hook_def to_uppercase_ascii)
  qed (use assms(1) in \<open>simp_all add: no_hook_name_def swoole_server_hook_def swoole_response_hook_def predis_hook_def
    amqplib_hook_def\<close>)
qed

lemma own_names_lower:
  "to_ascii_lowercase ''getTraceAsString'' = ''gettraceasstring''" "to_ascii_lowercase ''getConnection'' = ''getconnection''"
  "to_ascii_lowercase ''getParameters'' = ''getparameters''" "to_ascii_lowercase ''__get'' = ''__get''"
  "to_ascii_lowercase ''getserverbykey'' = ''getserverbykey''" "to_ascii_lowercase ''getresultcode'' = ''getresultcode''"
  "to_ascii_lowercase ''getresultmessage'' = ''getresultmessage''" "to_ascii_lowercase ''getExtendedStats'' = ''getextendedstats''"
  "to_ascii_lowercase ''errorInfo'' = ''errorinfo''" "to_ascii_lowercase ''getServers'' = ''getservers''"
  "to_ascii_lowercase ''getHost'' = ''gethost''" "to_ascii_lowercase ''getPort'' = ''getport''"
  "to_ascii_lowercase ''__toString'' = ''__tostring''" "to_ascii_lowercase ''has'' = ''has''"
  "to_ascii_lowercase ''get'' = ''get''" "to_ascii_lowercase ''set'' = ''set''"
  by code_simp+

lemma ascii_lower_upper: "ascii_lower (ascii_upper c) = ascii_lower c"
  by (auto simp: ascii_lower_def ascii_upper_def in_range_def)

lemma upper_lower: "map ascii_upper m = n \<Longrightarrow> to_ascii_lowercase m = to_ascii_lowercase n"
  by (auto simp: to_ascii_lowercase_def ascii_lower_upper)

lemma level_names_lower:
  "map to_ascii_lowercase [''EMERGENCY'', ''ALERT'', ''CRITICAL'', ''ERROR'', ''WARNING'', ''NOTICE'', ''INFO'', ''DEBUG'', ''LOG''] =
   [''emergency'', ''alert'', ''critical'', ''error'', ''warning'', ''notice'', ''info'', ''debug'', ''log'']"
  by code_simp

lemma not_level_name:
  assumes "to_ascii_lowercase m \<notin>
    {''emergency'', ''alert'', ''critical'', ''error'', ''warning'', ''notice'', ''info'', ''debug'', ''log''}"
  shows "map ascii_upper m \<notin>
    {''EMERGENCY'', ''ALERT'', ''CRITICAL'', ''ERROR'', ''WARNING'', ''NOTICE'', ''INFO'', ''DEBUG'', ''LOG''}"
  using assms level_names_lower by (auto dest!: upper_lower simp del: map_eq_Cons_conv Cons_eq_map_conv)

lemma own_names:
  "\<forall>m \<in> set OWN_METHODS \<union> set MESSAGE_METHODS. no_hook_name m" "\<forall>m \<in> set OWN_METHODS. no_cache_name m"
proof -
  have ascii: "\<forall>m \<in> set OWN_METHODS \<union> set MESSAGE_METHODS. is_ascii m" by code_simp
  have mongo: "\<forall>m \<in> set OWN_METHODS \<union> set MESSAGE_METHODS. mongodb_hook (Some MANAGER_CLASS_NAME) m = None"
    by (simp add: OWN_METHODS_def MESSAGE_METHODS_def mongodb_hook_def own_names_lower)
  have plain: "\<forall>m \<in> set OWN_METHODS \<union> set MESSAGE_METHODS. curl_hook None m = None \<and> pdo_hook (Some ''PDO'') m = None \<and>
      pdo_hook (Some ''PDOStatement'') m = None \<and> mysqli_hook (Some ''mysqli'') m = None \<and>
      m \<notin> {''on'', ''handle'', ''status'', ''__call'', ''basic_publish''}"
    by (simp add: OWN_METHODS_def MESSAGE_METHODS_def curl_hook_def pdo_hook_def mysqli_hook_def)
  have level: "\<forall>m \<in> set OWN_METHODS \<union> set MESSAGE_METHODS. to_ascii_lowercase m \<notin>
      {''emergency'', ''alert'', ''critical'', ''error'', ''warning'', ''notice'', ''info'', ''debug'', ''log''}"
    by (simp add: OWN_METHODS_def MESSAGE_METHODS_def own_names_lower)
  show "\<forall>m \<in> set OWN_METHODS \<union> set MESSAGE_METHODS. no_hook_name m"
  proof
    fix m assume m: "m \<in> set OWN_METHODS \<union> set MESSAGE_METHODS"
    note level = not_level_name [OF bspec [OF level m]]
    with bspec [OF ascii m] bspec [OF mongo m] bspec [OF plain m] show "no_hook_name m"
      unfolding no_hook_name_def by (intro conjI) (assumption | elim conjE, assumption)+
  qed
  let ?low = "[''gettraceasstring'', ''getconnection'', ''getparameters'', ''__get''
      , ''getserverbykey'', ''getresultcode'', ''getresultmessage'', ''getextendedstats''
      , ''errorinfo'', ''getservers'', ''gethost'', ''getport''
      , ''__tostring'']"
  have low: "\<forall>m \<in> set OWN_METHODS. to_ascii_lowercase m \<in> set ?low"
    by (simp add: OWN_METHODS_def own_names_lower)
  have tables: "\<forall>k \<in> set ?low. \<not> has_method MEMCACHED_EMPTY_METHOD_MAPPING k \<and> \<not> has_method MEMCACHED_KEY_METHOD_MAPPING k \<and>
      \<not> has_method MEMCACHED_SERVER_KEY_METHOD_MAPPING k \<and> \<not> contains_key REDIS_ALL_MAPPING k \<and>
      \<not> has_method MEMCACHE_EMPTY_METHOD_MAPPING k \<and> \<not> has_method MEMCACHE_KEY_METHOD_MAPPING k \<and>
      k \<notin> {''connect'', ''addserver'', ''close''}"
    by code_simp
  have "\<forall>m \<in> set OWN_METHODS. m \<notin> {''__construct'', ''connect'', ''open'', ''pconnect'', ''popen''}" by code_simp
  then have "memcached_hook (Some ''Memcached'') m = None" "redis_hook (Some ''Redis'') m = None"
    "memcache_hook (Some ''Memcache'') m = Ok None" "memcache_hook (Some ''MemcachePool'') m = Ok None" if "m \<in> set OWN_METHODS" for m
    using bspec [OF tables bspec [OF low that]] that
    by (simp_all add: memcached_hook_def redis_hook_def memcache_hook_def Let_def)
  then show "\<forall>m \<in> set OWN_METHODS. no_cache_name m" unfolding no_cache_name_def by simp
qed

text \<open>The constructor of the header table: no plugin hooks it in a class that is none of its own.\<close>

lemma table_class_unhooked: "fresh_hook E l (Some TABLE_CLASS) ''__construct'' = Ok None"
proof (rule fresh_hook_none)
  fix p
  have "TABLE_CLASS \<notin> {''PDO'', ''PDOStatement'', ''mysqli'', ''Redis'', ''Memcached'', ''Memcache'', ''MemcachePool'', CLIENT_CLASS,
      CHANNEL_CLASS, MANAGER_CLASS_NAME}" "curl_hook (Some TABLE_CLASS) ''__construct'' = None"
    "is_ascii ''__construct''" by code_simp+
  moreover have "map ascii_upper ''__construct'' \<notin>
    {''EMERGENCY'', ''ALERT'', ''CRITICAL'', ''ERROR'', ''WARNING'', ''NOTICE'', ''INFO'', ''DEBUG'', ''LOG''}"
    by (rule not_level_name) code_simp
  ultimately show "plugin_hook E p (Some TABLE_CLASS) ''__construct'' = Ok None"
    by (cases p) (simp_all add: pdo_hook_def mysqli_hook_def swoole_server_hook_def swoole_response_hook_def
        predis_hook_def memcached_hook_def redis_hook_def amqplib_hook_def mongodb_hook_def memcache_hook_def psr3_hook_def
        to_uppercase_ascii)
qed

lemma own_methods_unhooked: "m \<in> set OWN_METHODS \<Longrightarrow> fresh_hook E l (Some cls) m = Ok None"
  using own_names by (intro no_hook_name_unhooked) blast+

lemma message_methods_unhooked:
  "m \<in> set MESSAGE_METHODS \<Longrightarrow> cls \<notin> {''Redis'', ''Memcached'', ''Memcache'', ''MemcachePool''} \<Longrightarrow>
   fresh_hook E l (Some cls) m = Ok None"
  using own_names by (intro no_hook_name_unhooked) blast+

text \<open>The hook of the plugin's own \<^verbatim>\<open>curl_setopt\<close> only exchanges the option.\<close>

lemma private_option_exchanged:
  assumes "num_args ed = 3" "get_parameter ed 1 = ZLong SKY_CURLOPT_HTTPHEADER" "get_resource_id ed = Ok cid"
  shows "run_before E HCurlSetopt rid ed s = (Ok (DUnit, set_parameter ed 1 (ZLong CURLOPT_HTTPHEADER)), s)"
  using assms by (simp add: curl_setopt_before_def validate_num_args_def)

text \<open>What the interceptors do to a call that leaves the agent alone.\<close>

fun leaves_alone :: "env \<Rightarrow> callee \<Rightarrow> zval list \<Rightarrow> bool" where
  "leaves_alone E (GlobalFn f) args \<longleftrightarrow>
     (\<forall>l. fresh_hook E l None f = Ok None) \<or>
     f = ''curl_setopt'' \<and>
       (\<forall>ed cid rid s. num_args ed = length args \<longrightarrow> (\<forall>i < length args. get_parameter ed i = args ! i) \<longrightarrow>
          get_resource_id ed = Ok cid \<longrightarrow>
          run_before E HCurlSetopt rid ed s = (Ok (DUnit, set_parameter ed 1 (ZLong CURLOPT_HTTPHEADER)), s))"
| "leaves_alone E (MethodOf h m) args \<longleftrightarrow>
     (\<forall>l cls. (m \<in> set MESSAGE_METHODS \<longrightarrow> cls \<notin> {''Redis'', ''Memcached'', ''Memcache'', ''MemcachePool''}) \<longrightarrow>
        fresh_hook E l (Some cls) m = Ok None)"
| "leaves_alone E (NewObject c) args \<longleftrightarrow> (\<forall>l. fresh_hook E l (Some c) ''__construct'' = Ok None)"

lemma own_call_leaves_alone: "own_call c args \<Longrightarrow> leaves_alone E c args"
proof (cases c)
  case (GlobalFn f)
  assume "own_call c args"
  then show ?thesis
    using own_functions_unhooked [of f E] private_option_exchanged [where E = E] by (auto simp: GlobalFn)
next
  case (MethodOf h m)
  assume "own_call c args"
  then show ?thesis
    using own_methods_unhooked [of m E] message_methods_unhooked [of m _ E] by (auto simp: MethodOf)
next
  case (NewObject cn)
  assume "own_call c args"
  then show ?thesis using table_class_unhooked [of E] by (simp add: NewObject)
qed

section \<open>Whole programs\<close>

lemma own_calls_snd: "keeps (own_calls L) m \<Longrightarrow> own_calls L s \<Longrightarrow> own_calls L (snd (catch_unwind_result m s))"
  by (simp add: keepsD)

lemma own_calls_pick: "own_calls L s \<Longrightarrow> own_calls L (snd (pick_hook E cls f s))"
  using pick_hook_cases [of E cls f s "fst (pick_hook E cls f s)" "snd (pick_hook E cls f s)"]
  by (auto simp: own_calls_def put_hook_def)

lemma own_calls_ori:
  assumes "\<And>s. own_calls L s \<Longrightarrow> own_calls L (snd (ori e s))" "own_calls L s"
  shows "own_calls L (snd (call_ori ori f e s))"
  unfolding call_ori_def by (intro assms own_calls_emit) simp

lemma own_calls_with_hook:
  assumes ori: "\<And>e s. own_calls L s \<Longrightarrow> own_calls L (snd (ori e s))" and s: "own_calls L s"
  shows "own_calls L (snd (with_hook E ori rv_of h ed s))"
proof -
  obtain r s1 where b: "catch_unwind_result (run_before E h (infer_request_id ed s) ed) s = (r, s1)" by fastforce
  have s1: "own_calls L s1" using own_calls_snd [OF own_before s] b by (metis snd_conv)
  have call: "own_calls L (snd (call_ori ori f e s1))" for f e using own_calls_ori [OF ori s1] .
  show ?thesis
  proof (cases r)
    case (Ok p)
    obtain d ed1 where p: "p = (d, ed1)" by fastforce
    obtain x s2 where c: "call_ori ori (fn_name ed) (Some ed1) s1 = (x, s2)" by fastforce
    have "own_calls L s2" using call c by (metis snd_conv)
    then have "own_calls L (snd (run_after E h rid d ed2 v s2))" for rid ed2 v
      using keepsD [OF own_after] by blast
    then show ?thesis
      by (auto simp: with_hook_eq b Ok p finish_hook_def c split: prod.split) (metis catch_unwind_state snd_conv)
  qed (use call in \<open>simp_all add: with_hook_eq b finish_hook_def split: prod.split\<close>, (metis snd_conv)+)
qed

lemma own_calls_execute:
  assumes ori: "\<And>e s. own_calls L s \<Longrightarrow> own_calls L (snd (ori e s))" and s: "own_calls L s"
  shows "own_calls L (snd (execute_internal E ori (Some ed) True s))" "own_calls L (snd (execute_ex E ori (Some ed) has_rv s))"
proof -
  have none: "own_calls L (snd (without_hook ori e t))" if "own_calls L t" for e t
  proof -
    obtain x t1 where "call_ori ori (Option.bind e fn_name) e t = (x, t1)" by fastforce
    with own_calls_ori [where ori = ori and e = e and f = "Option.bind e fn_name", OF ori that] show ?thesis
      by (cases x) (simp add: without_hook_def)
  qed
  have some: "own_calls L (snd (case pick_hook E cls f s of
      (None, s1) \<Rightarrow> without_hook ori (Some ed) s1 | (Some h, s1) \<Rightarrow> with_hook E ori rv_of h ed s1))" for cls f rv_of
  proof -
    obtain h s1 where p: "pick_hook E cls f s = (h, s1)" by fastforce
    have "own_calls L s1" using own_calls_pick [OF s, of E cls f] p by simp
    then show ?thesis using none own_calls_with_hook [OF ori] by (cases h) (simp_all add: p)
  qed
  have "own_calls L (snd (execute_internal E ori (Some ed) True s)) \<and> own_calls L (snd (execute_ex E ori (Some ed) has_rv s))"
  proof (cases "get_function_and_class_name ed")
    case (Ok p)
    obtain f cls where "p = (f, cls)" by fastforce
    with none [OF s] some Ok show ?thesis
      by (cases f; cases "f = Some HACK_SWOOLE_ON_REQUEST_FUNCTION_NAME")
        (simp_all add: execute_internal_def execute_ex_def)
  qed (use none [OF s] in \<open>simp_all add: execute_internal_def execute_ex_def\<close>)
  then show "own_calls L (snd (execute_internal E ori (Some ed) True s))"
    "own_calls L (snd (execute_ex E ori (Some ed) has_rv s))" by simp_all
qed

lemma own_calls_trees:
  "(\<And>t s. t \<in> set ts \<Longrightarrow> own_calls L s \<Longrightarrow> own_calls L (run_tree E t s)) \<Longrightarrow> own_calls L s \<Longrightarrow> own_calls L (run_trees E ts s)"
  by (induction ts arbitrary: s) simp_all

lemma own_calls_tree: "own_calls L s \<Longrightarrow> own_calls L (run_tree E t s)"
proof (induction t arbitrary: s)
  case (InternalCall ed rv ts)
  have "own_calls L s \<Longrightarrow> own_calls L (run_trees E ts s)" for s
    by (rule own_calls_trees [OF InternalCall.IH])
  then show ?case using own_calls_execute(1) InternalCall.prems by simp
next
  case (UserCall ed has_rv rv ts)
  have "own_calls L s \<Longrightarrow> own_calls L (run_trees E ts s)" for s
    by (rule own_calls_trees [OF UserCall.IH])
  then show ?case using own_calls_execute(2) UserCall.prems by simp
qed

section \<open>Properties\<close>

text \<open>
  (C12) The agent does not trace itself.  Whatever a program calls, and whatever its hooks do: each call
  into PHP that a hook makes is one for which the plugins choose no hook, so that the interceptors pass it
  on; except for the \<^verbatim>\<open>curl_setopt\<close> that sends the trace header, whose hook changes nothing of the agent and puts
  the real option in place of the private one.  (Methods of the AMQP message named \<^verbatim>\<open>get\<close> or \<^verbatim>\<open>set\<close>
  must not be those of a cache client.)
\<close>

theorem agent_does_not_trace_itself:
  assumes "PhpCall c args \<in> set (log (run_tree E t s))" and "PhpCall c args \<notin> set (log s)"
  shows "leaves_alone E c args"
proof -
  have "own_calls (set (log s)) s" by (simp add: own_calls_def)
  from own_calls_tree [OF this] assms have "own_call c args" by (simp add: own_calls_def)
  then show ?thesis by (rule own_call_leaves_alone)
qed

theorem agent_does_not_trace_itself_witness:
  "\<exists>c args. PhpCall c args \<in> set (log (run_tree sample_env (InternalCall sample_curl_frame ZNull []) sample_agent)) \<and>
     leaves_alone sample_env c args"
proof -
  let ?t = "InternalCall sample_curl_frame ZNull []"
  let ?s1 = "put_hook None ''curl_exec'' (Some HCurlExec) sample_agent"
  have names: "get_function_and_class_name sample_curl_frame = Ok (Some ''curl_exec'', None)"
    by (simp add: get_function_and_class_name_def opt_utf8_def sample_curl_frame_def)
  have pick: "pick_hook sample_env None ''curl_exec'' sample_agent = (Some HCurlExec, ?s1)"
    by (simp add: pick_hook_def select_plugin_hook_def fresh_hook_def select_plugin_def PLUGINS_def
        plugin_matches_def starts_with_def curl_hook_def)
  obtain r s2 where b: "curl_exec_before sample_env (infer_request_id sample_curl_frame ?s1) sample_curl_frame ?s1 = (r, s2)"
      "\<forall>x. r \<noteq> Ok x" "PhpCall (GlobalFn ''curl_getinfo'') [get_parameter sample_curl_frame 0] \<in> set (log s2)"
    by (auto simp: curl_exec_before_def sample_curl_frame_def validate_num_args_def get_resource_id_def get_handle_id_def
        get_curl_info_def call_result_def)
  have made: "PhpCall (GlobalFn ''curl_getinfo'') [get_parameter sample_curl_frame 0] \<in> set (log (run_tree sample_env ?t sample_agent))"
    using b by (cases r) (simp_all add: execute_internal_def names pick HACK_SWOOLE_ON_REQUEST_FUNCTION_NAME_def
        with_hook_eq finish_hook_def catch_unwind_result_def call_ori_def)
  have "leaves_alone sample_env (GlobalFn ''curl_getinfo'') [get_parameter sample_curl_frame 0]"
    by (rule agent_does_not_trace_itself [OF made]) (simp add: sample_agent_def)
  with made show ?thesis by (intro exI conjI)
qed

end
