(* ===== verification/Request.thy ===== *)
theory Request
  imports Execute
begin

text \<open>
  \<^verbatim>\<open>src/src/request.rs\<close>: how a request's context is created from the request's server
  variables, and finished with its status; under PHP-FPM from the engine's request hooks,
  under Swoole from the function that surrounds the program's request callback.
\<close>

section \<open>Server variables\<close>

definition INJECT_CONTEXT_SERVICE_NAME :: bytes where
  "INJECT_CONTEXT_SERVICE_NAME = ''SW_SERVICE_NAME''"

definition INJECT_CONTEXT_INSTANCE_NAME :: bytes where
  "INJECT_CONTEXT_INSTANCE_NAME = ''SW_INSTANCE_NAME''"

definition INJECT_CONTEXT_TRACE_ID :: bytes where
  "INJECT_CONTEXT_TRACE_ID = ''SW_TRACE_ID''"

definition arr_string :: "zarr \<Rightarrow> bytes \<Rightarrow> bytes option" where
  "arr_string a k = Option.bind (arr_get a (Key k)) z_val_to_string"

fun or_else :: "'a option \<Rightarrow> 'a option \<Rightarrow> 'a option" where
  "or_else (Some x) y = Some x" | "or_else None y = y"

definition unwrap_or :: "'a option \<Rightarrow> 'a \<Rightarrow> 'a" where
  "unwrap_or v d = (case v of Some x \<Rightarrow> x | None \<Rightarrow> d)"

definition url_parse :: "env \<Rightarrow> bytes \<Rightarrow> url outcome" where
  "url_parse E s = (case parse_url E s of Some u \<Rightarrow> Ok u | None \<Rightarrow> Err (error_from ''invalid url''))"

definition get_page_request_header :: "env \<Rightarrow> zarr \<Rightarrow> bytes option" where
  "get_page_request_header E server =
     (if 8 \<le> sint (skywalking_version (cfg E)) then arr_string server ''HTTP_SW8'' else None)"

definition page_request_url :: "zarr \<Rightarrow> bytes" where
  "page_request_url server =
     (let scheme = (if arr_string server ''HTTPS'' \<in> {Some ''1'', Some ''on''} then ''https'' else ''http'');
          addr = unwrap_or (or_else (arr_string server ''HTTP_HOST'')
                   (map_option (\<lambda>p. ''localhost:'' @ p) (arr_string server ''SERVER_PORT''))) ''unknown:0'';
          uri = unwrap_or (or_else (arr_string server ''REQUEST_URI'')
                   (or_else (arr_string server ''PHP_SELF'') (arr_string server ''SCRIPT_NAME''))) ''/unknown''
      in scheme @ ''://'' @ addr @ uri)"

definition get_page_request_url :: "env \<Rightarrow> zarr \<Rightarrow> url outcome" where
  "get_page_request_url E server = url_parse E (page_request_url server)"

definition get_page_request_method :: "zarr \<Rightarrow> bytes" where
  "get_page_request_method server = unwrap_or (arr_string server ''REQUEST_METHOD'') ''UNKNOWN''"

definition get_page_request_server :: "zarr agent_act" where
  "get_page_request_server =
     andthen (reads (\<lambda>s. Option.bind (symbol_table s ''_SERVER'') as_z_arr)) (\<lambda>a.
     lift (with_context ''$_SERVER is null'' a))"

definition get_swoole_request_header :: "env \<Rightarrow> zarr \<Rightarrow> bytes option" where
  "get_swoole_request_header E header =
     (if 8 \<le> sint (skywalking_version (cfg E)) then arr_string header ''sw8'' else None)"

definition swoole_request_url :: "zarr \<Rightarrow> zarr \<Rightarrow> bytes" where
  "swoole_request_url server headers =
     (let addr = unwrap_or (or_else (arr_string headers ''host'')
                   (map_option (\<lambda>p. ''localhost:'' @ p) (arr_string server ''server_port''))) ''unknown:0'';
          uri = unwrap_or (arr_string server ''request_uri'') ''/unknown'';
          query = unwrap_or (map_option (\<lambda>q. ''?'' @ q) (arr_string server ''query_string'')) []
      in ''http://'' @ addr @ uri @ query)"

definition get_swoole_request_url :: "env \<Rightarrow> zarr \<Rightarrow> zarr \<Rightarrow> url outcome" where
  "get_swoole_request_url E server headers = url_parse E (swoole_request_url server headers)"

definition get_swoole_request_method :: "zarr \<Rightarrow> bytes" where
  "get_swoole_request_method server = unwrap_or (arr_string server ''request_method'') ''UNKNOWN''"

section \<open>Creating and finishing a context\<close>

definition create_request_context ::
  "env \<Rightarrow> i64 option \<Rightarrow> bytes option \<Rightarrow> bytes \<Rightarrow> url \<Rightarrow> unit agent_act" where
  "create_request_context E rid header meth u =
     andthen (case header of None \<Rightarrow> ret None
              | Some h \<Rightarrow> (case decode_propagation E h of
                   Inl m \<Rightarrow> fail (Anyhow (''decode propagation failed: '' @ m))
                 | Inr p \<Rightarrow> ret (Some p))) (\<lambda>propagation.
     andthen (create_trace_context E) (\<lambda>c.
     andthen (create_entry_span c (meth @ '':'' @ url_path u) propagation) (\<lambda>i.
     andthen (on_span i [SetComponent COMPONENT_PHP_ID, AddTag ''url'' (url_string u),
                         AddTag ''http.method'' meth]) (\<lambda>_.
     set_global rid \<lparr>tracing_context = c, entry_span = i\<rparr>))))"

definition finish_request_context :: "i64 option \<Rightarrow> i32 \<Rightarrow> unit agent_act" where
  "finish_request_context rid status_code =
     andthen (remove_global rid) (\<lambda>r.
     andthen (lift (with_context ''request context not exists'' r)) (\<lambda>rc.
     andthen (on_span (entry_span rc) [AddTag ''http.status_code'' (show_i32 status_code)]) (\<lambda>_.
     andthen (if 400 \<le> sint status_code then on_span (entry_span rc) [SetError True] else ret ()) (\<lambda>_.
     modify (\<lambda>s. drop_context (tracing_context rc) (close_span (entry_span rc) s))))))"

definition inject_server_var :: "env \<Rightarrow> i64 option \<Rightarrow> zarr \<Rightarrow> zarr agent_act" where
  "inject_server_var E rid server =
     try_with_global_ctx rid (\<lambda>c.
       ret (arr_insert (arr_insert (arr_insert server
              (Key INJECT_CONTEXT_SERVICE_NAME) (ZStr (ctx_service E c)))
              (Key INJECT_CONTEXT_INSTANCE_NAME) (ZStr (ctx_service_instance E c)))
              (Key INJECT_CONTEXT_TRACE_ID) (ZStr (ctx_trace_id E c))))"

section \<open>PHP-FPM\<close>

definition put_server :: "zarr \<Rightarrow> agent \<Rightarrow> agent" where
  "put_server a s = s\<lparr>symbol_table := (symbol_table s)(''_SERVER'' \<mapsto> ZArr a)\<rparr>"

definition inject_server_var_for_fpm :: "env \<Rightarrow> unit agent_act" where
  "inject_server_var_for_fpm E =
     (if inject_context (cfg E) then
        andthen get_page_request_server (\<lambda>server.
        andthen (inject_server_var E None server) (\<lambda>server'.
        modify (put_server server')))
      else ret ())"

text \<open>
  If the engine fills in its globals only when a script names them, it is asked for \<^verbatim>\<open>$_SERVER\<close>;
  what it then puts into the symbol table is its own.
\<close>

definition zend_is_auto_global_str :: "env \<Rightarrow> bytes \<Rightarrow> agent \<Rightarrow> agent" where
  "zend_is_auto_global_str E name s = s\<lparr>symbol_table := auto_global E name (symbol_table s)\<rparr>"

definition jit_initialization :: "env \<Rightarrow> unit agent_act" where
  "jit_initialization E = (if auto_globals_jit E then modify (zend_is_auto_global_str E ''_SERVER'') else ret ())"

definition request_init_for_fpm :: "env \<Rightarrow> unit agent_act" where
  "request_init_for_fpm E =
     andthen (jit_initialization E) (\<lambda>_.
     andthen get_page_request_server (\<lambda>server.
     andthen (lift (get_page_request_url E server)) (\<lambda>u.
     andthen (create_request_context E None (get_page_request_header E server)
                (get_page_request_method server) u) (\<lambda>_.
     inject_server_var_for_fpm E))))"

definition request_shutdown_for_fpm :: "i32 \<Rightarrow> unit agent_act" where
  "request_shutdown_for_fpm http_response_code = finish_request_context None http_response_code"

definition request_init :: "env \<Rightarrow> bool \<Rightarrow> bytes \<Rightarrow> agent \<Rightarrow> agent" where
  "request_init E enabled sapi s =
     (if enabled \<and> sapi = ''fpm-fcgi'' then snd (catch_unwind_result (request_init_for_fpm E) s) else s)"

definition request_shutdown :: "bool \<Rightarrow> bytes \<Rightarrow> i32 \<Rightarrow> agent \<Rightarrow> agent" where
  "request_shutdown enabled sapi status s =
     (if enabled \<and> sapi = ''fpm-fcgi'' then snd (catch_unwind_result (request_shutdown_for_fpm status) s) else s)"

section \<open>Swoole\<close>

definition inject_server_var_for_swoole :: "env \<Rightarrow> i64 option \<Rightarrow> zarr \<Rightarrow> zarr agent_act" where [simp]:
  "inject_server_var_for_swoole E rid server =
     (if inject_context (cfg E) then inject_server_var E rid server else ret server)"

text \<open>The request object is changed in place: the result is the object as it is afterwards.\<close>

definition request_init_for_swoole :: "env \<Rightarrow> zval \<Rightarrow> zval agent_act" where
  "request_init_for_swoole E request =
     andthen (lift (with_context ''swoole request isn't object'' (as_z_obj request))) (\<lambda>req.
     andthen (lift (with_context ''swoole request fd not exists'' (as_long (get_property req ''fd'')))) (\<lambda>fd.
     andthen (lift (with_context ''swoole request header not exists'' (as_z_arr (get_property req ''header'')))) (\<lambda>headers.
     andthen (lift (with_context ''swoole request server not exists'' (as_z_arr (get_property req ''server'')))) (\<lambda>server.
     andthen (lift (get_swoole_request_url E server headers)) (\<lambda>u.
     andthen (create_request_context E (Some fd) (get_swoole_request_header E headers)
                (get_swoole_request_method server) u) (\<lambda>_.
     andthen (inject_server_var_for_swoole E (Some fd) server) (\<lambda>server'.
     ret (ZObj (set_property req ''server'' (ZArr server'))))))))))"

definition take_status :: "i64 \<Rightarrow> agent \<Rightarrow> agent" where
  "take_status fd s = s\<lparr>swoole_status := map_remove (swoole_status s) fd\<rparr>"

definition request_shutdown_for_swoole :: "zval \<Rightarrow> unit agent_act" where
  "request_shutdown_for_swoole response =
     andthen (lift (with_context ''swoole response isn't object'' (as_z_obj response))) (\<lambda>resp.
     andthen (lift (with_context ''swoole request fd not exists'' (as_long (get_property resp ''fd'')))) (\<lambda>fd.
     andthen (reads (\<lambda>s. unwrap_or (swoole_status s fd) 200)) (\<lambda>status.
     andthen (modify (take_status fd)) (\<lambda>_.
     finish_request_context (Some fd) status))))"

definition index_panic :: payload where
  "index_panic = PanicString ''index out of bounds''"

text \<open>The program's own callback, run with the arguments; it may do anything to the state.\<close>

type_synonym handler = "zval \<Rightarrow> zval list \<Rightarrow> agent \<Rightarrow> (bytes + zval) \<times> agent"

definition skywalking_hack_swoole_on_request ::
  "env \<Rightarrow> handler \<Rightarrow> zval list \<Rightarrow> agent \<Rightarrow> (bytes + zval) \<times> agent" where
  "skywalking_hack_swoole_on_request E handler args s =
     (case ori_on_request s of
        None \<Rightarrow> (Inr ZNull, s)
      | Some f \<Rightarrow>
          (case catch_unwind_result
                  (case args of [] \<Rightarrow> panic index_panic | request # _ \<Rightarrow> request_init_for_swoole E request) s of
             (Ok request', s1) \<Rightarrow>
               (case handler f (request' # tl args) s1 of (rv, s2) \<Rightarrow>
                  (rv, snd (catch_unwind_result
                         (case args of _ # response # _ \<Rightarrow> request_shutdown_for_swoole response
                          | _ \<Rightarrow> panic index_panic) s2)))
           | (_, s1) \<Rightarrow> handler f args s1))"

section \<open>Lemmas\<close>

text \<open>The state in which the start of a request finds the server variables.\<close>

definition with_server :: "env \<Rightarrow> agent \<Rightarrow> agent" where
  "with_server E s = (if auto_globals_jit E then zend_is_auto_global_str E ''_SERVER'' s else s)"

lemma jit_initialization_eq: "jit_initialization E s = (Ok (), with_server E s)"
  by (simp add: jit_initialization_def with_server_def)

lemma with_server_sel [simp]:
  "request_context (with_server E s) = request_context s" "spans (with_server E s) = spans s"
  "finished (with_server E s) = finished s" "log (with_server E s) = log s" "next_id (with_server E s) = next_id s"
  "curl_multi (with_server E s) = curl_multi s" "result_map (with_server E s) = result_map s"
  "hook_map (with_server E s) = hook_map s"
  by (simp_all add: with_server_def zend_is_auto_global_str_def)

lemma put_server_sel [simp]:
  "request_context (put_server a s) = request_context s" "spans (put_server a s) = spans s"
  "finished (put_server a s) = finished s" "log (put_server a s) = log s"
  "symbol_table (put_server a s) = (symbol_table s)(''_SERVER'' \<mapsto> ZArr a)"
  "next_id (put_server a s) = next_id s"
  by (simp_all add: put_server_def)

lemma take_status_sel [simp]:
  "request_context (take_status fd s) = request_context s" "spans (take_status fd s) = spans s"
  "finished (take_status fd s) = finished s" "swoole_status (take_status fd s) = map_remove (swoole_status s) fd"
  "next_id (take_status fd s) = next_id s"
  by (simp_all add: take_status_def)

text \<open>The state after a successful creation.\<close>

definition started :: "i64 option \<Rightarrow> propagation option \<Rightarrow> bytes \<Rightarrow> url \<Rightarrow> agent \<Rightarrow> agent" where
  "started rid p meth u s =
     insert_ctx rid \<lparr>tracing_context = next_id s, entry_span = Suc (next_id s)\<rparr>
       (upd_span (Suc (next_id s))
          [SetComponent COMPONENT_PHP_ID, AddTag ''url'' (url_string u), AddTag ''http.method'' meth]
          (emit (SpanOpened (Suc (next_id s)))
             ((emit (ContextCreated (next_id s)) (s\<lparr>next_id := Suc (next_id s)\<rparr>))
                \<lparr>spans := (spans s)(Suc (next_id s) \<mapsto>
                    \<lparr>sp_ctx = next_id s, sp_kind = EntrySpan p, sp_operation = meth @ '':'' @ url_path u,
                     sp_calls = []\<rparr>),
                 next_id := Suc (Suc (next_id s))\<rparr>)))"

definition propagation_of :: "env \<Rightarrow> bytes option \<Rightarrow> propagation option outcome" where
  "propagation_of E header =
     (case header of None \<Rightarrow> Ok None
      | Some h \<Rightarrow> (case decode_propagation E h of
           Inl m \<Rightarrow> Err (Anyhow (''decode propagation failed: '' @ m)) | Inr p \<Rightarrow> Ok (Some p)))"

lemma create_request_context_eq:
  "create_request_context E rid header meth u s =
     (case propagation_of E header of
        Ok p \<Rightarrow> (case no_tracer E of None \<Rightarrow> (Ok (), started rid p meth u s) | Some q \<Rightarrow> (Panic q, s))
      | Err e \<Rightarrow> (Err e, s)
      | Panic q \<Rightarrow> (Panic q, s))"
  by (auto simp: create_request_context_def propagation_of_def andthen_def create_trace_context_def
      create_entry_span_def open_span_eq set_global_def started_def split: option.split sum.split)

lemma create_request_context_cases:
  assumes "create_request_context E rid header meth u s = (r, s')"
  obtains "s' = s" "r \<noteq> Ok ()" | p where "r = Ok ()" "s' = started rid p meth u s"
  using assms by (auto simp: create_request_context_eq split: outcome.splits option.splits)

text \<open>When the start has stopped before it set a tracer, every request fails at its start and leaves no trace.\<close>

lemma no_tracer_no_request:
  assumes "no_tracer E = Some q"
  shows "snd (create_request_context E rid header meth u s) = s"
    "fst (create_request_context E rid header meth u s) \<noteq> Ok ()"
  using assms by (simp_all add: create_request_context_eq split: outcome.split)

definition ended :: "i32 \<Rightarrow> req_ctx \<Rightarrow> agent \<Rightarrow> agent" where
  "ended status rc s =
     drop_context (tracing_context rc) (close_span (entry_span rc)
       (upd_span (entry_span rc)
          (AddTag ''http.status_code'' (show_i32 status) # (if 400 \<le> sint status then [SetError True] else [])) s))"

lemma upd_span_append: "upd_span i ds (upd_span i cs s) = upd_span i (cs @ ds) s"
  by (auto simp: upd_span_def split: option.split)

lemma finish_request_context_eq:
  "finish_request_context rid status s =
     (case request_context s rid of
        None \<Rightarrow> (Err (Anyhow ''request context not exists''), take_ctx rid s)
      | Some rc \<Rightarrow> (Ok (), ended status rc (take_ctx rid s)))"
  by (auto simp: finish_request_context_def andthen_def remove_global_def ended_def upd_span_append
      split: option.split)

lemma finished_ended:
  "spans s (entry_span rc) = Some sp \<Longrightarrow>
   finished (ended status rc s) = finished s @ [sp\<lparr>sp_calls := sp_calls sp @
     AddTag ''http.status_code'' (show_i32 status) # (if 400 \<le> sint status then [SetError True] else [])\<rparr>]"
  by (simp add: ended_def finished_close_span spans_upd_span)

lemma ended_sel [simp]:
  "request_context (ended status rc s) = request_context s"
  "spans (ended status rc s) = map_remove (spans (upd_span (entry_span rc)
      (AddTag ''http.status_code'' (show_i32 status) # (if 400 \<le> sint status then [SetError True] else [])) s)) (entry_span rc)"
  "next_id (ended status rc s) = next_id s" "open_spans (ended status rc s) = open_spans s - {entry_span rc}"
  by (simp_all add: ended_def)

lemma insert_ctx_more [simp]:
  "next_id (insert_ctx rid rc s) = next_id s"
  "symbol_table (insert_ctx rid rc s) = symbol_table s" "swoole_status (insert_ctx rid rc s) = swoole_status s"
  by (simp_all add: insert_ctx_def drop_req_ctx_def split: option.split)

lemma started_sel [simp]:
  "request_context (started rid p meth u s) =
     (request_context s)(rid \<mapsto> \<lparr>tracing_context = next_id s, entry_span = Suc (next_id s)\<rparr>)"
  "next_id (started rid p meth u s) = Suc (Suc (next_id s))"
  "symbol_table (started rid p meth u s) = symbol_table s"
  by (simp_all add: started_def)


lemma get_page_request_server_eq:
  "get_page_request_server s =
     (with_context ''$_SERVER is null'' (Option.bind (symbol_table s ''_SERVER'') as_z_arr), s)"
  by (simp add: get_page_request_server_def)

lemma spans_started:
  "spans (started rid p meth u s) =
     (case request_context s rid of None \<Rightarrow> (\<lambda>m. m) | Some old \<Rightarrow> (\<lambda>m. map_remove m (entry_span old)))
       ((spans s)(Suc (next_id s) \<mapsto>
          \<lparr>sp_ctx = next_id s, sp_kind = EntrySpan p, sp_operation = meth @ '':'' @ url_path u,
           sp_calls = [SetComponent COMPONENT_PHP_ID, AddTag ''url'' (url_string u), AddTag ''http.method'' meth]\<rparr>))"
  by (simp add: started_def insert_ctx_def spans_upd_span split: option.split)

lemma finished_started_first:
  "request_context s rid = None \<Longrightarrow> finished (started rid p meth u s) = finished s"
  by (simp add: started_def insert_ctx_def)

text \<open>The span that a finished request reports, from the one that was open.\<close>

definition reported :: "i32 \<Rightarrow> span \<Rightarrow> span" where
  "reported status sp = sp\<lparr>sp_calls := sp_calls sp @
     AddTag ''http.status_code'' (show_i32 status) # (if 400 \<le> sint status then [SetError True] else [])\<rparr>"

lemma finish_reports:
  assumes "request_context s rid = Some rc" "spans s (entry_span rc) = Some sp"
  shows "finish_request_context rid status s = (Ok (), ended status rc (take_ctx rid s))"
    "finished (ended status rc (take_ctx rid s)) = finished s @ [reported status sp]"
  using assms by (simp_all add: finish_request_context_eq finished_ended reported_def)

lemma reported_sel [simp]:
  "sp_kind (reported status sp) = sp_kind sp" "sp_operation (reported status sp) = sp_operation sp"
  "sp_ctx (reported status sp) = sp_ctx sp"
  by (simp_all add: reported_def)

lemma reported_error:
  "\<not> span_is_error sp \<Longrightarrow> span_is_error (reported status sp) \<longleftrightarrow> 400 \<le> sint status"
  by (simp add: reported_def span_is_error_def)

section \<open>PHP-FPM: one request\<close>

definition injected :: "env \<Rightarrow> nat \<Rightarrow> zarr \<Rightarrow> zarr" where
  "injected E c server =
     (if inject_context (cfg E)
      then arr_insert (arr_insert (arr_insert server
             (Key ''SW_SERVICE_NAME'') (ZStr (ctx_service E c)))
             (Key ''SW_INSTANCE_NAME'') (ZStr (ctx_service_instance E c)))
             (Key ''SW_TRACE_ID'') (ZStr (ctx_trace_id E c))
      else server)"

lemma inject_server_var_eq:
  "request_context s rid = Some rc \<Longrightarrow> inject_context (cfg E) \<Longrightarrow>
   inject_server_var E rid server s = (Ok (injected E (tracing_context rc) server), s)"
  by (simp add: inject_server_var_def try_with_global_ctx_def try_with_global_eq injected_def
      INJECT_CONTEXT_SERVICE_NAME_def INJECT_CONTEXT_INSTANCE_NAME_def INJECT_CONTEXT_TRACE_ID_def)

definition entry_span_of :: "nat \<Rightarrow> propagation option \<Rightarrow> bytes \<Rightarrow> url \<Rightarrow> span" where
  "entry_span_of c p meth u =
     \<lparr>sp_ctx = c, sp_kind = EntrySpan p, sp_operation = meth @ '':'' @ url_path u,
      sp_calls = [SetComponent 8001, AddTag ''url'' (url_string u), AddTag ''http.method'' meth]\<rparr>"

lemma create_request_context_first:
  assumes "propagation_of E header = Ok p" "no_tracer E = None" "request_context s rid = None"
  shows "create_request_context E rid header meth u s = (Ok (), started rid p meth u s)"
    "spans (started rid p meth u s) = (spans s)(Suc (next_id s) \<mapsto> entry_span_of (next_id s) p meth u)"
  using assms by (simp_all add: create_request_context_eq spans_started entry_span_of_def COMPONENT_PHP_ID_def)

lemma request_init_for_fpm_first:
  assumes "symbol_table (with_server E s) ''_SERVER'' = Some (ZArr server)"
    and "parse_url E (page_request_url server) = Some u"
    and "propagation_of E (get_page_request_header E server) = Ok p" and "no_tracer E = None"
    and "request_context s None = None"
  shows "request_init_for_fpm E s =
    (Ok (), if inject_context (cfg E)
            then put_server (injected E (next_id s) server)
                   (started None p (get_page_request_method server) u (with_server E s))
            else started None p (get_page_request_method server) u (with_server E s))"
  using assms
  by (simp add: request_init_for_fpm_def andthen_eqs jit_initialization_eq get_page_request_server_eq get_page_request_url_def
      url_parse_def create_request_context_first inject_server_var_for_fpm_def inject_server_var_eq)

text \<open>
  (C8) A request under PHP-FPM.  With a tracer, a \<^verbatim>\<open>$_SERVER\<close> that the engine has or makes, a URL that parses and a
  propagation header that decodes (or none), the request's start opens one entry span named
  \<^verbatim>\<open>METHOD:path\<close> with the component, the URL and the method, stores it as the context without
  an id, and puts the three variables into \<^verbatim>\<open>$_SERVER\<close> if so configured.  Whatever the program
  then does, as long as that context and its span are still there at the end, the shutdown
  finishes exactly this span with the response code as a tag, marked as an error if and only
  if the code is at least 400 (or the program's spans had marked it), and forgets the context.
\<close>

theorem fpm_request_life_cycle:
  assumes server: "symbol_table (snd (jit_initialization E s)) ''_SERVER'' = Some (ZArr server)"
    and u: "parse_url E (page_request_url server) = Some u"
    and p: "propagation_of E (get_page_request_header E server) = Ok p" and tracer: "no_tracer E = None"
    and first: "request_context s None = None"
  shows "\<exists>s1 rc. request_init_for_fpm E s = (Ok (), s1) \<and> request_context s1 None = Some rc \<and>
    spans s1 = (spans s)(entry_span rc \<mapsto> entry_span_of (tracing_context rc) p (get_page_request_method server) u) \<and>
    symbol_table s1 ''_SERVER'' = Some (ZArr (injected E (tracing_context rc) server)) \<and>
    (\<forall>t sp status. request_context t None = Some rc \<and> spans t (entry_span rc) = Some sp \<longrightarrow>
       (\<exists>t'. request_shutdown_for_fpm status t = (Ok (), t') \<and> request_context t' None = None \<and>
         spans t' = map_remove (spans t) (entry_span rc) \<and>
         finished t' = finished t @ [reported status sp] \<and>
         (\<not> span_is_error sp \<longrightarrow> (span_is_error (reported status sp) \<longleftrightarrow> 400 \<le> sint status))))"
proof -
  let ?rc = "\<lparr>tracing_context = next_id s, entry_span = Suc (next_id s)\<rparr>"
  note server' = server [unfolded jit_initialization_eq snd_conv]
  let ?st = "started None p (get_page_request_method server) u (with_server E s)"
  let ?s1 = "if inject_context (cfg E) then put_server (injected E (next_id s) server) ?st else ?st"
  have run: "request_init_for_fpm E s = (Ok (), ?s1)" by (rule request_init_for_fpm_first [OF server' u p tracer first])
  have sym: "symbol_table ?s1 ''_SERVER'' = Some (ZArr (injected E (next_id s) server))"
    using server' by (simp add: injected_def)
  have stop: "\<exists>t'. request_shutdown_for_fpm status t = (Ok (), t') \<and> request_context t' None = None \<and>
         spans t' = map_remove (spans t) (entry_span ?rc) \<and> finished t' = finished t @ [reported status sp]"
    if "request_context t None = Some ?rc" "spans t (entry_span ?rc) = Some sp" for t sp status
    using finish_reports [OF that] that
    by (auto simp: request_shutdown_for_fpm_def spans_upd_span map_remove_def)
  show ?thesis
    using run sym stop create_request_context_first(2) [OF p tracer, of "with_server E s"] first
    by (intro exI [of _ ?s1] exI [of _ ?rc]) (auto simp: reported_error)
qed

definition sample_server :: zarr where
  "sample_server = [(Key ''HTTP_HOST'', ZStr ''localhost''), (Key ''REQUEST_URI'', ZStr ''/index.php''),
     (Key ''REQUEST_METHOD'', ZStr ''GET'')]"

definition sample_idle :: agent where
  "sample_idle = init_agent\<lparr>symbol_table := [''_SERVER'' \<mapsto> ZArr sample_server]\<rparr>"

lemma sample_idle_sel [simp]:
  "symbol_table sample_idle = [''_SERVER'' \<mapsto> ZArr sample_server]" "request_context sample_idle = Map.empty"
  "spans sample_idle = Map.empty" "next_id sample_idle = 0" "swoole_status sample_idle = Map.empty"
  by (simp_all add: sample_idle_def)

theorem fpm_request_life_cycle_witness:
  "\<exists>s1 (rc :: req_ctx). request_init_for_fpm sample_env sample_idle = (Ok (), s1) \<and>
     spans s1 (entry_span rc) = Some (entry_span_of (tracing_context rc) None ''GET'' sample_url) \<and>
     (\<exists>t'. request_shutdown_for_fpm 404 s1 = (Ok (), t') \<and> spans t' = Map.empty \<and>
        map span_is_error (finished t') = map span_is_error (finished s1) @ [True])"
proof -
  have header: "get_page_request_header sample_env sample_server = None"
    by (simp add: get_page_request_header_def arr_string_def arr_get_def sample_server_def)
  have meth: "get_page_request_method sample_server = ''GET''"
    by (simp add: get_page_request_method_def arr_string_def arr_get_def sample_server_def
        unwrap_or_def z_val_to_string_def to_str_def)
  obtain s1 rc where a: "request_init_for_fpm sample_env sample_idle = (Ok (), s1)"
      "request_context s1 None = Some rc"
      "spans s1 = (spans sample_idle)(entry_span rc \<mapsto> entry_span_of (tracing_context rc) None ''GET'' sample_url)"
      "\<forall>t sp status. request_context t None = Some rc \<and> spans t (entry_span rc) = Some sp \<longrightarrow>
       (\<exists>t'. request_shutdown_for_fpm status t = (Ok (), t') \<and> request_context t' None = None \<and>
         spans t' = map_remove (spans t) (entry_span rc) \<and>
         finished t' = finished t @ [reported status sp] \<and>
         (\<not> span_is_error sp \<longrightarrow> (span_is_error (reported status sp) \<longleftrightarrow> 400 \<le> sint status)))"
    using fpm_request_life_cycle [of sample_env sample_idle sample_server sample_url None]
    by (auto simp: propagation_of_def header meth jit_initialization_eq with_server_def zend_is_auto_global_str_def)
  let ?sp = "entry_span_of (tracing_context rc) None ''GET'' sample_url"
  have sp: "spans s1 (entry_span rc) = Some ?sp" and ne: "\<not> span_is_error ?sp"
    using a(3) by (simp_all add: entry_span_of_def span_is_error_def)
  from a(2,4) sp ne obtain t' where "request_shutdown_for_fpm 404 s1 = (Ok (), t')"
      "spans t' = map_remove (spans s1) (entry_span rc)" "finished t' = finished s1 @ [reported 404 ?sp]"
      "span_is_error (reported 404 ?sp)" by fastforce
  moreover have "map_remove (spans s1) (entry_span rc) = Map.empty"
    using a(3) by (auto simp: map_remove_def)
  ultimately show ?thesis using a(1) sp by (intro exI [of _ s1] exI [of _ rc]) auto
qed

section \<open>Requests side by side\<close>

text \<open>
  A Swoole worker serves many requests at once.  The steps of the process, in any order and
  for any request numbers: a request starts or finishes (with or without success), a status
  is remembered, an exit span is opened for a request, a span that is not the entry span of a
  request is decorated or closed.
\<close>

inductive serving :: "env \<Rightarrow> agent \<Rightarrow> agent \<Rightarrow> bool" for E where
  start: "create_request_context E rid header meth u s = (r, s') \<Longrightarrow> request_context s rid = None \<Longrightarrow> serving E s s'"
| finish: "finish_request_context rid status s = (r, s') \<Longrightarrow> serving E s s'"
| status: "serving E s (put_status fd st s)"
| exit_span: "create_exit_span_in rid op pr s = (r, s') \<Longrightarrow> serving E s s'"
| decorate: "serving E s (upd_span i cs s)"
| close: "\<forall>rid rc. request_context s rid = Some rc \<longrightarrow> entry_span rc \<noteq> i \<Longrightarrow> serving E s (close_span i s)"

definition requests_wf :: "agent \<Rightarrow> bool" where
  "requests_wf s \<longleftrightarrow> fresh_ids s \<and>
     (\<forall>rid rc. request_context s rid = Some rc \<longrightarrow> entry_span rc \<in> open_spans s) \<and>
     (\<forall>rid rid' rc rc'. request_context s rid = Some rc \<longrightarrow> request_context s rid' = Some rc' \<longrightarrow>
        entry_span rc = entry_span rc' \<longrightarrow> rid = rid')"

lemma requests_wf_entry: "requests_wf s \<Longrightarrow> request_context s rid = Some rc \<Longrightarrow> \<exists>sp. spans s (entry_span rc) = Some sp"
  by (fastforce simp: requests_wf_def open_spans_def)

lemma requests_wf_same:
  "requests_wf s \<Longrightarrow> open_spans s' = open_spans s \<Longrightarrow> next_id s' = next_id s \<Longrightarrow>
   request_context s' = request_context s \<Longrightarrow> requests_wf s'"
  by (simp add: requests_wf_def fresh_ids_def)

lemma requests_wf_started:
  assumes wf: "requests_wf s" and first: "request_context s rid = None"
  shows "requests_wf (started rid p meth u s)"
proof -
  let ?n = "Suc (next_id s)"
  have op: "open_spans (started rid p meth u s) = insert ?n (open_spans s)"
    using first by (auto simp: open_spans_def spans_started)
  have old: "entry_span rc < next_id s" if "request_context s rid' = Some rc" for rid' rc
    using wf that by (auto simp: requests_wf_def fresh_ids_def)
  have new: "i = rid \<longleftrightarrow> entry_span a = ?n" if "request_context (started rid p meth u s) i = Some a" for i a
    using that old [of i a] by (cases "i = rid") auto
  have "i = j" if i: "request_context (started rid p meth u s) i = Some a"
    and j: "request_context (started rid p meth u s) j = Some b" and eq: "entry_span a = entry_span b" for i j a b
  proof (cases "i = rid")
    case True
    then show ?thesis using new [OF i] new [OF j] eq by simp
  next
    case False
    moreover from this have "j \<noteq> rid" using new [OF i] new [OF j] eq by simp
    ultimately show ?thesis using i j eq wf unfolding requests_wf_def by simp
  qed
  moreover have "fresh_ids (started rid p meth u s)"
    using wf by (auto simp: requests_wf_def fresh_ids_def op less_SucI)
  moreover have "\<forall>j a. request_context (started rid p meth u s) j = Some a \<longrightarrow>
      entry_span a \<in> open_spans (started rid p meth u s)"
    using wf by (auto simp: requests_wf_def op)
  ultimately show ?thesis unfolding requests_wf_def by blast
qed

lemma requests_wf_take: "requests_wf s \<Longrightarrow> requests_wf (take_ctx rid s)"
  by (auto simp: requests_wf_def)

lemma requests_wf_close:
  assumes "requests_wf s" "\<And>rid rc. request_context s rid = Some rc \<Longrightarrow> entry_span rc \<noteq> i"
  shows "requests_wf (close_span i s)"
  using assms unfolding requests_wf_def by (auto simp: fresh_ids_def)

lemma ended_eq: "ended status rc s = drop_context (tracing_context rc) (close_span (entry_span rc)
   (upd_span (entry_span rc)
      (AddTag ''http.status_code'' (show_i32 status) # (if 400 \<le> sint status then [SetError True] else [])) s))"
  by (rule ended_def)

lemma requests_wf_finish:
  assumes wf: "requests_wf s" and rc: "request_context s rid = Some rc"
  shows "requests_wf (ended status rc (take_ctx rid s))"
proof -
  have "entry_span rc' \<noteq> entry_span rc" if "request_context (take_ctx rid s) rid' = Some rc'" for rid' rc'
    using wf rc that unfolding requests_wf_def by (fastforce split: if_splits)
  then have "requests_wf (close_span (entry_span rc) (take_ctx rid s))"
    by (intro requests_wf_close requests_wf_take wf) auto
  then show ?thesis by (rule requests_wf_same) (simp_all add: ended_eq)
qed

lemma requests_wf_exit_span:
  assumes wf: "requests_wf s" and run: "create_exit_span_in rid op pr s = (r, s')"
  shows "requests_wf s'"
proof -
  have *: "requests_wf (emit (SpanOpened (next_id s))
      (s\<lparr>spans := (spans s)(next_id s \<mapsto> sp), next_id := Suc (next_id s)\<rparr>))" for sp
    using wf by (auto simp: requests_wf_def fresh_ids_def open_spans_def less_SucI)
  show ?thesis using run wf * by (auto simp: create_exit_span_in_eq open_span_eq split: option.splits)
qed

lemma serving_wf: "serving E s s' \<Longrightarrow> requests_wf s \<Longrightarrow> requests_wf s'"
proof (induction rule: serving.induct)
  case (start rid header meth u s r s')
  then show ?case by (auto simp: create_request_context_eq requests_wf_started split: outcome.splits option.splits)
next
  case (finish rid status s r s')
  then show ?case
    by (auto simp: finish_request_context_eq requests_wf_finish requests_wf_take split: option.splits)
next
  case (exit_span rid op pr s r s')
  then show ?case by (simp add: requests_wf_exit_span)
next
  case (close s i)
  then show ?case by (intro requests_wf_close) auto
next
  case (status s fd st)
  then show ?case by (rule requests_wf_same) (simp_all add: open_spans_def put_status_def)
next
  case (decorate s i cs)
  then show ?case by (rule requests_wf_same) simp_all
qed

lemma reachable_wf: "(serving E)\<^sup>*\<^sup>* s s' \<Longrightarrow> requests_wf s \<Longrightarrow> requests_wf s'"
  by (induction rule: rtranclp_induct) (auto intro: serving_wf)

text \<open>
  (C6) Requests do not disturb each other.  However starts, finishes, statuses and exit spans
  of any number of requests have been interleaved, finishing a request that has a context
  succeeds, reports exactly this request's own entry span with its status, and leaves the
  context, the entry span and the remembered status of every other request as they were.
\<close>

theorem requests_isolated:
  assumes reach: "(serving E)\<^sup>*\<^sup>* s0 s" and wf: "requests_wf s0"
    and rc: "request_context s rid = Some rc"
    and run: "finish_request_context rid status s = (r, s')"
  shows "r = Ok () \<and> request_context s' rid = None \<and>
    (\<exists>sp. spans s (entry_span rc) = Some sp \<and> finished s' = finished s @ [reported status sp]) \<and>
    (\<forall>other rc'. other \<noteq> rid \<and> request_context s other = Some rc' \<longrightarrow>
       request_context s' other = Some rc' \<and> spans s' (entry_span rc') = spans s (entry_span rc')) \<and>
    swoole_status s' = swoole_status s"
proof -
  have inv: "requests_wf s" by (rule reachable_wf [OF reach wf])
  then obtain sp where sp: "spans s (entry_span rc) = Some sp" using rc requests_wf_entry by blast
  have s': "r = Ok ()" "s' = ended status rc (take_ctx rid s)"
    using run finish_reports(1) [OF rc sp] by simp_all
  have "entry_span rc' \<noteq> entry_span rc" if "other \<noteq> rid" "request_context s other = Some rc'" for other rc'
    using inv rc that unfolding requests_wf_def by blast
  then show ?thesis
    using s' sp finish_reports(2) [OF rc sp]
    by (auto simp: spans_upd_span ended_eq take_ctx_def split: option.split)
qed

theorem requests_isolated_witness:
  "finished (snd (finish_request_context (Some 5) 200
      (started (Some 6) None ''GET'' sample_url (started (Some 5) None ''GET'' sample_url sample_idle)))) =
    [reported 200 (entry_span_of 0 None ''GET'' sample_url)]"
proof -
  let ?s1 = "started (Some 5) None ''GET'' sample_url sample_idle"
  let ?s2 = "started (Some 6) None ''GET'' sample_url ?s1"
  have "serving sample_env sample_idle ?s1" "serving sample_env ?s1 ?s2"
    by (rule serving.start [where header = None], simp add: create_request_context_eq propagation_of_def, simp)+
  then have reach: "(serving sample_env)\<^sup>*\<^sup>* sample_idle ?s2" by simp
  have wf: "requests_wf sample_idle" by (simp add: requests_wf_def fresh_ids_def open_spans_def)
  have no_header: "propagation_of sample_env None = Ok None" by (simp add: propagation_of_def)
  let ?rc = "\<lparr>tracing_context = 0, entry_span = 1\<rparr>"
  have rc: "request_context ?s2 (Some 5) = Some ?rc" by simp
  have "spans ?s2 1 = Some (entry_span_of 0 None ''GET'' sample_url)" "finished ?s2 = []"
    using create_request_context_first(2) [OF no_header _, of sample_idle "Some 5" "''GET''" sample_url]
      create_request_context_first(2) [OF no_header _, of ?s1 "Some 6" "''GET''" sample_url]
    by (simp_all add: finished_started_first sample_idle_def)
  then show ?thesis
    using requests_isolated [OF reach wf rc prod.collapse [symmetric], of 200] by auto
qed

section \<open>Swoole: one request\<close>

lemma request_shutdown_for_swoole_eq:
  assumes "get_property resp ''fd'' = ZLong fd"
  shows "request_shutdown_for_swoole (ZObj resp) s =
    finish_request_context (Some fd) (unwrap_or (swoole_status s fd) 200) (take_status fd s)"
  using assms by (simp add: request_shutdown_for_swoole_def)

text \<open>
  (C21) The status of a Swoole response.  When a response with descriptor \<open>fd\<close> is given a
  status through its \<^verbatim>\<open>status\<close> method (the last call before the end counts), the shutdown of the
  request reports that number, taken modulo $2^{32}$ from an integer and parsed from a string,
  and removes it from the table; a response whose status was never set is reported as 200 and
  hence not as an error.
\<close>

theorem swoole_status_reported:
  assumes rc: "request_context s (Some fd) = Some rc" and sp: "spans s (entry_span rc) = Some sp"
    and resp: "get_property resp ''fd'' = ZLong fd"
  shows "(\<forall>ed rid. this_obj ed = Some resp \<and> 1 \<le> num_args ed \<longrightarrow>
      (\<exists>s1 s2. swoole_status_before rid ed s = (Ok (DUnit, ed), s1) \<and>
         request_shutdown_for_swoole (ZObj resp) s1 = (Ok (), s2) \<and>
         finished s2 = finished s @ [reported (status_of (get_parameter ed 0)) sp] \<and>
         swoole_status s2 = map_remove (swoole_status s) fd)) \<and>
    (swoole_status s fd = None \<longrightarrow>
      (\<exists>s2. request_shutdown_for_swoole (ZObj resp) s = (Ok (), s2) \<and>
         finished s2 = finished s @ [reported 200 sp] \<and> swoole_status s2 = swoole_status s \<and>
         (span_is_error (reported 200 sp) \<longleftrightarrow> span_is_error sp)))"
proof -
  have stop: "\<exists>s2. request_shutdown_for_swoole (ZObj resp) t = (Ok (), s2) \<and>
      finished s2 = finished s @ [reported (unwrap_or (swoole_status t fd) 200) sp] \<and>
      swoole_status s2 = map_remove (swoole_status t) fd"
    if t: "request_context t = request_context s" "spans t = spans s" "finished t = finished s" for t
  proof -
    have *: "request_context (take_status fd t) (Some fd) = Some rc" "spans (take_status fd t) (entry_span rc) = Some sp"
      using rc sp t by simp_all
    show ?thesis
      using finish_reports [OF *, of "unwrap_or (swoole_status t fd) 200"] t(3)
      by (simp add: request_shutdown_for_swoole_eq [OF resp] ended_eq take_ctx_def)
  qed
  have same: "map_remove ((swoole_status s)(fd \<mapsto> st)) fd = map_remove (swoole_status s) fd" for st
    by (auto simp: map_remove_def)
  have "finished (put_status fd st s) = finished s" for st by (simp add: put_status_def)
  then have set: "\<exists>s1 s2. swoole_status_before rid ed s = (Ok (DUnit, ed), s1) \<and>
         request_shutdown_for_swoole (ZObj resp) s1 = (Ok (), s2) \<and>
         finished s2 = finished s @ [reported (status_of (get_parameter ed 0)) sp] \<and>
         swoole_status s2 = map_remove (swoole_status s) fd"
    if "this_obj ed = Some resp \<and> 1 \<le> num_args ed" for ed rid
    using stop [of "put_status fd (status_of (get_parameter ed 0)) s"] that swoole_status_eq [of ed resp fd rid s] resp
    by (simp add: same unwrap_or_def)
  have "span_is_error (reported 200 sp) \<longleftrightarrow> span_is_error sp"
    by (simp add: reported_def span_is_error_def)
  then show ?thesis using set stop [of s] by (auto simp: unwrap_or_def map_remove_idem)
qed

definition sample_swoole :: agent where
  "sample_swoole = sample_agent\<lparr>request_context := [Some 5 \<mapsto> sample_ctx]\<rparr>"

definition sample_response :: zobj where
  "sample_response = Zobj 9 ''Response'' [(''fd'', ZLong 5)]"

theorem swoole_status_reported_witness:
  "\<exists>s2. request_shutdown_for_swoole (ZObj sample_response)
      (snd (swoole_status_before None (sample_frame None (Some ''status'') (Some sample_response) [ZLong (2 ^ 32 + 404)])
         sample_swoole)) = (Ok (), s2) \<and>
    finished s2 = [reported 404 sample_entry] \<and> span_is_error (reported 404 sample_entry)"
proof -
  have a: "request_context sample_swoole (Some 5) = Some sample_ctx"
    "spans sample_swoole (entry_span sample_ctx) = Some sample_entry"
    "get_property sample_response ''fd'' = ZLong 5" "finished sample_swoole = []"
    by (simp_all add: sample_swoole_def sample_response_def get_property_def)
  have st: "status_of (ZLong (2 ^ 32 + 404)) = 404" by (simp add: status_of_def)
  have err: "span_is_error (reported 404 sample_entry)"
    by (simp add: reported_def span_is_error_def sample_entry_def)
  let ?ed = "sample_frame None (Some ''status'') (Some sample_response) [ZLong (2 ^ 32 + 404)]"
  obtain s1 s2 where "swoole_status_before None ?ed sample_swoole = (Ok (DUnit, ?ed), s1)"
      "request_shutdown_for_swoole (ZObj sample_response) s1 = (Ok (), s2)"
      "finished s2 = finished sample_swoole @ [reported (status_of (get_parameter ?ed 0)) sample_entry]"
    using conjunct1 [OF swoole_status_reported [OF a(1-3)], rule_format, of ?ed None] by auto
  then show ?thesis using a(4) st err by simp
qed

lemma request_init_for_swoole_first:
  assumes "get_property req ''fd'' = ZLong fd" "get_property req ''header'' = ZArr headers"
    and "get_property req ''server'' = ZArr server"
    and "parse_url E (swoole_request_url server headers) = Some u"
    and "propagation_of E (get_swoole_request_header E headers) = Ok p" and "no_tracer E = None"
    and "request_context s (Some fd) = None"
  shows "request_init_for_swoole E (ZObj req) s =
    (Ok (if inject_context (cfg E) then ZObj (set_property req ''server'' (ZArr (injected E (next_id s) server)))
         else ZObj req), started (Some fd) p (get_swoole_request_method server) u s)"
  using assms
  by (simp add: request_init_for_swoole_def andthen_eqs get_swoole_request_url_def url_parse_def
      create_request_context_first inject_server_var_eq)

text \<open>What the agent may do to the request object before the program sees it.\<close>

definition decorated :: "env \<Rightarrow> zval \<Rightarrow> zval \<Rightarrow> bool" where
  "decorated E request request' \<longleftrightarrow> request' = request \<or>
     (\<exists>req server c. request = ZObj req \<and> get_property req ''server'' = ZArr server \<and> inject_context (cfg E) \<and>
        request' = ZObj (set_property req ''server'' (ZArr (injected E c server))))"

lemma inject_server_var_Ok:
  "inject_context (cfg E) \<Longrightarrow> inject_server_var E rid server s = (Ok server', s') \<Longrightarrow>
   \<exists>c. server' = injected E c server"
  by (auto simp: inject_server_var_def try_with_global_ctx_def try_with_global_eq injected_def
      INJECT_CONTEXT_SERVICE_NAME_def INJECT_CONTEXT_INSTANCE_NAME_def INJECT_CONTEXT_TRACE_ID_def
      split: option.splits)

lemma request_init_decorates:
  "request_init_for_swoole E request s = (Ok request', s') \<Longrightarrow> decorated E request request'"
  unfolding request_init_for_swoole_def decorated_def
  by (elim andthen_OkE) (auto split: if_splits elim!: andthen_OkE dest!: inject_server_var_Ok)

text \<open>What surrounds the callback.\<close>

definition on_opening :: "env \<Rightarrow> zval list \<Rightarrow> zval agent_act" where
  "on_opening E args = (case args of [] \<Rightarrow> panic index_panic | request # _ \<Rightarrow> request_init_for_swoole E request)"

definition on_closing :: "zval list \<Rightarrow> unit agent_act" where
  "on_closing args = (case args of _ # response # _ \<Rightarrow> request_shutdown_for_swoole response
     | _ \<Rightarrow> panic index_panic)"

lemma on_request_eq:
  assumes "ori_on_request s = Some f" "catch_unwind_result (on_opening E args) s = (r, s1)"
  shows "skywalking_hack_swoole_on_request E handler args s =
    (case r of
       Ok request' \<Rightarrow> (case handler f (request' # tl args) s1 of (rv, s2) \<Rightarrow>
          (rv, snd (catch_unwind_result (on_closing args) s2)))
     | _ \<Rightarrow> handler f args s1)"
  using assms by (simp add: skywalking_hack_swoole_on_request_def on_opening_def on_closing_def
      split: outcome.split prod.split)

text \<open>
  The function put in place of the program's request callback is transparent.  Once a
  callback was registered, every call of the function is one opening step of the agent, one
  call of the callback and, if the opening succeeded, one closing step, whatever errors or
  panics the agent's own code meets; the callback's arguments are the original ones, except
  that the request object may have the three variables added to its server array; and what
  the callback returns or throws is what the engine gets back.
\<close>

theorem on_request_transparent:
  assumes f: "ori_on_request s = Some f"
    and run: "skywalking_hack_swoole_on_request E handler args s = (rv, s')"
  shows "\<exists>r args' s1 s2. catch_unwind_result (on_opening E args) s = (r, s1) \<and> handler f args' s1 = (rv, s2) \<and>
    (case r of
       Ok request' \<Rightarrow> s' = snd (catch_unwind_result (on_closing args) s2) \<and>
         (\<exists>request rest. args = request # rest \<and> args' = request' # rest \<and> decorated E request request')
     | _ \<Rightarrow> s' = s2 \<and> args' = args)"
proof -
  obtain r s1 where init: "catch_unwind_result (on_opening E args) s = (r, s1)" by fastforce
  note eq = on_request_eq [OF f init, of handler]
  show ?thesis
  proof (cases r)
    case (Ok request')
    with init obtain request rest where args: "args = request # rest" "decorated E request request'"
      by (cases args) (auto simp: on_opening_def catch_unwind_Ok_iff dest: request_init_decorates)
    obtain rv2 s2 where "handler f (request' # rest) s1 = (rv2, s2)" by fastforce
    with args eq run init Ok show ?thesis
      by (intro exI [of _ r] exI [of _ "request' # rest"] exI [of _ s1] exI [of _ s2]) simp
  qed (use eq run init in auto)
qed

theorem on_request_transparent_witness:
  "skywalking_hack_swoole_on_request sample_env (\<lambda>f args s. (Inr (ZLong 42), s)) []
     (sample_agent\<lparr>ori_on_request := Some ZNull\<rparr>) = (Inr (ZLong 42), sample_agent\<lparr>ori_on_request := Some ZNull\<rparr>)"
proof -
  let ?s = "sample_agent\<lparr>ori_on_request := Some ZNull\<rparr>" and ?h = "\<lambda>f args s. (Inr (ZLong 42), s)"
  obtain rv s' where run: "skywalking_hack_swoole_on_request sample_env ?h [] ?s = (rv, s')" by fastforce
  have init: "catch_unwind_result (on_opening sample_env []) ?s = (Err (Anyhow (panic_message index_panic)), ?s)"
    by (simp add: on_opening_def catch_unwind_result_def)
  have "rv = Inr (ZLong 42) \<and> s' = ?s" using on_request_transparent [OF _ run] init by auto
  with run show ?thesis by simp
qed

text \<open>
  There is one callback for all registrations.  When a program registers a second callback,
  as a coroutine server does for a second path, both registrations are left with the same
  replacement function, and from then on every call of it, whichever path it was registered for,
  behaves as if the second callback had been registered everywhere: the first is never called.
\<close>

theorem second_callback_replaces_first:
  assumes first: "swoole_handle_before rid1 ed1 s = (Ok (d1, ed1'), s1)"
    and second: "swoole_handle_before rid2 ed2 s2 = (Ok (d2, ed2'), s3)"
    and later: "ori_on_request s4 = ori_on_request s3"
  shows "get_parameter ed1' 1 = ZStr HACK_SWOOLE_ON_REQUEST_FUNCTION_NAME \<and>
    get_parameter ed2' 1 = get_parameter ed1' 1 \<and>
    skywalking_hack_swoole_on_request E handler args s4 =
      skywalking_hack_swoole_on_request E (\<lambda>f. handler (get_parameter ed2 1)) args s4"
proof -
  have "ori_on_request s3 = Some (get_parameter ed2 1)"
    "get_parameter ed1' 1 = ZStr HACK_SWOOLE_ON_REQUEST_FUNCTION_NAME"
    "get_parameter ed2' 1 = ZStr HACK_SWOOLE_ON_REQUEST_FUNCTION_NAME"
    using first second
    by (auto simp: swoole_handle_before_def hack_callback_def set_parameter_def get_parameter_def elim!: andthen_OkE)
  with later show ?thesis by (simp add: skywalking_hack_swoole_on_request_def)
qed

theorem second_callback_replaces_first_witness:
  "\<exists>s. skywalking_hack_swoole_on_request sample_env (\<lambda>f args s. (Inr f, s)) [] s = (Inr (ZLong 2), s)"
proof -
  let ?ed = "\<lambda>n. sample_frame None None None [ZStr ''/'', ZLong n]"
  have reg: "\<exists>d ed' s'. swoole_handle_before None (?ed n) s = (Ok (d, ed'), s') \<and> ori_on_request s' = Some (ZLong n)" for n s
    by (simp add: swoole_handle_before_def hack_callback_def)
  obtain d1 ed1 s1 where 1: "swoole_handle_before None (?ed 1) sample_agent = (Ok (d1, ed1), s1)"
    using reg [of 1] by blast
  obtain d2 ed2 s2 where 2: "swoole_handle_before None (?ed 2) s1 = (Ok (d2, ed2), s2)" "ori_on_request s2 = Some (ZLong 2)"
    using reg [of 2] by blast
  have "skywalking_hack_swoole_on_request sample_env (\<lambda>f args s. (Inr f, s)) [] s2 = (Inr (ZLong 2), s2)"
    using second_callback_replaces_first [OF 1 2(1) refl, of sample_env "\<lambda>f args s. (Inr f, s)" "[]"] 2(2)
    by (simp add: skywalking_hack_swoole_on_request_def catch_unwind_result_def)
  then show ?thesis by blast
qed

end
