(* ===== verification/Whole_Request.thy ===== *)
theory Whole_Request
  imports Request
begin

text \<open>
  A request from its start to its end, with the calls of the program in between: the creation
  and the end of the context of \<^verbatim>\<open>src/src/request.rs\<close> around the interceptors of
  \<^verbatim>\<open>src/src/execute.rs\<close>.  What each of them does to the spans that are open and to the requests
  being served adds up to nothing.
\<close>

text \<open>What the accounting of spans and calls looks at besides the requests.\<close>

definition request_view :: "agent \<Rightarrow> nat set \<times> nat \<times> (i64 \<Rightarrow> nat set) \<times> event list" where
  "request_view s = (open_spans s, next_id s, multi_spans s, originals s)"

lemma request_view_put_server [simp]: "request_view (put_server a s) = request_view s"
  by (simp add: request_view_def put_server_def open_spans_def multi_spans_def originals_def fun_eq_iff)

lemma request_init_for_fpm_cases:
  assumes "request_init_for_fpm E s = (r, s1)"
  shows "s1 = with_server E s \<or> (\<exists>p meth u. s1 = started None p meth u (with_server E s) \<or>
    (\<exists>a. s1 = put_server a (started None p meth u (with_server E s))))"
proof -
  have inject: "snd (inject_server_var_for_fpm E t) = t \<or> (\<exists>a. snd (inject_server_var_for_fpm E t) = put_server a t)" for t
    by (auto simp: inject_server_var_for_fpm_def inject_server_var_def andthen_def get_page_request_server_eq
        try_with_global_ctx_def try_with_global_eq ret_def modify_def split: outcome.split option.split)
  obtain rs where server: "get_page_request_server (with_server E s) = (rs, with_server E s)"
    by (simp add: get_page_request_server_eq)
  show ?thesis
  proof (cases "\<exists>server u. rs = Ok server \<and> get_page_request_url E server = Ok u")
    case False
    then show ?thesis using assms server
      by (auto simp: request_init_for_fpm_def andthen_def jit_initialization_eq split: outcome.splits)
  next
    case True
    then obtain server u where ok: "rs = Ok server" "get_page_request_url E server = Ok u" by blast
    let ?create = "create_request_context E None (get_page_request_header E server) (get_page_request_method server) u"
    obtain rc s2 where c: "?create (with_server E s) = (rc, s2)" by fastforce
    have run: "request_init_for_fpm E s =
        (case rc of Ok x \<Rightarrow> inject_server_var_for_fpm E s2 | Err e \<Rightarrow> (Err e, s2) | Panic q \<Rightarrow> (Panic q, s2))"
      using server ok c by (simp add: request_init_for_fpm_def andthen_def jit_initialization_eq split: outcome.split)
    from c show ?thesis
    proof (cases rule: create_request_context_cases)
      case 1
      then show ?thesis using run assms by (cases rc) simp_all
    next
      case (2 p)
      then show ?thesis using run assms inject [of s2] by simp (metis snd_conv)
    qed
  qed
qed

lemma started_view:
  assumes "request_context s rid = None"
  shows "request_view (started rid p meth u s) =
    (insert (Suc (next_id s)) (open_spans s), Suc (Suc (next_id s)), multi_spans s, originals s)"
  using assms
  by (auto simp: request_view_def open_spans_def spans_started started_def insert_ctx_def originals_def multi_spans_def fun_eq_iff)

lemma accounting_started:
  assumes wf: "spans_wf s" and v: "request_view t = (insert (Suc (next_id s)) (open_spans s), Suc (Suc (next_id s)), multi_spans s, originals s)"
  shows "spans_wf t" "loose_spans t = insert (Suc (next_id s)) (loose_spans s)" "Suc (next_id s) \<notin> loose_spans s"
proof -
  have new: "Suc (next_id s) \<notin> open_spans s" using wf by (auto simp: spans_wf_def fresh_ids_def)
  then have "Suc (next_id s) \<notin> transfers s" using wf by (auto simp: spans_wf_def)
  with new v wf show "spans_wf t" "loose_spans t = insert (Suc (next_id s)) (loose_spans s)" "Suc (next_id s) \<notin> loose_spans s"
    by (auto simp: request_view_def spans_wf_def loose_spans_def transfers_def fresh_ids_def less_Suc_eq)
qed

lemma accounting_finished:
  assumes "spans_wf s" "request_context s rid = Some rc" "entry_span rc \<in> loose_spans s"
    and run: "finish_request_context rid status s = (r, t)"
  shows "spans_wf t \<and> loose_spans t = loose_spans s - {entry_span rc} \<and> originals t = originals s \<and>
    request_context t = map_remove (request_context s) rid"
proof -
  let ?cs = "AddTag ''http.status_code'' (show_i32 status) # (if 400 \<le> sint status then [SetError True] else [])"
  have t: "t = ended status rc (take_ctx rid s)" using run assms(2) by (simp add: finish_request_context_eq)
  have "open_spans t = open_spans (take_ctx rid s) - {entry_span rc}" unfolding t by simp
  moreover have "open_spans (take_ctx rid s) = open_spans s" by (simp add: open_spans_def take_ctx_def)
  moreover have "next_id t = next_id s" "multi_spans t = multi_spans s" "originals t = originals s"
    unfolding t
    by (simp_all add: take_ctx_def multi_spans_def fun_eq_iff ended_def originals_def close_span_def
        drop_context_def upd_span_def split: option.split)
  ultimately show ?thesis using assms(1,3)
    by (auto simp: spans_wf_def loose_spans_def transfers_def fresh_ids_def t take_ctx_def)
qed

lemma run_trees_accounts:
  "spans_wf s \<Longrightarrow> spans_wf (run_trees E ts s) \<and> loose_spans (run_trees E ts s) = loose_spans s \<and>
   originals (run_trees E ts s) = originals s @ concat (map tree_calls ts) \<and>
   request_context (run_trees E ts s) = request_context s"
  using run_trees_settles [OF run_tree_settles, of ts E] by (simp add: settles_def)

lemma with_server_view [simp]:
  "spans_wf (with_server E s) = spans_wf s" "loose_spans (with_server E s) = loose_spans s"
  "originals (with_server E s) = originals s" "open_spans (with_server E s) = open_spans s"
  "multi_spans (with_server E s) = multi_spans s"
  by (simp_all add: spans_wf_def loose_spans_def fresh_ids_def transfers_def originals_def open_spans_def
      multi_spans_def fun_eq_iff)

text \<open>A request around any program whose calls account for their spans.\<close>

lemma settles_state:
  assumes "settles evs (\<lambda>s. ((), body s))" "spans_wf s"
  shows "spans_wf (body s) \<and> loose_spans (body s) = loose_spans s \<and> originals (body s) = originals s @ evs \<and>
    request_context (body s) = request_context s"
  using settlesD [OF assms refl] .

lemma request_accounts:
  assumes body: "settles evs (\<lambda>s. ((), body s))" and wf: "spans_wf s" and idle: "request_context s None = None"
  shows "let t = request_shutdown enabled kind status (body (request_init E enabled kind s)) in
    originals t = originals s @ evs \<and> loose_spans t = loose_spans s \<and> spans_wf t \<and>
    request_context t = request_context s"
proof (cases "enabled \<and> kind = ''fpm-fcgi''")
  case False
  then have "request_shutdown enabled kind status (body (request_init E enabled kind s)) = body s"
    by (simp only: request_init_def request_shutdown_def False if_False)
  then show ?thesis using settles_state [OF body wf] by (simp add: Let_def)
next
  case True
  obtain r s1 where init: "request_init_for_fpm E s = (r, s1)" by fastforce
  have start: "request_init E enabled kind s = s1"
    using True init by (cases r) (simp_all add: request_init_def catch_unwind_result_def)
  let ?t = "body s1"
  obtain r' t where stop: "finish_request_context None status ?t = (r', t)" by fastforce
  have fin: "request_shutdown enabled kind status ?t = t"
    using True stop by (cases r') (simp_all add: request_shutdown_def request_shutdown_for_fpm_def catch_unwind_result_def)
  let ?s0 = "with_server E s"
  have wf0: "spans_wf ?s0" and idle0: "request_context ?s0 None = None" using wf idle by simp_all
  show ?thesis
  proof (cases "s1 = ?s0")
    case True
    have "t = ?t" using stop settles_state [OF body wf0] idle True
      by (auto simp: finish_request_context_eq take_ctx_def map_remove_def fun_eq_iff)
    then show ?thesis unfolding start fin using settles_state [OF body wf0] True by (simp add: Let_def)
  next
    case False
    let ?rc = "\<lparr>tracing_context = next_id s, entry_span = Suc (next_id s)\<rparr>"
    from False request_init_for_fpm_cases [OF init] obtain p meth u
      where v: "request_view s1 = request_view (started None p meth u ?s0)"
        and c: "request_context s1 = request_context (started None p meth u ?s0)"
      by auto
    note s1 = accounting_started [OF wf0 v [unfolded started_view [OF idle0]]]
    note mid = settles_state [OF body s1(1)]
    have o1: "originals s1 = originals s" using v by (simp add: started_view [OF idle0]) (simp add: request_view_def)
    have "request_context ?t None = Some ?rc" "entry_span ?rc \<in> loose_spans ?t" using mid c s1 by simp_all
    from accounting_finished [OF _ this stop] mid c s1 o1 idle show ?thesis
      unfolding start fin by (auto simp: Let_def fun_eq_iff)
  qed
qed

text \<open>
  A whole request leaves nothing behind.  Whatever the server variables, the headers, the
  configuration and the kind of server, whatever the engine answers and whichever parts of the
  agent fail or panic: between the start and the end of a request every function the program calls
  runs exactly once, in order; and afterwards the process has the same spans open as before (but
  for transfers of multi handles) and no context of the request, so that the next request finds
  it as this one did.
\<close>

theorem whole_request_leaves_nothing:
  assumes wf: "spans_wf s" and idle: "request_context s None = None"
  shows "let t = request_shutdown enabled kind status (run_trees E ts (request_init E enabled kind s)) in
    originals t = originals s @ concat (map tree_calls ts) \<and> loose_spans t = loose_spans s \<and> spans_wf t \<and>
    request_context t = request_context s"
  using run_trees_settles [OF run_tree_settles] wf idle by (rule request_accounts)

theorem whole_request_leaves_nothing_witness:
  "let t = request_shutdown True ''fpm-fcgi'' 200 (run_trees sample_env
       [UserCall (sample_frame None (Some ''main'') None []) True ZNull [InternalCall sample_curl_frame (ZBool False) []]]
       (request_init sample_env True ''fpm-fcgi'' sample_idle))
   in originals t = [OriginalCalled (Some ''main''), OriginalCalled (Some ''curl_exec'')] \<and> loose_spans t = {}"
proof -
  have "spans_wf sample_idle" "originals sample_idle = []" "loose_spans sample_idle = {}"
    by (simp_all add: spans_wf_def fresh_ids_def open_spans_def transfers_def multi_spans_def originals_def
        loose_spans_def sample_idle_def init_agent_def)
  then show ?thesis
    using whole_request_leaves_nothing [of sample_idle True "''fpm-fcgi''" 200 sample_env
        "[UserCall (sample_frame None (Some ''main'') None []) True ZNull [InternalCall sample_curl_frame (ZBool False) []]]"]
    by (simp add: Let_def sample_curl_frame_def)
qed

lemma request_init_for_swoole_cases:
  assumes "get_property req ''fd'' = ZLong fd" "request_context s (Some fd) = None"
    and "request_init_for_swoole E (ZObj req) s = (r, s1)"
  shows "(\<forall>v. r \<noteq> Ok v) \<and> s1 = s \<or> (\<exists>v p meth u. r = Ok v \<and> s1 = started (Some fd) p meth u s)"
proof -
  have inject: "inject_server_var E (Some fd) server (started (Some fd) p meth u s) =
      (Ok (injected E (next_id s) server), started (Some fd) p meth u s)"
    if "inject_context (cfg E)" for server p meth u
    using that inject_server_var_eq [of "started (Some fd) p meth u s" "Some fd"] by simp
  show ?thesis
    using assms
    by (auto simp: request_init_for_swoole_def andthen_def lift_def create_request_context_eq inject ret_def
        split: outcome.splits option.splits prod.splits if_splits)
qed

lemma take_status_view:
  "spans_wf (take_status fd s) = spans_wf s" "loose_spans (take_status fd s) = loose_spans s"
  "originals (take_status fd s) = originals s"
  by (simp_all add: take_status_def spans_wf_def loose_spans_def open_spans_def transfers_def multi_spans_def
      fresh_ids_def originals_def)

text \<open>
  (C4) A whole request of a Swoole server leaves nothing behind.  A callback is registered, request
  and response carry the same descriptor, and no request with this descriptor is being served.
  Whatever headers and server variables the request has and whichever parts of the agent fail, the
  function put in place of the callback runs the calls of the program exactly once, in order, and
  returns what the callback returns; the open spans other than those of transfers of multi handles
  and the contexts of all requests are as they were, so that other requests of the process are not
  touched.
\<close>

theorem whole_swoole_request_leaves_nothing:
  assumes wf: "spans_wf s" and idle: "request_context s (Some fd) = None" and f: "ori_on_request s = Some f"
    and fds: "get_property req ''fd'' = ZLong fd" "get_property resp ''fd'' = ZLong fd"
    and run: "skywalking_hack_swoole_on_request E (\<lambda>f args s. (rv, run_trees E ts s)) [ZObj req, ZObj resp] s = (v, t)"
  shows "v = rv \<and> originals t = originals s @ concat (map tree_calls ts) \<and> loose_spans t = loose_spans s \<and>
    spans_wf t \<and> request_context t = request_context s"
proof -
  obtain r s1 where init: "request_init_for_swoole E (ZObj req) s = (r, s1)" by fastforce
  let ?t = "run_trees E ts s1"
  note run' = run [unfolded skywalking_hack_swoole_on_request_def f, simplified]
  from request_init_for_swoole_cases [OF fds(1) idle init] show ?thesis
  proof (elim disjE conjE exE)
    assume fails: "\<forall>v. r \<noteq> Ok v" and "s1 = s"
    then have "v = rv \<and> t = run_trees E ts s"
      using run' init by (cases r) (auto simp: catch_unwind_result_def)
    then show ?thesis using run_trees_accounts [OF wf] by simp
  next
    fix w p meth u assume ok: "r = Ok w" and s1: "s1 = started (Some fd) p meth u s"
    let ?rc = "\<lparr>tracing_context = next_id s, entry_span = Suc (next_id s)\<rparr>"
    note v1 = started_view [OF idle, of p meth u]
    note a = accounting_started [OF wf v1]
    have o1: "originals s1 = originals s" using v1 by (simp add: request_view_def s1)
    note mid = run_trees_accounts [OF a(1), of E ts, folded s1]
    let ?st = "unwrap_or (swoole_status ?t fd) 200"
    obtain r' t' where stop: "finish_request_context (Some fd) ?st (take_status fd ?t) = (r', t')" by fastforce
    have "v = rv \<and> t = t'"
      using run' init ok stop fds(2)
      by (cases r') (auto simp: catch_unwind_result_def request_shutdown_for_swoole_def)
    moreover have "request_context (take_status fd ?t) (Some fd) = Some ?rc" "entry_span ?rc \<in> loose_spans (take_status fd ?t)"
      using mid a by (simp_all add: s1 take_status_view)
    from accounting_finished [OF _ this stop] have "spans_wf t' \<and> loose_spans t' = loose_spans ?t - {Suc (next_id s)} \<and>
        originals t' = originals ?t \<and> request_context t' = map_remove (request_context ?t) (Some fd)"
      using mid by (simp add: take_status_view)
    ultimately show ?thesis using mid a o1 idle by (auto simp: s1 fun_eq_iff)
  qed
qed

definition sample_swoole_object :: zobj where
  "sample_swoole_object = Zobj 9 ''Swoole'' [(''fd'', ZLong 5)]"

theorem whole_swoole_request_leaves_nothing_witness:
  "\<exists>t. skywalking_hack_swoole_on_request sample_env
      (\<lambda>f args s. (Inr ZNull, run_trees sample_env [InternalCall sample_curl_frame (ZBool False) []] s))
      [ZObj sample_swoole_object, ZObj sample_swoole_object] (sample_idle\<lparr>ori_on_request := Some ZNull\<rparr>) = (Inr ZNull, t) \<and>
    originals t = [OriginalCalled (Some ''curl_exec'')] \<and> loose_spans t = {}"
proof -
  let ?s = "sample_idle\<lparr>ori_on_request := Some ZNull\<rparr>"
  obtain v t where run: "skywalking_hack_swoole_on_request sample_env
      (\<lambda>f args s. (Inr ZNull, run_trees sample_env [InternalCall sample_curl_frame (ZBool False) []] s))
      [ZObj sample_swoole_object, ZObj sample_swoole_object] ?s = (v, t)" by fastforce
  have "spans_wf ?s" "originals ?s = []" "loose_spans ?s = {}" "get_property sample_swoole_object ''fd'' = ZLong 5"
    by (simp_all add: spans_wf_def fresh_ids_def open_spans_def transfers_def multi_spans_def originals_def
        loose_spans_def sample_idle_def init_agent_def sample_swoole_object_def get_property_def)
  with whole_swoole_request_leaves_nothing [OF _ _ _ _ _ run, of 5 ZNull] run show ?thesis
    by (auto simp: sample_curl_frame_def)
qed

end
