(* ===== verification/Coroutines.thy ===== *)
theory Coroutines
  imports Whole_Request
begin

text \<open>
  The coroutines of a Swoole worker: any number of requests and intercepted calls of one
  process are open at a time, and a call may end long after calls of other coroutines have
  begun and ended.  The interceptors of \<^verbatim>\<open>src/src/execute.rs\<close> and the request callback of
  \<^verbatim>\<open>src/src/request.rs\<close> are split at the point where they run the program's function; the two
  halves are steps of a relation in which the coroutines take turns in any order.
\<close>

section \<open>The two halves of a call\<close>

text \<open>
  What is on the stack of a coroutine while the program's function runs: nothing, the data that
  the before hook returned with its hook and request, or a served request with its response.
\<close>

datatype activation = Plain | Traced hook_id "i64 option" hook_data | Serving zval

text \<open>\<open>execute_internal\<close> up to the call of the function.\<close>

definition enter_call :: "env \<Rightarrow> exec_data \<Rightarrow> agent \<Rightarrow> activation \<times> exec_data \<times> agent" where
  "enter_call E ed s =
     (case get_function_and_class_name ed of
        Ok (Some f, cls) \<Rightarrow>
          if f = HACK_SWOOLE_ON_REQUEST_FUNCTION_NAME then (Plain, ed, s)
          else
            (case pick_hook E cls f s of
               (None, s1) \<Rightarrow> (Plain, ed, s1)
             | (Some h, s1) \<Rightarrow>
                 (let rid = infer_request_id ed s1 in
                  case catch_unwind_result (run_before E h rid ed) s1 of
                    (Ok (d, ed1), s2) \<Rightarrow> (Traced h rid d, ed1, s2)
                  | (_, s2) \<Rightarrow> (Plain, ed, s2)))
      | _ \<Rightarrow> (Plain, ed, s))"

text \<open>The hack function up to the call of the program's callback.\<close>

definition start_request :: "env \<Rightarrow> zval \<Rightarrow> zval \<Rightarrow> agent \<Rightarrow> activation \<times> zval \<times> agent" where
  "start_request E request response s =
     (case catch_unwind_result (request_init_for_swoole E request) s of
        (Ok request', s1) \<Rightarrow> (Serving response, request', s1)
      | (_, s1) \<Rightarrow> (Plain, request, s1))"

text \<open>What either does when the program's function has returned \<open>rv\<close>.\<close>

fun leave :: "env \<Rightarrow> activation \<Rightarrow> exec_data \<Rightarrow> zval \<Rightarrow> agent \<Rightarrow> agent" where
  "leave E Plain ed rv s = s"
| "leave E (Traced h rid d) ed rv s = snd (catch_unwind_result (run_after E h rid d ed rv) s)"
| "leave E (Serving response) ed rv s = snd (catch_unwind_result (request_shutdown_for_swoole response) s)"

text \<open>The halves are what the interceptor and the hack function are made of.\<close>

lemma execute_internal_halves:
  "execute_internal E ori (Some ed) True s =
     (case enter_call E ed s of (a, ed1, s1) \<Rightarrow>
      case call_ori ori (fn_name ed) (Some ed1) s1 of ((ed2, rv), s2) \<Rightarrow> (rv, leave E a ed2 rv s2))"
  by (simp add: execute_internal_def enter_call_def with_hook_def without_hook_def Let_def
      split: outcome.split prod.split option.split)

lemma execute_ex_halves:
  assumes "fn_name ed \<noteq> Some HACK_SWOOLE_ON_REQUEST_FUNCTION_NAME"
  shows "execute_ex E ori (Some ed) has_rv s =
     (case enter_call E ed s of (a, ed1, s1) \<Rightarrow>
      case call_ori ori (fn_name ed) (Some ed1) s1 of
        ((ed2, rv), s2) \<Rightarrow> (rv, leave E a ed2 (if has_rv then rv else ZNull) s2))"
proof -
  have no_hack: "f \<noteq> HACK_SWOOLE_ON_REQUEST_FUNCTION_NAME" if "get_function_and_class_name ed = Ok (Some f, cls)" for f cls
    using that assms by (auto simp: get_function_and_class_name_def opt_utf8_def expect_utf8_Ok_iff
        split: option.splits outcome.splits)
  show ?thesis
  proof (cases "\<exists>f cls. get_function_and_class_name ed = Ok (Some f, cls)")
    case True
    then obtain f cls where names: "get_function_and_class_name ed = Ok (Some f, cls)" by blast
    then show ?thesis using no_hack [OF names]
      by (auto simp: execute_ex_def enter_call_def with_hook_def without_hook_def Let_def
          split: outcome.split prod.split option.split)
  next
    case False
    then show ?thesis
      by (auto simp: execute_ex_def enter_call_def without_hook_def split: outcome.split prod.split option.split)
  qed
qed

lemma hack_function_halves:
  assumes "ori_on_request s = Some f"
  shows "skywalking_hack_swoole_on_request E handler [request, response] s =
     (case start_request E request response s of (a, request', s1) \<Rightarrow>
      case handler f [request', response] s1 of (rv, s2) \<Rightarrow> (rv, leave E a ed0 rv0 s2))"
  using assms
  by (simp add: skywalking_hack_swoole_on_request_def start_request_def split: prod.split outcome.split)

section \<open>Turns of the coroutines\<close>

text \<open>
  The process: the agent and the open activations of all coroutines, each with the number of its
  coroutine, the latest first.  Calls of one coroutine nest; nothing orders those of different
  ones.  Swoole gives a request a descriptor that no open request has.  At any time the engine may
  destroy an object and run the destructors that the agent patched.
\<close>

record process =
  proc :: agent
  pending :: "(nat \<times> activation) list"

inductive turn :: "env \<Rightarrow> process \<Rightarrow> process \<Rightarrow> bool" for E where
  call: "enter_call E ed (proc w) = (a, ed1, s1) \<Longrightarrow>
    turn E w (w\<lparr>proc := emit (OriginalCalled (fn_name ed)) s1, pending := (k, a) # pending w\<rparr>)"
| request: "get_property req ''fd'' = ZLong fd \<Longrightarrow> get_property resp ''fd'' = ZLong fd \<Longrightarrow>
    request_context (proc w) (Some fd) = None \<Longrightarrow>
    start_request E (ZObj req) (ZObj resp) (proc w) = (a, req1, s1) \<Longrightarrow>
    turn E w (w\<lparr>proc := s1, pending := (k, a) # pending w\<rparr>)"
| return: "pending w = xs @ (k, a) # ys \<Longrightarrow> k \<notin> fst ` set xs \<Longrightarrow>
    turn E w (w\<lparr>proc := leave E a ed rv (proc w), pending := xs @ ys\<rparr>)"
| destroy: "turn E w (w\<lparr>proc := free_object E ob (destroy_object E ob (proc w))\<rparr>)"

text \<open>The descriptor an activation serves, and the span it keeps open.\<close>

fun serves :: "activation \<Rightarrow> i64 list" where
  "serves (Serving response) =
     (case Option.bind (as_z_obj response) (\<lambda>ob. as_long (get_property ob ''fd'')) of Some fd \<Rightarrow> [fd] | None \<Rightarrow> [])"
| "serves _ = []"

fun owns :: "(i64 option \<rightharpoonup> req_ctx) \<Rightarrow> activation \<Rightarrow> nat list" where
  "owns R Plain = []"
| "owns R (Traced h rid d) = (case d of DSpan i \<Rightarrow> [i] | _ \<Rightarrow> [])"
| "owns R (Serving response) = List.map_filter (\<lambda>fd. map_option entry_span (R (Some fd))) (serves (Serving response))"

definition served :: "(nat \<times> activation) list \<Rightarrow> i64 list" where
  "served ps = concat (map (serves \<circ> snd) ps)"

definition owned :: "(i64 option \<rightharpoonup> req_ctx) \<Rightarrow> (nat \<times> activation) list \<Rightarrow> nat list" where
  "owned R ps = concat (map (owns R \<circ> snd) ps)"

lemma served_simps [simp]:
  "served [] = []" "served ((k, a) # ps) = serves a @ served ps" "served (xs @ ys) = served xs @ served ys"
  by (simp_all add: served_def)

lemma owned_simps [simp]:
  "owned R [] = []" "owned R ((k, a) # ps) = owns R a @ owned R ps"
  "owned R (xs @ ys) = owned R xs @ owned R ys"
  by (simp_all add: owned_def)

lemma owns_cong: "\<forall>fd \<in> set (serves a). R (Some fd) = R' (Some fd) \<Longrightarrow> owns R a = owns R' a"
  by (cases a) (auto simp: List.map_filter_def split: option.splits)

lemma owned_cong: "\<forall>fd \<in> set (served ps). R (Some fd) = R' (Some fd) \<Longrightarrow> owned R ps = owned R' ps"
proof (induction ps)
  case (Cons p ps)
  then show ?case using owns_cong [of "snd p" R R'] by (cases p) auto
qed simp

lemma set_owns_held: "set (owns R (Traced h rid d)) = held d"
  by (cases d) simp_all

text \<open>
  Every open span that is none of a transfer of a multi handle belongs to exactly one open
  activation, or was open at the start; and the requests being served are those of the activations
  and those of the start.
\<close>

definition came_from :: "env \<Rightarrow> activation \<Rightarrow> bool" where
  "came_from E a \<longleftrightarrow>
     (case a of Traced h rid d \<Rightarrow> \<exists>ed s ed' s'. run_before E h rid ed s = (Ok (d, ed'), s') | _ \<Rightarrow> True)"

definition accounted :: "env \<Rightarrow> agent \<Rightarrow> process \<Rightarrow> bool" where
  "accounted E s0 w \<longleftrightarrow>
     spans_wf (proc w) \<and>
     distinct (owned (request_context (proc w)) (pending w)) \<and>
     set (owned (request_context (proc w)) (pending w)) \<inter> loose_spans s0 = {} \<and>
     loose_spans (proc w) = loose_spans s0 \<union> set (owned (request_context (proc w)) (pending w)) \<and>
     distinct (served (pending w)) \<and>
     (\<forall>fd \<in> set (served (pending w)).
        request_context (proc w) (Some fd) \<noteq> None \<and> request_context s0 (Some fd) = None) \<and>
     (\<forall>rid. rid \<notin> Some ` set (served (pending w)) \<longrightarrow> request_context (proc w) rid = request_context s0 rid) \<and>
     (\<forall>a \<in> snd ` set (pending w). came_from E a)"

lemma enter_call_accounts:
  assumes wf: "spans_wf s" and run: "enter_call E ed s = (a, ed1, s1)"
  shows "spans_wf s1" "request_context s1 = request_context s" "originals s1 = originals s"
    "loose_spans s1 = loose_spans s \<union> set (owns R a)" "set (owns R a) \<inter> loose_spans s = {}"
    "distinct (owns R a)" "serves a = []" "came_from E a"
proof -
  have "spans_wf s1 \<and> request_context s1 = request_context s \<and> originals s1 = originals s \<and>
    loose_spans s1 = loose_spans s \<union> set (owns R a) \<and> set (owns R a) \<inter> loose_spans s = {} \<and>
    distinct (owns R a) \<and> serves a = [] \<and> came_from E a"
  proof (cases "\<exists>f cls h sa. get_function_and_class_name ed = Ok (Some f, cls) \<and>
      f \<noteq> HACK_SWOOLE_ON_REQUEST_FUNCTION_NAME \<and> pick_hook E cls f s = (Some h, sa)")
    case False
    have "a = Plain \<and> (s1 = s \<or> (\<exists>cls f. s1 = snd (pick_hook E cls f s)))"
      using run False by (auto simp: enter_call_def split: outcome.splits option.splits if_splits prod.splits)
        (metis snd_conv)+
    then show ?thesis using wf by (auto simp: came_from_def)
  next
    case True
    then obtain f cls h sa where names: "get_function_and_class_name ed = Ok (Some f, cls)"
      "f \<noteq> HACK_SWOOLE_ON_REQUEST_FUNCTION_NAME" and p: "pick_hook E cls f s = (Some h, sa)" by blast
    from pick_hook_views [of E cls f s] p wf have
      sa: "spans_wf sa" "loose_spans sa = loose_spans s" "originals sa = originals s" "request_context sa = request_context s"
      by simp_all
    let ?rid = "infer_request_id ed sa"
    obtain r sb where b: "run_before E h ?rid ed sa = (r, sb)" by fastforce
    note post = traced_hook.traced_before [OF all_hooks_traced sa(1) b]
    have s1: "s1 = sb" using run names p b
      by (cases r) (auto simp: enter_call_def Let_def catch_unwind_result_def)
    show ?thesis
    proof (cases "\<exists>d ed'. r = Ok (d, ed')")
      case True
      then obtain d ed' where r: "r = Ok (d, ed')" by blast
      then have "a = Traced h ?rid d" using run names p b
        by (auto simp: enter_call_def Let_def catch_unwind_result_def)
      moreover have "distinct (owns R (Traced h ?rid d))" by (cases d) simp_all
      ultimately show ?thesis using post r s1 sa b set_owns_held [of R h ?rid d]
        by (auto simp: ctl_view_def came_from_def simp del: owns.simps)
    next
      case False
      then have "a = Plain" using run names p b
        by (cases r) (auto simp: enter_call_def Let_def catch_unwind_result_def)
      then show ?thesis using post False s1 sa by (cases r) (auto simp: ctl_view_def came_from_def)
    qed
  qed
  then show "spans_wf s1" "request_context s1 = request_context s" "originals s1 = originals s"
    "loose_spans s1 = loose_spans s \<union> set (owns R a)" "set (owns R a) \<inter> loose_spans s = {}"
    "distinct (owns R a)" "serves a = []" "came_from E a" by simp_all
qed

lemma start_request_accounts:
  assumes wf: "spans_wf s" and idle: "request_context s (Some fd) = None"
    and fds: "get_property req ''fd'' = ZLong fd" "get_property resp ''fd'' = ZLong fd"
    and run: "start_request E (ZObj req) (ZObj resp) s = (a, req1, s1)"
  shows "a = Plain \<and> s1 = s \<or>
    (\<exists>rc. a = Serving (ZObj resp) \<and> serves a = [fd] \<and> spans_wf s1 \<and>
       request_context s1 = (request_context s)(Some fd \<mapsto> rc) \<and>
       loose_spans s1 = insert (entry_span rc) (loose_spans s) \<and> entry_span rc \<notin> loose_spans s)"
proof -
  obtain r t where init: "request_init_for_swoole E (ZObj req) s = (r, t)" by fastforce
  from request_init_for_swoole_cases [OF fds(1) idle init] show ?thesis
  proof (elim disjE conjE exE)
    assume "\<forall>v. r \<noteq> Ok v" "t = s"
    then show ?thesis using run init by (cases r) (auto simp: start_request_def catch_unwind_result_def)
  next
    fix v p meth u assume ok: "r = Ok v" and t: "t = started (Some fd) p meth u s"
    then have "a = Serving (ZObj resp)" "s1 = t"
      using run init by (auto simp: start_request_def catch_unwind_result_def)
    moreover note accounting_started [OF wf started_view [OF idle, of p meth u], folded t]
    ultimately show ?thesis using fds(2) by (auto simp: t)
  qed
qed

text \<open>Leaving a call gives back what the activation owned, whatever was opened and closed meanwhile.\<close>

lemma leave_accounts:
  assumes wf: "spans_wf s" and own: "set (owns (request_context s) a) \<subseteq> loose_spans s" and ev: "came_from E a"
    and known: "\<forall>fd \<in> set (serves a). request_context s (Some fd) \<noteq> None"
  shows "spans_wf (leave E a ed rv s)"
    "loose_spans (leave E a ed rv s) = loose_spans s - set (owns (request_context s) a)"
    "originals (leave E a ed rv s) = originals s"
    "request_context (leave E a ed rv s) rid = (if rid \<in> Some ` set (serves a) then None else request_context s rid)"
proof -
  let ?t = "leave E a ed rv s"
  have "spans_wf ?t \<and> loose_spans ?t = loose_spans s - set (owns (request_context s) a) \<and> originals ?t = originals s \<and>
    (\<forall>rid. request_context ?t rid = (if rid \<in> Some ` set (serves a) then None else request_context s rid))"
  proof (cases a)
    case Plain
    with wf show ?thesis by simp
  next
    case (Traced h rid0 d)
    obtain ed0 s0 ed' s' where b: "run_before E h rid0 ed0 s0 = (Ok (d, ed'), s')"
      using ev by (auto simp: came_from_def Traced)
    obtain r t where after: "run_after E h rid0 d ed rv s = (r, t)" by fastforce
    have "held d \<subseteq> loose_spans s" using own set_owns_held [of "request_context s" h rid0 d] by (simp only: Traced)
    from traced_hook.traced_after [OF all_hooks_traced b wf this after] show ?thesis
      using after set_owns_held [of "request_context s" h rid0 d] by (simp add: Traced ctl_view_def del: owns.simps)
  next
    case (Serving response)
    show ?thesis
    proof (cases "Option.bind (as_z_obj response) (\<lambda>ob. as_long (get_property ob ''fd''))")
      case None
      have "snd (request_shutdown_for_swoole response s) = s" using None
        by (cases "as_z_obj response") (auto simp: request_shutdown_for_swoole_def)
      with wf show ?thesis using None by (simp add: Serving List.map_filter_def)
    next
      case (Some fd)
      then obtain ob where ob: "as_z_obj response = Some ob" "as_long (get_property ob ''fd'') = Some fd"
        by (auto simp: bind_eq_Some_conv)
      then obtain rc where rc: "request_context s (Some fd) = Some rc" using known Some by (auto simp: Serving)
      let ?st = "unwrap_or (swoole_status s fd) 200"
      obtain r t where stop: "finish_request_context (Some fd) ?st (take_status fd s) = (r, t)" by fastforce
      have t: "?t = t" using stop ob by (simp add: Serving request_shutdown_for_swoole_def)
      have owns: "owns (request_context s) a = [entry_span rc]" and serves: "serves a = [fd]"
        using rc Some by (simp_all add: Serving List.map_filter_def)
      have "spans_wf t \<and> loose_spans t = loose_spans s - {entry_span rc} \<and> originals t = originals s \<and>
          request_context t = map_remove (request_context s) (Some fd)"
        using accounting_finished [OF _ _ _ stop] wf rc own unfolding owns by (simp add: take_status_view)
      then show ?thesis unfolding t owns serves by simp
    qed
  qed
  then show "spans_wf ?t" "loose_spans ?t = loose_spans s - set (owns (request_context s) a)"
    "originals ?t = originals s"
    "request_context ?t rid = (if rid \<in> Some ` set (serves a) then None else request_context s rid)"
    by simp_all
qed

lemma accounted_span_view:
  assumes "accounted E s0 w" and view: "span_view t = span_view (proc w)"
  shows "accounted E s0 (w\<lparr>proc := t\<rparr>)"
proof -
  have "spans_wf t = spans_wf (proc w)" "loose_spans t = loose_spans (proc w)"
    "request_context t = request_context (proc w)"
    using view by (simp_all add: span_view_def ctl_view_def spans_wf_def loose_spans_def transfers_def fresh_ids_def)
  with assms(1) show ?thesis by (simp add: accounted_def)
qed

lemma destroyed_view: "span_view (free_object E ob (destroy_object E ob s)) = span_view s"
  by (simp add: free_object_def destroy_object_def split: option.split dtor_fn.split free_fn.split)

lemma turn_accounted:
  assumes "turn E w w'" and inv: "accounted E s0 w"
  shows "accounted E s0 w'"
  using assms(1)
proof cases
  case (call ed a ed1 s1 k)
  note inv' = inv [unfolded accounted_def]
  have wf: "spans_wf (proc w)" using inv' by blast
  note facts = enter_call_accounts(1,2,7,8) [OF wf call(2)]
    enter_call_accounts(4-6) [OF wf call(2), where R = "request_context (proc w)"]
  show ?thesis
    using inv' facts unfolding call(1) accounted_def
    by (simp del: owns.simps serves.simps) blast
next
  case (request req fd resp a req1 s1 k)
  note inv' = inv [unfolded accounted_def]
  from start_request_accounts [OF _ request(4,2,3,5)] inv' have
    "a = Plain \<and> s1 = proc w \<or>
      (\<exists>rc. a = Serving (ZObj resp) \<and> serves a = [fd] \<and> spans_wf s1 \<and>
       request_context s1 = (request_context (proc w))(Some fd \<mapsto> rc) \<and>
       loose_spans s1 = insert (entry_span rc) (loose_spans (proc w)) \<and> entry_span rc \<notin> loose_spans (proc w))"
    by blast
  then show ?thesis
  proof (elim disjE conjE exE)
    assume "a = Plain" "s1 = proc w"
    with inv' show ?thesis unfolding request(1) accounted_def by (simp add: came_from_def)
  next
    fix rc assume a: "a = Serving (ZObj resp)" "serves a = [fd]" and s1: "spans_wf s1"
       "request_context s1 = (request_context (proc w))(Some fd \<mapsto> rc)"
       "loose_spans s1 = insert (entry_span rc) (loose_spans (proc w))" "entry_span rc \<notin> loose_spans (proc w)"
    have new: "fd \<notin> set (served (pending w))" using inv' request(4) by blast
    have "owned (request_context s1) (pending w) = owned (request_context (proc w)) (pending w)"
      by (rule owned_cong) (use new s1(2) in auto)
    moreover have "owns (request_context s1) a = [entry_span rc]"
      using a s1(2) by (simp add: List.map_filter_def)
    moreover have "request_context s0 (Some fd) = None"
      using inv' new request(4) by (metis (no_types, lifting) image_iff option.inject)
    moreover have "came_from E a" by (simp add: a came_from_def)
    ultimately show ?thesis
      using inv' new s1 a(2) unfolding request(1) accounted_def
      by (simp del: owns.simps serves.simps)
  qed
next
  case (return xs k a ys ed rv)
  note inv' = inv [unfolded accounted_def return(2)]
  let ?R = "request_context (proc w)"
  let ?t = "leave E a ed rv (proc w)"
  have pre: "spans_wf (proc w)" "set (owns ?R a) \<subseteq> loose_spans (proc w)" "came_from E a"
    "\<forall>fd \<in> set (serves a). ?R (Some fd) \<noteq> None"
    using inv' by (auto simp del: owns.simps serves.simps)
  note facts = leave_accounts [OF pre, of ed rv]
  have apart: "set (serves a) \<inter> set (served (xs @ ys)) = {}" "distinct (served (xs @ ys))"
    "set (owns ?R a) \<inter> set (owned ?R (xs @ ys)) = {}" "distinct (owned ?R (xs @ ys))"
    using inv' by (auto simp del: owns.simps serves.simps)
  have "owned (request_context ?t) (xs @ ys) = owned ?R (xs @ ys)"
    by (rule owned_cong) (use apart(1) facts(4) in auto)
  moreover have "loose_spans ?t = loose_spans s0 \<union> set (owned ?R (xs @ ys))"
    using inv' apart(3) facts(2) by (auto simp del: owns.simps serves.simps)
  moreover have "\<forall>fd \<in> set (served (xs @ ys)). request_context ?t (Some fd) \<noteq> None \<and> request_context s0 (Some fd) = None"
    using inv' apart(1) facts(4) by (auto simp del: owns.simps serves.simps)
  moreover have "request_context ?t rid = request_context s0 rid" if "rid \<notin> Some ` set (served (xs @ ys))" for rid
    using inv' facts(4) [of rid] that by (auto simp del: owns.simps serves.simps)
  moreover have "set (owned ?R (xs @ ys)) \<inter> loose_spans s0 = {}" "\<forall>a \<in> snd ` set (xs @ ys). came_from E a"
    using inv' by (auto simp del: owns.simps serves.simps)
  ultimately show ?thesis using facts(1) apart(2,4) unfolding return(1) accounted_def
    by (simp del: owns.simps serves.simps owned_simps served_simps)
next
  case (destroy ob)
  from accounted_span_view [OF inv, of "free_object E ob (destroy_object E ob (proc w))"] show ?thesis
    unfolding destroy by (simp add: destroyed_view)
qed

lemma turns_accounted: "(turn E)\<^sup>*\<^sup>* w w' \<Longrightarrow> accounted E s0 w \<Longrightarrow> accounted E s0 w'"
  by (induction rule: rtranclp_induct) (auto intro: turn_accounted)

lemma quiescent_accounted: "spans_wf s0 \<Longrightarrow> accounted E s0 \<lparr>proc = s0, pending = []\<rparr>"
  by (simp add: accounted_def)

section \<open>Properties\<close>

text \<open>
  (C5) Coroutines do not mix up their spans.  However the calls and requests of any number of
  coroutines have been interleaved, and whichever hooks failed: every open activation owns its
  span alone; every other open span is one from before or belongs to a transfer of a multi
  handle, and to no activation; and the requests being served are exactly those of the open
  activations and those from before.
\<close>

theorem interleaved_calls_own_their_spans:
  assumes "(turn E)\<^sup>*\<^sup>* \<lparr>proc = s0, pending = []\<rparr> w" and "spans_wf s0"
  shows "spans_wf (proc w) \<and> distinct (owned (request_context (proc w)) (pending w)) \<and>
    set (owned (request_context (proc w)) (pending w)) \<inter> loose_spans s0 = {} \<and>
    loose_spans (proc w) = loose_spans s0 \<union> set (owned (request_context (proc w)) (pending w)) \<and>
    open_spans (proc w) =
      loose_spans s0 \<union> set (owned (request_context (proc w)) (pending w)) \<union> transfers (proc w) \<and>
    set (owned (request_context (proc w)) (pending w)) \<inter> transfers (proc w) = {} \<and>
    distinct (served (pending w)) \<and>
    (\<forall>rid. (request_context (proc w) rid \<noteq> None) =
       (request_context s0 rid \<noteq> None \<or> rid \<in> Some ` set (served (pending w))))"
proof -
  have inv: "accounted E s0 w"
    by (rule turns_accounted [OF assms(1) quiescent_accounted [OF assms(2)]])
  then have "(request_context (proc w) rid \<noteq> None) =
       (request_context s0 rid \<noteq> None \<or> rid \<in> Some ` set (served (pending w)))" for rid
    unfolding accounted_def by (cases "rid \<in> Some ` set (served (pending w))") auto
  moreover from inv have "spans_wf (proc w)" and own:
    "loose_spans (proc w) = loose_spans s0 \<union> set (owned (request_context (proc w)) (pending w))"
    by (simp_all add: accounted_def)
  then have "open_spans (proc w) = loose_spans (proc w) \<union> transfers (proc w)"
    "loose_spans (proc w) \<inter> transfers (proc w) = {}"
    by (auto simp: spans_wf_def loose_spans_def)
  then have "open_spans (proc w) =
      loose_spans s0 \<union> set (owned (request_context (proc w)) (pending w)) \<union> transfers (proc w)"
    "set (owned (request_context (proc w)) (pending w)) \<inter> transfers (proc w) = {}"
    unfolding own by auto
  ultimately show ?thesis using inv by (simp add: accounted_def)
qed

definition sample_redis_call :: exec_data where
  "sample_redis_call =
     sample_frame (Some ''Redis'') (Some ''connect'') (Some (Zobj 5 ''Redis'' [])) [ZStr ''cache'', ZLong 6379]"

lemma sample_enter:
  "\<exists>s1. enter_call sample_env sample_redis_call sample_agent =
     (Traced (HRedisConnect ''Redis'' ''connect'') None (DSpan 2), sample_redis_call, s1)"
proof -
  let ?s1 = "put_hook (Some ''Redis'') ''connect'' (Some (HRedisConnect ''Redis'' ''connect'')) sample_agent"
  have "fresh_hook sample_env [] (Some ''Redis'') ''connect'' = Ok (Some (HRedisConnect ''Redis'' ''connect''))"
    by code_simp
  then have pick: "pick_hook sample_env (Some ''Redis'') ''connect'' sample_agent =
      (Some (HRedisConnect ''Redis'' ''connect''), ?s1)"
    by (simp add: pick_hook_def select_plugin_hook_def)
  have names: "get_function_and_class_name sample_redis_call = Ok (Some ''connect'', Some ''Redis'')"
    by (simp add: get_function_and_class_name_def opt_utf8_def sample_redis_call_def)
  have rid: "infer_request_id sample_redis_call ?s1 = None"
    by (simp add: infer_request_id_def put_hook_def)
  have str: "z_val_to_string (ZStr ''cache'') = Some ''cache''" by code_simp
  obtain s1 where "redis_connect_before ''Redis'' ''connect'' None sample_redis_call ?s1 =
      (Ok (DSpan 2, sample_redis_call), s1)"
    using str by (auto simp: redis_connect_before_def sample_redis_call_def redis_port_def with_exit_span_eq put_hook_def Let_def)
  then show ?thesis
    by (simp add: enter_call_def names pick rid Let_def catch_unwind_result_def HACK_SWOOLE_ON_REQUEST_FUNCTION_NAME_def)
qed

lemma sample_turn:
  "\<exists>t. (turn sample_env)\<^sup>*\<^sup>* \<lparr>proc = sample_agent, pending = []\<rparr>
     \<lparr>proc = t, pending = [(7, Traced (HRedisConnect ''Redis'' ''connect'') None (DSpan 2))]\<rparr>"
proof -
  obtain s1 where "enter_call sample_env sample_redis_call (proc \<lparr>proc = sample_agent, pending = []\<rparr>) =
      (Traced (HRedisConnect ''Redis'' ''connect'') None (DSpan 2), sample_redis_call, s1)"
    using sample_enter by auto
  from turn.call [OF this, of 7] show ?thesis by auto
qed

theorem interleaved_calls_own_their_spans_witness:
  "\<exists>w. (turn sample_env)\<^sup>*\<^sup>* \<lparr>proc = sample_agent, pending = []\<rparr> w \<and> loose_spans (proc w) = {1, 2}"
proof -
  obtain t where t: "(turn sample_env)\<^sup>*\<^sup>* \<lparr>proc = sample_agent, pending = []\<rparr>
      \<lparr>proc = t, pending = [(7, Traced (HRedisConnect ''Redis'' ''connect'') None (DSpan 2))]\<rparr>"
    using sample_turn by blast
  have "loose_spans sample_agent = {1}"
    by (auto simp: loose_spans_def open_spans_def transfers_def multi_spans_def)
  with interleaved_calls_own_their_spans [OF t] have "loose_spans t = {1, 2}" by auto
  with t show ?thesis by (intro exI [of _ "process.make t _"]) (auto simp: process.defs)
qed

end
