(* ===== verification/Settings.thy ===== *)
theory Settings
  imports Log_Level
begin

text \<open>
  The settings of the extension: the keys and defaults that \<^verbatim>\<open>src/src/lib.rs\<close> registers, and the
  lazily read statics of \<^verbatim>\<open>src/src/module.rs\<close>, with \<^verbatim>\<open>IPS\<close> and \<^verbatim>\<open>get_str_ini_with_default\<close> of
  \<^verbatim>\<open>src/src/util.rs\<close>.

  The values PHP has for the keys are a record of three look-ups, one per type asked for; what
  the platform answers (the kind of server, the version, the network, the clock) is another.
\<close>

section \<open>Keys and defaults\<close>

definition SKYWALKING_AGENT_ENABLE :: bytes where
  "SKYWALKING_AGENT_ENABLE = ''skywalking_agent.enable''"

definition SKYWALKING_AGENT_SKYWALKING_VERSION :: bytes where
  "SKYWALKING_AGENT_SKYWALKING_VERSION = ''skywalking_agent.skywalking_version''"

definition SKYWALKING_AGENT_SERVER_ADDR :: bytes where
  "SKYWALKING_AGENT_SERVER_ADDR = ''skywalking_agent.server_addr''"

definition SKYWALKING_AGENT_INSTANCE_NAME :: bytes where
  "SKYWALKING_AGENT_INSTANCE_NAME = ''skywalking_agent.instance_name''"

definition SKYWALKING_AGENT_SERVICE_NAME :: bytes where
  "SKYWALKING_AGENT_SERVICE_NAME = ''skywalking_agent.service_name''"

definition SKYWALKING_AGENT_WORKER_THREADS :: bytes where
  "SKYWALKING_AGENT_WORKER_THREADS = ''skywalking_agent.worker_threads''"

definition SKYWALKING_AGENT_LOG_LEVEL :: bytes where
  "SKYWALKING_AGENT_LOG_LEVEL = ''skywalking_agent.log_level''"

definition SKYWALKING_AGENT_LOG_FILE :: bytes where
  "SKYWALKING_AGENT_LOG_FILE = ''skywalking_agent.log_file''"

definition SKYWALKING_AGENT_RUNTIME_DIR :: bytes where
  "SKYWALKING_AGENT_RUNTIME_DIR = ''skywalking_agent.runtime_dir''"

definition SKYWALKING_AGENT_AUTHENTICATION :: bytes where
  "SKYWALKING_AGENT_AUTHENTICATION = ''skywalking_agent.authentication''"

definition SKYWALKING_AGENT_ENABLE_TLS :: bytes where
  "SKYWALKING_AGENT_ENABLE_TLS = ''skywalking_agent.enable_tls''"

definition SKYWALKING_AGENT_SSL_TRUSTED_CA_PATH :: bytes where
  "SKYWALKING_AGENT_SSL_TRUSTED_CA_PATH = ''skywalking_agent.ssl_trusted_ca_path''"

definition SKYWALKING_AGENT_SSL_KEY_PATH :: bytes where
  "SKYWALKING_AGENT_SSL_KEY_PATH = ''skywalking_agent.ssl_key_path''"

definition SKYWALKING_AGENT_SSL_CERT_CHAIN_PATH :: bytes where
  "SKYWALKING_AGENT_SSL_CERT_CHAIN_PATH = ''skywalking_agent.ssl_cert_chain_path''"

definition SKYWALKING_AGENT_HEARTBEAT_PERIOD :: bytes where
  "SKYWALKING_AGENT_HEARTBEAT_PERIOD = ''skywalking_agent.heartbeat_period''"

definition SKYWALKING_AGENT_PROPERTIES_REPORT_PERIOD_FACTOR :: bytes where
  "SKYWALKING_AGENT_PROPERTIES_REPORT_PERIOD_FACTOR = ''skywalking_agent.properties_report_period_factor''"

definition SKYWALKING_AGENT_ENABLE_ZEND_OBSERVER :: bytes where
  "SKYWALKING_AGENT_ENABLE_ZEND_OBSERVER = ''skywalking_agent.enable_zend_observer''"

definition SKYWALKING_AGENT_REPORTER_TYPE :: bytes where
  "SKYWALKING_AGENT_REPORTER_TYPE = ''skywalking_agent.reporter_type''"

definition SKYWALKING_AGENT_KAFKA_BOOTSTRAP_SERVERS :: bytes where
  "SKYWALKING_AGENT_KAFKA_BOOTSTRAP_SERVERS = ''skywalking_agent.kafka_bootstrap_servers''"

definition SKYWALKING_AGENT_KAFKA_PRODUCER_CONFIG :: bytes where
  "SKYWALKING_AGENT_KAFKA_PRODUCER_CONFIG = ''skywalking_agent.kafka_producer_config''"

definition SKYWALKING_AGENT_INJECT_CONTEXT :: bytes where
  "SKYWALKING_AGENT_INJECT_CONTEXT = ''skywalking_agent.inject_context''"

definition SKYWALKING_AGENT_STANDALONE_SOCKET_PATH :: bytes where
  "SKYWALKING_AGENT_STANDALONE_SOCKET_PATH = ''skywalking_agent.standalone_socket_path''"

definition SKYWALKING_AGENT_PSR_LOGGING_LEVEL :: bytes where
  "SKYWALKING_AGENT_PSR_LOGGING_LEVEL = ''skywalking_agent.psr_logging_level''"

lemmas ini_keys =
  SKYWALKING_AGENT_ENABLE_def
  SKYWALKING_AGENT_SKYWALKING_VERSION_def
  SKYWALKING_AGENT_SERVER_ADDR_def
  SKYWALKING_AGENT_INSTANCE_NAME_def
  SKYWALKING_AGENT_SERVICE_NAME_def
  SKYWALKING_AGENT_WORKER_THREADS_def
  SKYWALKING_AGENT_LOG_LEVEL_def
  SKYWALKING_AGENT_LOG_FILE_def
  SKYWALKING_AGENT_RUNTIME_DIR_def
  SKYWALKING_AGENT_AUTHENTICATION_def
  SKYWALKING_AGENT_ENABLE_TLS_def
  SKYWALKING_AGENT_SSL_TRUSTED_CA_PATH_def
  SKYWALKING_AGENT_SSL_KEY_PATH_def
  SKYWALKING_AGENT_SSL_CERT_CHAIN_PATH_def
  SKYWALKING_AGENT_HEARTBEAT_PERIOD_def
  SKYWALKING_AGENT_PROPERTIES_REPORT_PERIOD_FACTOR_def
  SKYWALKING_AGENT_ENABLE_ZEND_OBSERVER_def
  SKYWALKING_AGENT_REPORTER_TYPE_def
  SKYWALKING_AGENT_KAFKA_BOOTSTRAP_SERVERS_def
  SKYWALKING_AGENT_KAFKA_PRODUCER_CONFIG_def
  SKYWALKING_AGENT_INJECT_CONTEXT_def
  SKYWALKING_AGENT_STANDALONE_SOCKET_PATH_def
  SKYWALKING_AGENT_PSR_LOGGING_LEVEL_def

datatype ini_value = IniBool bool | IniLong i64 | IniStr bytes

text \<open>The calls of \<^verbatim>\<open>add_ini\<close>, in their order.\<close>

definition registered_inis :: "(bytes \<times> ini_value) list" where
  "registered_inis =
     [(SKYWALKING_AGENT_ENABLE, IniBool False),
      (SKYWALKING_AGENT_SKYWALKING_VERSION, IniLong 8),
      (SKYWALKING_AGENT_SERVER_ADDR, IniStr ''127.0.0.1:11800''),
      (SKYWALKING_AGENT_INSTANCE_NAME, IniStr []),
      (SKYWALKING_AGENT_SERVICE_NAME, IniStr ''hello-skywalking''),
      (SKYWALKING_AGENT_WORKER_THREADS, IniLong 0),
      (SKYWALKING_AGENT_LOG_LEVEL, IniStr ''OFF''),
      (SKYWALKING_AGENT_LOG_FILE, IniStr ''/tmp/skywalking-agent.log''),
      (SKYWALKING_AGENT_RUNTIME_DIR, IniStr ''/tmp/skywalking-agent''),
      (SKYWALKING_AGENT_AUTHENTICATION, IniStr []),
      (SKYWALKING_AGENT_ENABLE_TLS, IniBool False),
      (SKYWALKING_AGENT_SSL_TRUSTED_CA_PATH, IniStr []),
      (SKYWALKING_AGENT_SSL_KEY_PATH, IniStr []),
      (SKYWALKING_AGENT_SSL_CERT_CHAIN_PATH, IniStr []),
      (SKYWALKING_AGENT_HEARTBEAT_PERIOD, IniLong 30),
      (SKYWALKING_AGENT_PROPERTIES_REPORT_PERIOD_FACTOR, IniLong 10),
      (SKYWALKING_AGENT_ENABLE_ZEND_OBSERVER, IniBool True),
      (SKYWALKING_AGENT_REPORTER_TYPE, IniStr ''grpc''),
      (SKYWALKING_AGENT_KAFKA_BOOTSTRAP_SERVERS, IniStr []),
      (SKYWALKING_AGENT_KAFKA_PRODUCER_CONFIG, IniStr ''{}''),
      (SKYWALKING_AGENT_INJECT_CONTEXT, IniBool False),
      (SKYWALKING_AGENT_STANDALONE_SOCKET_PATH, IniStr []),
      (SKYWALKING_AGENT_PSR_LOGGING_LEVEL, IniStr [])]"

section \<open>Reading\<close>

record ini =
  ini_bool :: "bytes \<Rightarrow> bool"
  ini_long :: "bytes \<Rightarrow> i64"
  ini_str :: "bytes \<Rightarrow> bytes option"

record platform =
  sapi :: bytes
  has_swoole :: bool
  php_major :: nat
  php_minor :: nat
  random_id :: bytes
  networks :: "(bytes \<times> bytes option list) list option"
  now_micros :: nat

definition get_str_ini_with_default :: "ini \<Rightarrow> bytes \<Rightarrow> bytes" where
  "get_str_ini_with_default I name =
     (case Option.bind (ini_str I name) to_str of Some s \<Rightarrow> s | None \<Rightarrow> [])"

text \<open>
  \<^verbatim>\<open>networks\<close> are the interfaces with their addresses, an IPv4 address as its text and any other
  as \<open>None\<close>.
\<close>

definition skipped_network :: "bytes \<Rightarrow> bool" where
  "skipped_network name \<longleftrightarrow> name = ''lo'' \<or> starts_with name ''docker'' \<or> starts_with name ''br-''"

definition IPS :: "platform \<Rightarrow> bytes list" where
  "IPS P =
     (case networks P of
        None \<Rightarrow> [''127.0.0.1'']
      | Some ns \<Rightarrow>
          (let addrs = concat (map (\<lambda>(name, as). if skipped_network name then [] else List.map_filter id as) ns)
           in if addrs = [] then [''127.0.0.1''] else addrs))"

subsection \<open>\<^verbatim>\<open>trim\<close>\<close>

text \<open>The characters of the property White\_Space, in UTF-8.\<close>

definition white_space :: "bytes list" where
  "white_space =
     [[CHR 0x09], [CHR 0x0A], [CHR 0x0B], [CHR 0x0C], [CHR 0x0D], '' ''] @
     map (map char_of) ([[0xC2, 0x85], [0xC2, 0xA0], [0xE1, 0x9A, 0x80]] @
       map (\<lambda>k. [0xE2, 0x80, k]) ([0x80, 0x81, 0x82, 0x83, 0x84, 0x85, 0x86, 0x87, 0x88, 0x89, 0x8A, 0xA8, 0xA9, 0xAF]) @
       [[0xE2, 0x81, 0x9F], [0xE3, 0x80, 0x80 :: nat]])"

fun first_prefix :: "bytes list \<Rightarrow> bytes \<Rightarrow> nat" where
  "first_prefix [] s = 0"
| "first_prefix (w # ws) s = (if w \<noteq> [] \<and> starts_with s w then length w else first_prefix ws s)"

function strip_front :: "bytes list \<Rightarrow> bytes \<Rightarrow> bytes" where
  "strip_front ws s = (if first_prefix ws s = 0 then s else strip_front ws (drop (first_prefix ws s) s))"
  by pat_completeness auto

lemma first_prefix_le: "first_prefix ws s \<le> length s"
  by (induction ws) (auto dest: starts_with_length)

termination strip_front
proof (relation "measure (\<lambda>(ws, s). length s)", simp)
  fix ws s assume "first_prefix ws s \<noteq> 0"
  then show "((ws, drop (first_prefix ws s) s), ws, s) \<in> measure (\<lambda>(ws, s). length s)"
    using first_prefix_le [of ws s] by (auto intro: diff_less)
qed

declare strip_front.simps [simp del]

definition trim :: "bytes \<Rightarrow> bytes" where
  "trim s = rev (strip_front (map rev white_space) (rev (strip_front white_space s)))"

lemma trim_Nil [simp]: "trim [] = []"
proof -
  have "first_prefix ws [] = 0" for ws by (induction ws) (auto simp: starts_with_def)
  then show ?thesis by (simp add: trim_def strip_front.simps)
qed

section \<open>The statics\<close>

text \<open>The statics that are one setting each.\<close>

definition SERVER_ADDR :: "ini \<Rightarrow> bytes" where [simp]:
  "SERVER_ADDR I = get_str_ini_with_default I SKYWALKING_AGENT_SERVER_ADDR"

definition SERVICE_NAME :: "ini \<Rightarrow> bytes" where [simp]:
  "SERVICE_NAME I = get_str_ini_with_default I SKYWALKING_AGENT_SERVICE_NAME"

definition SKYWALKING_VERSION :: "ini \<Rightarrow> i64" where [simp]:
  "SKYWALKING_VERSION I = ini_long I SKYWALKING_AGENT_SKYWALKING_VERSION"

definition AUTHENTICATION :: "ini \<Rightarrow> bytes" where [simp]:
  "AUTHENTICATION I = get_str_ini_with_default I SKYWALKING_AGENT_AUTHENTICATION"

definition ENABLE_TLS :: "ini \<Rightarrow> bool" where [simp]:
  "ENABLE_TLS I = ini_bool I SKYWALKING_AGENT_ENABLE_TLS"

definition SSL_TRUSTED_CA_PATH :: "ini \<Rightarrow> bytes" where [simp]:
  "SSL_TRUSTED_CA_PATH I = get_str_ini_with_default I SKYWALKING_AGENT_SSL_TRUSTED_CA_PATH"

definition SSL_KEY_PATH :: "ini \<Rightarrow> bytes" where [simp]:
  "SSL_KEY_PATH I = get_str_ini_with_default I SKYWALKING_AGENT_SSL_KEY_PATH"

definition SSL_CERT_CHAIN_PATH :: "ini \<Rightarrow> bytes" where [simp]:
  "SSL_CERT_CHAIN_PATH I = get_str_ini_with_default I SKYWALKING_AGENT_SSL_CERT_CHAIN_PATH"

definition HEARTBEAT_PERIOD :: "ini \<Rightarrow> i64" where [simp]:
  "HEARTBEAT_PERIOD I = ini_long I SKYWALKING_AGENT_HEARTBEAT_PERIOD"

definition PROPERTIES_REPORT_PERIOD_FACTOR :: "ini \<Rightarrow> i64" where [simp]:
  "PROPERTIES_REPORT_PERIOD_FACTOR I = ini_long I SKYWALKING_AGENT_PROPERTIES_REPORT_PERIOD_FACTOR"

definition WORKER_THREADS :: "ini \<Rightarrow> i64" where [simp]:
  "WORKER_THREADS I = ini_long I SKYWALKING_AGENT_WORKER_THREADS"

definition REPORTER_TYPE :: "ini \<Rightarrow> bytes" where [simp]:
  "REPORTER_TYPE I = get_str_ini_with_default I SKYWALKING_AGENT_REPORTER_TYPE"

definition KAFKA_BOOTSTRAP_SERVERS :: "ini \<Rightarrow> bytes" where [simp]:
  "KAFKA_BOOTSTRAP_SERVERS I = get_str_ini_with_default I SKYWALKING_AGENT_KAFKA_BOOTSTRAP_SERVERS"

definition KAFKA_PRODUCER_CONFIG :: "ini \<Rightarrow> bytes" where [simp]:
  "KAFKA_PRODUCER_CONFIG I = get_str_ini_with_default I SKYWALKING_AGENT_KAFKA_PRODUCER_CONFIG"

definition INJECT_CONTEXT :: "ini \<Rightarrow> bool" where [simp]:
  "INJECT_CONTEXT I = ini_bool I SKYWALKING_AGENT_INJECT_CONTEXT"

definition is_enable :: "ini \<Rightarrow> platform \<Rightarrow> bool" where
  "is_enable I P =
     (if \<not> ini_bool I SKYWALKING_AGENT_ENABLE then False
      else if sapi P = ''fpm-fcgi'' then True
      else if sapi P = ''cli'' \<and> has_swoole P then True
      else False)"

definition service_instance :: "ini \<Rightarrow> platform \<Rightarrow> bytes" where
  "service_instance I P =
     (let rnd_hostname = random_id P @ ''@'' @ hd (IPS P);
          defined_instance_name = trim (get_str_ini_with_default I SKYWALKING_AGENT_INSTANCE_NAME)
      in if defined_instance_name \<noteq> [] then defined_instance_name else rnd_hostname)"

definition RUNTIME_DIR :: "ini \<Rightarrow> bytes" where
  "RUNTIME_DIR I = (case ini_str I SKYWALKING_AGENT_RUNTIME_DIR of Some dir \<Rightarrow> dir | None \<Rightarrow> [])"

definition is_standalone_reporter_type :: "ini \<Rightarrow> bool" where
  "is_standalone_reporter_type I \<longleftrightarrow> REPORTER_TYPE I = ''standalone''"

text \<open>\<^verbatim>\<open>PathBuf::push\<close> of a relative component.\<close>

definition path_push :: "bytes \<Rightarrow> bytes \<Rightarrow> bytes" where
  "path_push dir name = (if dir = [] \<or> last dir = CHR ''/'' then dir @ name else dir @ ''/'' @ name)"

fun show_hex :: "nat \<Rightarrow> bytes" where
  "show_hex n =
     (let d = (\<lambda>k. if k < 10 then char_of (48 + k) else char_of (87 + k)) in
      if n < 16 then [d n] else show_hex (n div 16) @ [d (n mod 16)])"

declare show_hex.simps [simp del]

definition SOCKET_FILE_PATH :: "ini \<Rightarrow> platform \<Rightarrow> bytes" where
  "SOCKET_FILE_PATH I P =
     (if is_standalone_reporter_type I then get_str_ini_with_default I SKYWALKING_AGENT_STANDALONE_SOCKET_PATH
      else path_push (RUNTIME_DIR I) (show_hex (now_micros P) @ ''.sock''))"

definition ENABLE_ZEND_OBSERVER :: "ini \<Rightarrow> platform \<Rightarrow> bool" where
  "ENABLE_ZEND_OBSERVER I P \<longleftrightarrow> 8 \<le> php_major P \<and> ini_bool I SKYWALKING_AGENT_ENABLE_ZEND_OBSERVER"

definition IS_ZEND_OBSERVER_CALLED_FOR_INTERNAL :: "platform \<Rightarrow> bool" where
  "IS_ZEND_OBSERVER_CALLED_FOR_INTERNAL P \<longleftrightarrow> 8 < php_major P \<or> php_major P = 8 \<and> 2 \<le> php_minor P"

definition PSR_LOGGING_LEVEL :: "ini \<Rightarrow> psr_level" where
  "PSR_LOGGING_LEVEL I = level_of_str (get_str_ini_with_default I SKYWALKING_AGENT_PSR_LOGGING_LEVEL)"

end
