(* ===== verification/Channel.thy ===== *)
theory Channel
  imports Prelude
begin

text \<open>
  The socket between the extension and the worker: \<^verbatim>\<open>src/src/channel.rs\<close> (\<^verbatim>\<open>channel_send\<close>,
  \<^verbatim>\<open>Reporter\<close>) and \<^verbatim>\<open>src/worker/src/channel.rs\<close> (\<^verbatim>\<open>channel_receive\<close>).  An item travels as a frame:
  the length of its encoding in eight little-endian bytes, then the encoding.

  The encoding (\<^verbatim>\<open>bincode\<close>) is a pair of functions given as an argument.  A stream that is
  written accepts a number of bytes before it breaks; a stream that is read is the list of
  what the reader will meet, bytes and faults, and ends where the peer closed it.
\<close>

section \<open>The length field\<close>

definition to_le_bytes :: "64 word \<Rightarrow> byte list" where
  "to_le_bytes w = map (\<lambda>i. ucast (drop_bit (8 * i) w)) [0..<8]"

fun from_le_bytes :: "byte list \<Rightarrow> 64 word" where
  "from_le_bytes [] = 0"
| "from_le_bytes (b # bs) = ucast b + 256 * from_le_bytes bs"

lemma length_to_le_bytes [simp]: "length (to_le_bytes w) = 8"
  by (simp add: to_le_bytes_def)

lemma word_split_byte:
  fixes w :: "64 word"
  shows "ucast (ucast w :: byte) + 256 * drop_bit 8 w = w"
proof -
  have lt: "unat w < 2 ^ 64" using unsigned_less [of w] by simp
  then have "(unat w mod 256 + 256 * (unat w div 256)) mod 2 ^ 64 = unat w" by simp
  with lt show ?thesis
    by (simp add: word_unat_eq_iff unat_word_ariths unsigned_ucast_eq unat_drop_bit_eq drop_bit_eq_div take_bit_eq_mod)
qed

lemma from_to_le_bytes [simp]: "from_le_bytes (to_le_bytes w) = w"
proof -
  have step: "ucast (ucast (drop_bit n w) :: byte) + 256 * drop_bit (n + 8) w = drop_bit n w" for n
    using word_split_byte [of "drop_bit n w"] by (simp add: drop_bit_drop_bit add.commute)
  have "unat w < 2 ^ 64" using unsigned_less [of w] by simp
  then have "unat (drop_bit 64 w) = 0" by (subst unat_drop_bit_eq) (simp add: drop_bit_eq_div)
  then have last: "drop_bit 64 w = 0" by (simp only: unat_eq_zero)
  have upt: "[0..<8] = [0, 1, 2, 3, 4, 5, 6, 7 :: nat]" by (simp add: upt_rec)
  show ?thesis
    using step [of 56] step [of 48] step [of 40] step [of 32] step [of 24] step [of 16] step [of 8] step [of 0] last
    by (simp add: to_le_bytes_def upt)
qed

section \<open>Sending\<close>

text \<open>
  \<open>room\<close> is how many bytes the peer still takes before the connection breaks (\<open>None\<close> for a
  connection that never does); \<^verbatim>\<open>write_all\<close> has then written a part.  \<^verbatim>\<open>flush\<close> of a socket does
  nothing.
\<close>

record sink =
  wire :: "byte list"
  room :: "nat option"

definition write_all :: "byte list \<Rightarrow> (sink, unit) act" where
  "write_all bs s =
     (case room s of
        None \<Rightarrow> (Ok (), s\<lparr>wire := wire s @ bs\<rparr>)
      | Some n \<Rightarrow>
          if length bs \<le> n then (Ok (), s\<lparr>wire := wire s @ bs, room := Some (n - length bs)\<rparr>)
          else (Err (Anyhow ''Broken pipe''), s\<lparr>wire := wire s @ take n bs, room := Some 0\<rparr>))"

definition channel_send :: "('i \<Rightarrow> byte list outcome) \<Rightarrow> 'i \<Rightarrow> (sink, unit) act" where
  "channel_send encode data =
     andthen (lift (encode data)) (\<lambda>content.
     andthen (write_all (to_le_bytes (of_nat (length content)))) (\<lambda>_.
     write_all content))"

text \<open>
  The lazily opened connection of the extension.  \<open>connect\<close> is what the operating system
  answers to a connection attempt made now.  A panic inside \<^verbatim>\<open>channel_send\<close> poisons the mutex.
\<close>

record reporter =
  stream :: "sink option"
  poisoned :: bool

definition reporter_new :: reporter where
  "reporter_new = \<lparr>stream = None, poisoned = False\<rparr>"

definition get_or_try_init :: "error + sink \<Rightarrow> (reporter, sink) act" where
  "get_or_try_init connect r =
     (case stream r of
        Some s \<Rightarrow> (Ok s, r)
      | None \<Rightarrow> (case connect of Inl e \<Rightarrow> (Err e, r) | Inr s \<Rightarrow> (Ok s, r\<lparr>stream := Some s\<rparr>)))"

definition try_report :: "error + sink \<Rightarrow> ('i \<Rightarrow> byte list outcome) \<Rightarrow> 'i \<Rightarrow> (reporter, unit) act" where
  "try_report connect encode item =
     andthen (get_or_try_init connect) (\<lambda>s r.
     if poisoned r then (Err (Anyhow ''Get Lock failed''), r)
     else (case channel_send encode item s of
             (Panic p, s') \<Rightarrow> (Panic p, r\<lparr>stream := Some s', poisoned := True\<rparr>)
           | (res, s') \<Rightarrow> (res, r\<lparr>stream := Some s'\<rparr>)))"

text \<open>An error is logged and forgotten.\<close>

definition report :: "error + sink \<Rightarrow> ('i \<Rightarrow> byte list outcome) \<Rightarrow> 'i \<Rightarrow> (reporter, unit) act" where
  "report connect encode item r =
     (case try_report connect encode item r of
        (Err e, r') \<Rightarrow> (Ok (), r')
      | (res, r') \<Rightarrow> (res, r'))"

section \<open>Receiving\<close>

datatype input = Data byte | Fault string

datatype io_error = UnexpectedEof | IoError string

text \<open>\<^verbatim>\<open>read_exact\<close>: what was read before an error is lost.\<close>

fun read_exact :: "nat \<Rightarrow> input list \<Rightarrow> (io_error + byte list) \<times> input list" where
  "read_exact 0 ins = (Inr [], ins)"
| "read_exact (Suc n) [] = (Inl UnexpectedEof, [])"
| "read_exact (Suc n) (Fault k # ins) = (Inl (IoError k), ins)"
| "read_exact (Suc n) (Data b # ins) =
     (case read_exact n ins of (Inr bs, r) \<Rightarrow> (Inr (b # bs), r) | (Inl e, r) \<Rightarrow> (Inl e, r))"

datatype receive_error = Io io_error | Decode string

datatype 'i received = Item 'i | Failed receive_error | Died payload

text \<open>
  \<^verbatim>\<open>vec![0u8; size]\<close> panics beyond \<^verbatim>\<open>isize::MAX\<close> bytes (the target has 64 bits); an allocation
  below it is assumed to succeed.
\<close>

definition max_alloc :: nat where
  "max_alloc = 2 ^ 63 - 1"

definition channel_receive :: "(byte list \<Rightarrow> string + 'i) \<Rightarrow> input list \<Rightarrow> 'i received \<times> input list" where
  "channel_receive decode ins =
     (case read_exact 8 ins of
        (Inl e, r) \<Rightarrow> (Failed (Io e), r)
      | (Inr size_buf, r) \<Rightarrow>
          let size = unat (from_le_bytes size_buf) in
          if max_alloc < size then (Died (PanicStr ''capacity overflow''), r)
          else (case read_exact size r of
                  (Inl e, r2) \<Rightarrow> (Failed (Io e), r2)
                | (Inr content, r2) \<Rightarrow>
                    (case decode content of
                       Inl m \<Rightarrow> (Failed (Decode m), r2)
                     | Inr item \<Rightarrow> (Item item, r2))))"

lemma read_exact_data:
  "read_exact n (map Data bs @ ins) =
     (if n \<le> length bs then (Inr (take n bs), map Data (drop n bs) @ ins)
      else (case read_exact (n - length bs) ins of
              (Inr cs, r) \<Rightarrow> (Inr (bs @ cs), r) | (Inl e, r) \<Rightarrow> (Inl e, r)))"
proof (induction bs arbitrary: n)
  case Nil
  then show ?case by (auto split: prod.split sum.split)
next
  case (Cons b bs)
  show ?case by (cases n) (auto simp: Cons.IH split: prod.split sum.split)
qed

lemma read_exact_length:
  "read_exact n ins = (res, r) \<Longrightarrow>
   case res of Inr bs \<Rightarrow> length bs = n \<and> length r + n = length ins
   | Inl UnexpectedEof \<Rightarrow> r = [] \<and> length ins < n
   | Inl (IoError k) \<Rightarrow> length r < length ins"
  by (induction n ins arbitrary: res r rule: read_exact.induct)
    (fastforce split: prod.splits sum.splits io_error.splits)+

lemma channel_receive_shrinks:
  assumes "channel_receive decode ins = (res, r)" "\<And>x. res = Failed (Io x) \<Longrightarrow> x \<noteq> UnexpectedEof"
  shows "length r < length ins"
proof -
  obtain a r1 where h: "read_exact 8 ins = (a, r1)" by fastforce
  show ?thesis
  proof (cases a)
    case (Inl e)
    then show ?thesis
      using assms h read_exact_length [OF h] by (cases e) (auto simp: channel_receive_def)
  next
    case (Inr sz)
    have l1: "length r1 + 8 = length ins" using read_exact_length [OF h] Inr by simp
    obtain b r2 where c: "read_exact (unat (from_le_bytes sz)) r1 = (b, r2)" by fastforce
    have "length r2 \<le> length r1"
      using read_exact_length [OF c] by (cases b) (auto split: io_error.splits)
    then show ?thesis
      using assms h c Inr l1 by (auto simp: channel_receive_def Let_def split: if_splits sum.splits)
  qed
qed

text \<open>
  The loop of one connection, apart from the queue behind it: it leaves at the end of the
  stream, goes on after every other error, and dies with a panic.
\<close>

function receive_loop :: "(byte list \<Rightarrow> string + 'i) \<Rightarrow> input list \<Rightarrow> (receive_error + 'i) list" where
  "receive_loop decode ins =
     (case channel_receive decode ins of
        (Item i, r) \<Rightarrow> Inr i # receive_loop decode r
      | (Failed (Io UnexpectedEof), r) \<Rightarrow> []
      | (Failed (Io (IoError k)), r) \<Rightarrow> Inl (Io (IoError k)) # receive_loop decode r
      | (Failed (Decode m), r) \<Rightarrow> Inl (Decode m) # receive_loop decode r
      | (Died p, r) \<Rightarrow> [])"
  by pat_completeness auto
termination
  by (relation "measure (\<lambda>(d, ins). length ins)")
    (auto dest!: channel_receive_shrinks [OF sym])

declare receive_loop.simps [simp del]

section \<open>Framing\<close>

text \<open>
  The contract of a framing: a frame is read back whatever follows it, a proper part of a
  frame is no frame, and reading one consumes something.
\<close>

locale framing =
  fixes frame :: "'c \<Rightarrow> 'b list"
    and unframe :: "'b list \<Rightarrow> ('c \<times> 'b list) option"
    and fits :: "'c \<Rightarrow> bool"
  assumes unframe_frame: "fits c \<Longrightarrow> unframe (frame c @ rest) = Some (c, rest)"
    and unframe_cut: "fits c \<Longrightarrow> n < length (frame c) \<Longrightarrow> unframe (take n (frame c)) = None"
    and unframe_shrinks: "unframe bs = Some (c, rest) \<Longrightarrow> length rest < length bs"
begin

function unframes :: "'b list \<Rightarrow> 'c list" where
  "unframes bs = (case unframe bs of None \<Rightarrow> [] | Some (c, rest) \<Rightarrow> c # unframes rest)"
  by pat_completeness auto
termination
  by (relation "measure length") (auto dest: unframe_shrinks)

declare unframes.simps [simp del]

lemma unframe_Nil [simp]: "unframe [] = None"
  using unframe_shrinks [of "[]"] by (cases "unframe []") auto

lemma unframes_frames: "\<forall>c \<in> set cs. fits c \<Longrightarrow> unframes (concat (map frame cs)) = cs"
  by (induction cs) (auto simp: unframes.simps [of "_ @ _"] unframes.simps [of "[]"] unframe_frame)

text \<open>A stream that breaks off anywhere gives the contents of the frames before the break.\<close>

lemma unframes_cut:
  "\<forall>c \<in> set cs. fits c \<Longrightarrow>
   \<exists>k. unframes (take n (concat (map frame cs))) = take k cs \<and> (length (concat (map frame cs)) \<le> n \<longrightarrow> k = length cs)"
proof (induction cs arbitrary: n)
  case Nil
  then show ?case by (simp add: unframes.simps)
next
  case (Cons c cs)
  show ?case
  proof (cases "n < length (frame c)")
    case True
    then have "unframes (take n (concat (map frame (c # cs)))) = take 0 (c # cs)"
      using Cons.prems unframe_cut by (simp add: unframes.simps [of "take n _"])
    then show ?thesis using True by (intro exI [of _ 0]) simp
  next
    case False
    obtain k where k: "unframes (take (n - length (frame c)) (concat (map frame cs))) = take k cs"
      "length (concat (map frame cs)) \<le> n - length (frame c) \<longrightarrow> k = length cs"
      using Cons.IH Cons.prems by auto
    have "unframes (take n (concat (map frame (c # cs)))) = take (Suc k) (c # cs)"
      using False Cons.prems k(1) by (simp add: unframes.simps [of "frame c @ _"] unframe_frame)
    with k(2) False show ?thesis by (intro exI [of _ "Suc k"]) auto
  qed
qed

end

definition frame_of :: "byte list \<Rightarrow> byte list" where
  "frame_of content = to_le_bytes (of_nat (length content)) @ content"

definition read_frame :: "input list \<Rightarrow> (byte list \<times> input list) option" where
  "read_frame ins = (case channel_receive Inr ins of (Item c, r) \<Rightarrow> Some (c, r) | _ \<Rightarrow> None)"

definition content_fits :: "byte list \<Rightarrow> bool" where
  "content_fits c \<longleftrightarrow> length c \<le> max_alloc"

lemma content_length: "content_fits c \<Longrightarrow> unat (from_le_bytes (to_le_bytes (of_nat (length c)))) = length c"
  by (simp add: content_fits_def max_alloc_def unsigned_of_nat take_bit_eq_mod)

lemma channel_receive_frame:
  assumes "content_fits c"
  shows "channel_receive decode (map Data (frame_of c) @ rest) =
    (case decode c of Inl m \<Rightarrow> (Failed (Decode m), rest) | Inr i \<Rightarrow> (Item i, rest))"
  using assms content_length [OF assms]
  by (simp add: channel_receive_def frame_of_def read_exact_data Let_def content_fits_def)

lemma channel_receive_cut:
  assumes "content_fits c" "n < length (frame_of c)"
  shows "channel_receive decode (map Data (take n (frame_of c))) = (Failed (Io UnexpectedEof), [])"
proof -
  have eof: "0 < k \<Longrightarrow> read_exact k [] = (Inl UnexpectedEof, [])" for k by (cases k) simp_all
  show ?thesis
  proof (cases "n < 8")
    case True
    then show ?thesis
      using read_exact_data [of 8 "take n (frame_of c)" "[]"]
      by (simp add: channel_receive_def frame_of_def eof)
  next
    case False
    then have "take n (frame_of c) = to_le_bytes (of_nat (length c)) @ take (n - 8) c" "n - 8 < length c"
      using assms(2) by (simp_all add: frame_of_def)
    then show ?thesis
      using content_length [OF assms(1)] assms(1)
        read_exact_data [of "length c" "take (n - 8) c" "[]"]
      by (simp add: channel_receive_def read_exact_data Let_def content_fits_def eof)
  qed
qed

interpretation bytes_framing: framing "\<lambda>c. map Data (frame_of c)" read_frame content_fits
proof
  fix c rest
  show "content_fits c \<Longrightarrow> read_frame (map Data (frame_of c) @ rest) = Some (c, rest)"
    by (simp add: read_frame_def channel_receive_frame)
next
  fix c n
  show "content_fits c \<Longrightarrow> n < length (map Data (frame_of c)) \<Longrightarrow> read_frame (take n (map Data (frame_of c))) = None"
    by (simp add: read_frame_def take_map channel_receive_cut)
next
  fix bs c rest
  show "read_frame bs = Some (c, rest) \<Longrightarrow> length rest < length bs"
    using channel_receive_shrinks [of Inr bs] by (auto simp: read_frame_def split: received.splits prod.splits)
qed

text \<open>The loop on a stream of frames, possibly broken off, followed by nothing.\<close>

definition decoded :: "(byte list \<Rightarrow> string + 'i) \<Rightarrow> byte list \<Rightarrow> receive_error + 'i" where
  "decoded decode c = (case decode c of Inl m \<Rightarrow> Inl (Decode m) | Inr i \<Rightarrow> Inr i)"

lemma receive_loop_frame:
  "content_fits c \<Longrightarrow>
   receive_loop decode (map Data (frame_of c) @ rest) = decoded decode c # receive_loop decode rest"
  by (subst receive_loop.simps) (simp add: channel_receive_frame decoded_def split: sum.split)

lemma receive_loop_frames:
  "\<forall>c \<in> set cs. content_fits c \<Longrightarrow>
   receive_loop decode (map Data (concat (map frame_of cs)) @ rest) = map (decoded decode) cs @ receive_loop decode rest"
  by (induction cs) (simp_all add: receive_loop_frame)

lemma receive_loop_eof: "channel_receive decode ins = (Failed (Io UnexpectedEof), r) \<Longrightarrow> receive_loop decode ins = []"
  by (subst receive_loop.simps) simp

lemma receive_loop_Nil [simp]: "receive_loop decode [] = []"
  by (rule receive_loop_eof) (simp add: channel_receive_def numeral_eq_Suc)

text \<open>On bytes that are part of a stream of frames the loop is the framing's reader.\<close>

lemma receive_loop_unframes:
  "\<forall>c \<in> set cs. content_fits c \<Longrightarrow>
   receive_loop decode (map Data (take n (concat (map frame_of cs)))) =
   map (decoded decode) (bytes_framing.unframes (map Data (take n (concat (map frame_of cs)))))"
proof (induction cs arbitrary: n)
  case Nil
  then show ?case by (simp add: bytes_framing.unframes.simps)
next
  case (Cons c cs)
  show ?case
  proof (cases "n < length (frame_of c)")
    case True
    with Cons.prems have "read_frame (map Data (take n (frame_of c))) = None"
      "channel_receive decode (map Data (take n (frame_of c))) = (Failed (Io UnexpectedEof), [])"
      by (simp_all add: read_frame_def channel_receive_cut)
    with True show ?thesis
      by (simp add: receive_loop_eof bytes_framing.unframes.simps [of "map Data (take n (frame_of c))"])
  next
    case False
    with Cons.prems Cons.IH show ?thesis
      by (simp add: receive_loop_frame bytes_framing.unframes.simps [of "_ @ _"] bytes_framing.unframe_frame)
  qed
qed

section \<open>Properties\<close>

definition report_all :: "error + sink \<Rightarrow> ('i \<Rightarrow> byte list outcome) \<Rightarrow> 'i list \<Rightarrow> reporter \<Rightarrow> reporter" where
  "report_all connect encode items r = fold (\<lambda>i r. snd (report connect encode i r)) items r"

lemma channel_send_healthy:
  "encode i = Ok c \<Longrightarrow> room s = None \<Longrightarrow> channel_send encode i s = (Ok (), s\<lparr>wire := wire s @ frame_of c\<rparr>)"
  by (simp add: channel_send_def write_all_def frame_of_def andthen_def lift_def)

lemma report_healthy:
  "stream r = Some s \<Longrightarrow> \<not> poisoned r \<Longrightarrow> room s = None \<Longrightarrow> encode i = Ok c \<Longrightarrow>
   report connect encode i r = (Ok (), r\<lparr>stream := Some (s\<lparr>wire := wire s @ frame_of c\<rparr>)\<rparr>)"
  by (simp add: report_def try_report_def get_or_try_init_def andthen_def channel_send_healthy)

lemma report_all_healthy:
  assumes "stream r = Some s" "\<not> poisoned r" "room s = None" "\<forall>i \<in> set items. encode i = Ok (content i)"
  shows "stream (report_all connect encode items r) = Some (s\<lparr>wire := wire s @ concat (map (frame_of \<circ> content) items)\<rparr>)"
  using assms
proof (induction items arbitrary: r s)
  case (Cons i items)
  then show ?case by (simp add: report_all_def report_healthy)
qed (simp add: report_all_def)

lemma report_connects:
  assumes "connect = Inr s0" "room s0 = None" "encode i = Ok c"
  shows "report connect encode i reporter_new = report connect encode i (reporter_new\<lparr>stream := Some s0\<rparr>)"
  using assms by (simp add: report_def try_report_def get_or_try_init_def andthen_def reporter_new_def)

lemma reported_items_cross:
  assumes codec: "\<forall>i \<in> set items. \<exists>c. encode i = Ok c \<and> content_fits c \<and> decode c = Inr i"
    and "items \<noteq> []" and connect: "connect = Inr \<lparr>wire = [], room = None\<rparr>"
  shows "\<exists>s. stream (report_all connect encode items reporter_new) = Some s \<and>
    receive_loop decode (map Data (wire s)) = map Inr items \<and>
    (\<forall>n. \<exists>k. receive_loop decode (map Data (take n (wire s))) = map Inr (take k items))"
proof -
  obtain content where c: "\<forall>i \<in> set items. encode i = Ok (content i) \<and> content_fits (content i) \<and> decode (content i) = Inr i"
    using bchoice [OF codec] by blast
  define cs where "cs = map content items"
  have fits: "\<forall>x \<in> set cs. content_fits x" using c by (auto simp: cs_def)
  have dec: "map (decoded decode) cs = map Inr items" using c by (simp add: cs_def decoded_def)
  let ?s0 = "\<lparr>wire = [], room = None\<rparr>"
  obtain i more where items: "items = i # more" using \<open>items \<noteq> []\<close> by (cases items) auto
  have "report_all connect encode items reporter_new = report_all connect encode items (reporter_new\<lparr>stream := Some ?s0\<rparr>)"
    using c connect report_connects [of connect ?s0 encode i] by (simp add: items report_all_def)
  then have st: "stream (report_all connect encode items reporter_new) = Some (?s0\<lparr>wire := concat (map frame_of cs)\<rparr>)"
    using report_all_healthy [of "reporter_new\<lparr>stream := Some ?s0\<rparr>" ?s0 items encode content connect] c
    by (simp add: reporter_new_def cs_def)
  have all: "receive_loop decode (map Data (concat (map frame_of cs))) = map Inr items"
    using receive_loop_frames [OF fits, of decode "[]"] dec by simp
  have "\<exists>k. receive_loop decode (map Data (take n (concat (map frame_of cs)))) = map Inr (take k items)" for n
  proof -
    obtain k where "bytes_framing.unframes (take n (concat (map (\<lambda>c. map Data (frame_of c)) cs))) = take k cs"
      using bytes_framing.unframes_cut [OF fits] by blast
    moreover have "concat (map (\<lambda>c. map Data (frame_of c)) cs) = map Data (concat (map frame_of cs))"
      by (simp add: map_concat comp_def)
    ultimately have "bytes_framing.unframes (map Data (take n (concat (map frame_of cs)))) = take k cs"
      by (simp add: take_map)
    then show ?thesis using receive_loop_unframes [OF fits, of decode n] dec by (metis take_map)
  qed
  with st all show ?thesis by auto
qed

text \<open>
  (C17) What the extension reports is what the worker receives.  For any encoding that can be
  decoded again, the items reported one after the other over a connection opened by the first
  of them are received by the loop of the worker exactly and in order; and if the process
  dies after any number of bytes, the worker receives exactly a first part of them and leaves.
\<close>

theorem reported_items_arrive:
  assumes codec: "\<forall>i \<in> set items. \<exists>c. encode i = Ok c \<and> content_fits c \<and> decode c = Inr i"
    and "items \<noteq> []" and connect: "connect = Inr \<lparr>wire = [], room = None\<rparr>"
  shows "\<exists>s. stream (report_all connect encode items reporter_new) = Some s \<and>
    receive_loop decode (map Data (wire s)) = map Inr items \<and>
    (\<forall>n. \<exists>k. receive_loop decode (map Data (take n (wire s))) = map Inr (take k items))"
  by (rule reported_items_cross [OF assms])

definition sample_decode :: "byte list \<Rightarrow> string + byte" where
  "sample_decode c = (case c of [b] \<Rightarrow> Inr b | _ \<Rightarrow> Inl ''invalid'')"

theorem reported_items_arrive_witness:
  "\<exists>s. stream (report_all (Inr \<lparr>wire = [], room = None\<rparr>) (\<lambda>b. Ok [b]) [7, 9] reporter_new) = Some s \<and>
     receive_loop sample_decode (map Data (wire s)) = [Inr 7, Inr 9]"
proof -
  have codec: "\<forall>i \<in> set [7, 9]. \<exists>c. Ok [i] = Ok c \<and> content_fits c \<and> sample_decode c = Inr i"
    by (simp add: content_fits_def max_alloc_def sample_decode_def)
  show ?thesis
    using reported_items_arrive [where encode = "\<lambda>b. Ok [b]" and decode = sample_decode, OF codec _ refl] by auto
qed

text \<open>
  A frame whose content cannot be decoded costs only itself.  Whatever contents arrive in
  complete frames, the items received are those of the contents that can be decoded, all of
  them and in order, and the loop is then where the frames end.
\<close>

theorem undecodable_frames_are_skipped:
  assumes "\<forall>c \<in> set cs. content_fits c"
  shows "receive_loop decode (map Data (concat (map frame_of cs)) @ rest) =
      map (\<lambda>c. case decode c of Inl m \<Rightarrow> Inl (Decode m) | Inr i \<Rightarrow> Inr i) cs @ receive_loop decode rest"
  using receive_loop_frames [OF assms, of decode rest] by (simp add: decoded_def [abs_def])

theorem undecodable_frames_are_skipped_witness:
  "receive_loop sample_decode (map Data (concat (map frame_of [[1], [], [2]])) @ []) =
     [Inr 1, Inl (Decode ''invalid''), Inr 2]"
proof -
  have fits: "\<forall>c \<in> set [[1], [], [2]]. content_fits c" by (simp add: content_fits_def max_alloc_def)
  show ?thesis
    unfolding undecodable_frames_are_skipped [OF fits] by (simp add: sample_decode_def)
qed

lemma channel_send_limited:
  assumes "encode i = Ok c" "room s = Some n"
  shows "snd (channel_send encode i s) =
      s\<lparr>wire := wire s @ take n (frame_of c), room := Some (n - length (frame_of c))\<rparr>"
    "\<nexists>p. fst (channel_send encode i s) = Panic p"
  using assms by (auto simp: channel_send_def write_all_def frame_of_def andthen_def lift_def)

lemma report_limited:
  assumes "stream r = Some s" "\<not> poisoned r" "room s = Some n" "encode i = Ok c"
  shows "snd (report connect encode i r) =
    r\<lparr>stream := Some (s\<lparr>wire := wire s @ take n (frame_of c), room := Some (n - length (frame_of c))\<rparr>)\<rparr>"
proof -
  obtain res s' where run: "channel_send encode i s = (res, s')" by fastforce
  with channel_send_limited [where encode = encode and i = i and s = s, OF assms(4,3)] have
    "s' = s\<lparr>wire := wire s @ take n (frame_of c), room := Some (n - length (frame_of c))\<rparr>" "\<nexists>p. res = Panic p"
    by simp_all
  then show ?thesis using assms run
    by (cases res) (auto simp: report_def try_report_def get_or_try_init_def andthen_def)
qed

text \<open>
  (C23) A broken connection is kept.  When the peer takes only \<open>n\<close> more bytes, then of
  everything reported from then on, by however many reports and whatever a new connection
  attempt would answer, exactly the first \<open>n\<close> bytes of the frames reach the wire: the reporter
  never connects again, and what follows the break is lost.
\<close>

theorem broken_connection_is_kept:
  assumes "stream r = Some s" "\<not> poisoned r" "room s = Some n"
    and "\<forall>i \<in> set items. encode i = Ok (content i)"
  shows "\<exists>s'. stream (report_all connect encode items r) = Some s' \<and>
    wire s' = wire s @ take n (concat (map (frame_of \<circ> content) items))"
  using assms
proof (induction items arbitrary: r s n)
  case (Cons i items)
  let ?f = "frame_of (content i)"
  let ?s = "s\<lparr>wire := wire s @ take n ?f, room := Some (n - length ?f)\<rparr>"
  have step: "snd (report connect encode i r) = r\<lparr>stream := Some ?s\<rparr>"
    using Cons.prems by (intro report_limited) simp_all
  obtain s' where s': "stream (report_all connect encode items (r\<lparr>stream := Some ?s\<rparr>)) = Some s'"
      "wire s' = wire ?s @ take (n - length ?f) (concat (map (frame_of \<circ> content) items))"
    using Cons.IH [of "r\<lparr>stream := Some ?s\<rparr>" ?s "n - length ?f"] Cons.prems
    by (auto simp: comp_def)
  then show ?case by (intro exI [of _ s']) (simp add: report_all_def step comp_def)
qed (simp add: report_all_def)

theorem broken_connection_is_kept_witness:
  "\<exists>s'. stream (report_all (Inr \<lparr>wire = [], room = None\<rparr>) (\<lambda>b. Ok [b]) [7, 9]
      \<lparr>stream = Some \<lparr>wire = [1], room = Some 0\<rparr>, poisoned = False\<rparr>) = Some s' \<and> wire s' = [1]"
proof -
  have ok: "\<forall>i \<in> set [7, 9 :: byte]. Ok [i] = Ok ((\<lambda>b. [b]) i)" by simp
  show ?thesis
    using broken_connection_is_kept [where encode = "\<lambda>b. Ok [b]" and content = "\<lambda>b. [b]"
        and r = "\<lparr>stream = Some \<lparr>wire = [1], room = Some 0\<rparr>, poisoned = False\<rparr>"
        and s = "\<lparr>wire = [1], room = Some 0\<rparr>" and n = 0 and connect = "Inr \<lparr>wire = [], room = None\<rparr>", OF _ _ _ ok]
    by simp
qed

text \<open>Every round of the loop but the last consumes a part of the stream.\<close>

lemma receive_loop_bounded: "length (receive_loop decode ins) \<le> length ins"
proof (induction "length ins" arbitrary: ins rule: less_induct)
  case less
  obtain res r where run: "channel_receive decode ins = (res, r)" by fastforce
  have IH: "length r < length ins \<Longrightarrow> Suc (length (receive_loop decode r)) \<le> length ins"
    using less [of r] by simp
  show ?case
    using channel_receive_shrinks [OF run] IH
    by (subst receive_loop.simps) (auto simp: run split: received.split receive_error.split io_error.split)
qed

text \<open>A length that does not fit the address space ends the connection's task.\<close>

lemma hostile_length_ends_loop:
  assumes "length hd8 = 8" "max_alloc < unat (from_le_bytes hd8)"
  shows "receive_loop decode (map Data hd8 @ rest) = []"
  using assms by (subst receive_loop.simps) (simp add: channel_receive_def read_exact_data Let_def)

end
