(* ===== verification/Worker.thy ===== *)
theory Worker
  imports Channel
begin

text \<open>
  The worker process: \<^verbatim>\<open>src/worker/src/lib.rs\<close>, and \<^verbatim>\<open>TxReporter\<close> of
  \<^verbatim>\<open>src/worker/src/channel.rs\<close>.  One task per connection receives items and puts them into a
  bounded queue; the heart beat puts items into the same queue; the reporter takes them out.

  The queue is \<^verbatim>\<open>tokio::sync::mpsc\<close>, which is not part of the repository: its operations are an
  argument (\<open>mpsc\<close>), and what its documentation promises of them is the predicate
  \<open>bounded_fifo\<close>.  The state remembers, besides the queue and the connections, what was handed
  to the queue with the answer it gave, and what was taken out.
\<close>

section \<open>The queue\<close>

datatype send_result = Sent | Full | Closed

record ('i, 'q) mpsc =
  q_try_send :: "'i \<Rightarrow> 'q \<Rightarrow> send_result \<times> 'q"
  q_try_recv :: "'q \<Rightarrow> 'i option \<times> 'q"

text \<open>
  \<open>view\<close> is the content of a queue.  Sending to an open queue with room appends; a full queue
  refuses; receiving takes the oldest item.
\<close>

definition bounded_fifo :: "nat \<Rightarrow> ('i, 'q) mpsc \<Rightarrow> ('q \<Rightarrow> 'i list) \<Rightarrow> ('q \<Rightarrow> bool) \<Rightarrow> bool" where
  "bounded_fifo cap Q view is_closed \<longleftrightarrow>
     (\<forall>x q r q'. q_try_send Q x q = (r, q') \<longrightarrow>
        is_closed q' = is_closed q \<and>
        (if is_closed q then r = Closed \<and> view q' = view q
         else if length (view q) < cap then r = Sent \<and> view q' = view q @ [x]
         else r = Full \<and> view q' = view q)) \<and>
     (\<forall>q r q'. q_try_recv Q q = (r, q') \<longrightarrow>
        is_closed q' = is_closed q \<and>
        (case view q of [] \<Rightarrow> r = None \<and> view q' = [] | x # xs \<Rightarrow> r = Some x \<and> view q' = xs))"

definition QUEUE_CAPACITY :: nat where
  "QUEUE_CAPACITY = 255"

section \<open>State and steps\<close>

record ('i, 'q) worker =
  queue :: 'q
  conns :: "nat \<rightharpoonup> input list"
  submitted :: "('i \<times> send_result) list"
  consumed :: "'i list"

definition submit :: "('i, 'q) mpsc \<Rightarrow> 'i \<Rightarrow> ('i, 'q) worker \<Rightarrow> send_result \<times> ('i, 'q) worker" where
  "submit Q x w =
     (case q_try_send Q x (queue w) of (r, q) \<Rightarrow> (r, w\<lparr>queue := q, submitted := submitted w @ [(x, r)]\<rparr>))"

definition set_conn :: "nat \<Rightarrow> input list option \<Rightarrow> ('i, 'q) worker \<Rightarrow> ('i, 'q) worker" where
  "set_conn n c w = w\<lparr>conns := (conns w)(n := c)\<rparr>"

text \<open>\<^verbatim>\<open>listener.accept()\<close> spawns a task for the new connection.\<close>

definition accept :: "nat \<Rightarrow> input list \<Rightarrow> ('i, 'q) worker \<Rightarrow> ('i, 'q) worker" where
  "accept n ins w = set_conn n (Some ins) w"

text \<open>One round of the loop of a connection's task; \<open>None\<close> in \<open>conns\<close> is a task that has returned.\<close>

definition serve_connection ::
  "('i, 'q) mpsc \<Rightarrow> (byte list \<Rightarrow> string + 'i) \<Rightarrow> nat \<Rightarrow> ('i, 'q) worker \<Rightarrow> ('i, 'q) worker" where
  "serve_connection Q decode n w =
     (case conns w n of
        None \<Rightarrow> w
      | Some ins \<Rightarrow>
          (case channel_receive decode ins of
             (Failed e, rest) \<Rightarrow> if e = Io UnexpectedEof then set_conn n None w else set_conn n (Some rest) w
           | (Died p, rest) \<Rightarrow> set_conn n None w
           | (Item item, rest) \<Rightarrow>
               (case submit Q item w of
                  (Closed, w') \<Rightarrow> set_conn n None w'
                | (_, w') \<Rightarrow> set_conn n (Some rest) w')))"

text \<open>\<^verbatim>\<open>TxReporter::report\<close>: a refused item is logged and forgotten.\<close>

definition tx_report :: "('i, 'q) mpsc \<Rightarrow> 'i \<Rightarrow> ('i, 'q) worker \<Rightarrow> ('i, 'q) worker" where
  "tx_report Q item w = snd (submit Q item w)"

text \<open>
  The consumer the reporter draws from.  \<^verbatim>\<open>consume\<close> waits until there is an item; the step
  \<open>consume\<close> below is the moment it gets one.
\<close>

definition try_consume :: "('i, 'q) mpsc \<Rightarrow> ('i, 'q) worker \<Rightarrow> 'i option \<times> ('i, 'q) worker" where
  "try_consume Q w =
     (case q_try_recv Q (queue w) of
        (r, q) \<Rightarrow> (r, w\<lparr>queue := q, consumed := consumed w @ (case r of None \<Rightarrow> [] | Some x \<Rightarrow> [x])\<rparr>))"

definition worker_start :: "'q \<Rightarrow> ('i, 'q) worker" where
  "worker_start q = \<lparr>queue = q, conns = Map.empty, submitted = [], consumed = []\<rparr>"

text \<open>
  What has happened since the start, in any order: connections are accepted, their tasks take
  turns, the heart beat reports, the reporter consumes.  \<open>streams\<close> are the streams of the
  connections so far, each with a number of its own; \<open>offered\<close> are the items that the turns of a
  connection's task have added to \<open>submitted\<close>.
\<close>

inductive worker_run ::
  "('i, 'q) mpsc \<Rightarrow> (byte list \<Rightarrow> string + 'i) \<Rightarrow> 'q \<Rightarrow>
   ('i, 'q) worker \<Rightarrow> (nat \<rightharpoonup> input list) \<Rightarrow> (nat \<Rightarrow> 'i list) \<Rightarrow> bool"
  for Q decode q where
  start: "worker_run Q decode q (worker_start q) Map.empty (\<lambda>n. [])"
| accept: "worker_run Q decode q w streams offered \<Longrightarrow> streams n = None \<Longrightarrow>
    worker_run Q decode q (accept n ins w) (streams(n \<mapsto> ins)) offered"
| serve: "worker_run Q decode q w streams offered \<Longrightarrow> w' = serve_connection Q decode n w \<Longrightarrow>
    worker_run Q decode q w' streams
      (offered(n := offered n @ drop (length (submitted w)) (map fst (submitted w'))))"
| heart_beat: "worker_run Q decode q w streams offered \<Longrightarrow> worker_run Q decode q (tx_report Q item w) streams offered"
| consume: "worker_run Q decode q w streams offered \<Longrightarrow> try_consume Q w = (r, w') \<Longrightarrow>
    worker_run Q decode q w' streams offered"

section \<open>Lemmas\<close>

lemma set_conn_sel [simp]:
  "queue (set_conn n c w) = queue w" "submitted (set_conn n c w) = submitted w"
  "consumed (set_conn n c w) = consumed w" "conns (set_conn n c w) = (conns w)(n := c)"
  by (simp_all add: set_conn_def)

lemma submit_sel [simp]:
  "conns (snd (submit Q x w)) = conns w" "consumed (snd (submit Q x w)) = consumed w"
  by (simp_all add: submit_def split: prod.split)

definition sent :: "('i \<times> send_result) list \<Rightarrow> 'i list" where
  "sent xs = map fst (filter (\<lambda>(x, r). r = Sent) xs)"

lemma sent_simps [simp]:
  "sent [] = []" "sent (xs @ [(x, r)]) = sent xs @ (if r = Sent then [x] else [])"
  by (simp_all add: sent_def)

lemma bounded_fifo_sendD:
  "bounded_fifo cap Q view is_closed \<Longrightarrow> q_try_send Q x q = (r, q') \<Longrightarrow>
   is_closed q' = is_closed q \<and>
   (if is_closed q then r = Closed \<and> view q' = view q
    else if length (view q) < cap then r = Sent \<and> view q' = view q @ [x]
    else r = Full \<and> view q' = view q)"
  unfolding bounded_fifo_def by blast

lemma bounded_fifo_recvD:
  "bounded_fifo cap Q view is_closed \<Longrightarrow> q_try_recv Q q = (r, q') \<Longrightarrow>
   is_closed q' = is_closed q \<and>
   (case view q of [] \<Rightarrow> r = None \<and> view q' = [] | x # xs \<Rightarrow> r = Some x \<and> view q' = xs)"
  unfolding bounded_fifo_def by blast

text \<open>Accounting: what the queue took is what was taken out, followed by what it holds.\<close>

definition accounted :: "nat \<Rightarrow> ('q \<Rightarrow> 'i list) \<Rightarrow> ('i, 'q) worker \<Rightarrow> bool" where
  "accounted cap view w \<longleftrightarrow>
     sent (submitted w) = consumed w @ view (queue w) \<and> length (view (queue w)) \<le> cap"

lemma accounted_submit:
  assumes "bounded_fifo cap Q view is_closed" "accounted cap view w"
  shows "accounted cap view (snd (submit Q x w))"
proof -
  obtain r q where "q_try_send Q x (queue w) = (r, q)" by fastforce
  with bounded_fifo_sendD [OF assms(1) this] assms(2) show ?thesis
    by (auto simp: accounted_def submit_def split: if_splits)
qed

lemma accounted_set_conn [simp]: "accounted cap view (set_conn n c w) = accounted cap view w"
  by (simp add: accounted_def)

lemma accounted_try_consume:
  assumes "bounded_fifo cap Q view is_closed" "accounted cap view w" "try_consume Q w = (r, w')"
  shows "accounted cap view w'"
proof -
  obtain r' q where "q_try_recv Q (queue w) = (r', q)" by fastforce
  with bounded_fifo_recvD [OF assms(1) this] assms(2,3) show ?thesis
    by (cases "view (queue w)") (auto simp: accounted_def try_consume_def)
qed

lemma accounted_serve:
  assumes "bounded_fifo cap Q view is_closed" "accounted cap view w"
  shows "accounted cap view (serve_connection Q decode n w)"
proof -
  have "accounted cap view w'" if "submit Q x w = (r, w')" for x r w'
    using accounted_submit [OF assms, of x] that by simp
  then show ?thesis using assms(2)
    by (auto simp: serve_connection_def split: option.split prod.split received.split send_result.split)
qed

lemma accounted_run:
  assumes Q: "bounded_fifo cap Q view is_closed" and "view q = []"
  shows "worker_run Q decode q w streams offered \<Longrightarrow> accounted cap view w"
proof (induction rule: worker_run.induct)
  case start
  then show ?case using assms(2) by (simp add: accounted_def worker_start_def)
qed (auto simp: accept_def tx_report_def accounted_submit [OF Q] accounted_serve [OF Q] dest: accounted_try_consume [OF Q])

lemma serve_other [simp]: "m \<noteq> n \<Longrightarrow> conns (serve_connection Q decode n w) m = conns w m"
  by (auto simp: serve_connection_def submit_def split: option.split prod.split received.split send_result.split)

definition items_of :: "(receive_error + 'i) list \<Rightarrow> 'i list" where
  "items_of rs = List.map_filter (\<lambda>r. case r of Inr x \<Rightarrow> Some x | Inl _ \<Rightarrow> None) rs"

lemma items_of_simps [simp]: "items_of [] = []" "items_of (Inr x # rs) = x # items_of rs" "items_of (Inl e # rs) = items_of rs"
  by (simp_all add: items_of_def List.map_filter_simps)

lemma submit_open:
  assumes "bounded_fifo cap Q view is_closed" "\<not> is_closed (queue w)"
  obtains r q where "submit Q x w = (r, w\<lparr>queue := q, submitted := submitted w @ [(x, r)]\<rparr>)" "r \<noteq> Closed"
    "\<not> is_closed q"
proof -
  obtain r q where run: "q_try_send Q x (queue w) = (r, q)" by fastforce
  show ?thesis
    by (rule that [of r q]) (use bounded_fifo_sendD [OF assms(1) run] assms(2) run in \<open>auto simp: submit_def split: if_splits\<close>)
qed

text \<open>
  One turn of a connection's task: what it submits, with the items still ahead of it, are the
  items that were ahead of it before.
\<close>

definition ahead :: "(byte list \<Rightarrow> string + 'i) \<Rightarrow> input list option \<Rightarrow> 'i list" where
  "ahead decode c = (case c of None \<Rightarrow> [] | Some ins \<Rightarrow> items_of (receive_loop decode ins))"

lemma serve_turn:
  assumes Q: "bounded_fifo cap Q view is_closed" and "\<not> is_closed (queue w)"
  obtains xs where "map fst (submitted (serve_connection Q decode n w)) = map fst (submitted w) @ xs"
    "xs @ ahead decode (conns (serve_connection Q decode n w) n) = ahead decode (conns w n)"
    "\<not> is_closed (queue (serve_connection Q decode n w))"
proof (cases "conns w n")
  case None
  then show ?thesis using assms(2) by (intro that [of "[]"]) (simp_all add: serve_connection_def)
next
  case (Some ins)
  obtain res rest where run: "channel_receive decode ins = (res, rest)" by fastforce
  note loop = receive_loop.simps [of decode ins]
  show ?thesis
  proof (cases res)
    case (Item x)
    obtain r q where sub: "submit Q x w = (r, w\<lparr>queue := q, submitted := submitted w @ [(x, r)]\<rparr>)" "r \<noteq> Closed" "\<not> is_closed q"
      using submit_open [OF Q assms(2)] by metis
    then have "serve_connection Q decode n w =
        set_conn n (Some rest) (w\<lparr>queue := q, submitted := submitted w @ [(x, r)]\<rparr>)"
      using Some run Item by (cases r) (simp_all add: serve_connection_def)
    then show ?thesis using loop run Item sub(3) Some by (intro that [of "[x]"]) (simp_all add: ahead_def)
  next
    case (Failed e)
    then show ?thesis using loop run Some assms(2)
      by (intro that [of "[]"])
        (auto simp: serve_connection_def ahead_def split: receive_error.splits io_error.splits)
  next
    case (Died p)
    then show ?thesis using loop run Some assms(2)
      by (intro that [of "[]"]) (simp_all add: serve_connection_def ahead_def)
  qed
qed

lemma run_offers:
  assumes Q: "bounded_fifo cap Q view is_closed" and "\<not> is_closed q"
  shows "worker_run Q decode q w streams offered \<Longrightarrow>
    \<not> is_closed (queue w) \<and> (\<forall>n. streams n = None \<longrightarrow> conns w n = None \<and> offered n = []) \<and>
    (\<forall>n. offered n @ ahead decode (conns w n) = ahead decode (streams n))"
proof (induction rule: worker_run.induct)
  case start
  then show ?case using assms(2) by (simp add: worker_start_def ahead_def)
next
  case (accept w streams offered n ins)
  then show ?case by (auto simp: accept_def ahead_def)
next
  case (serve w streams offered w' n)
  obtain xs where "map fst (submitted w') = map fst (submitted w) @ xs"
    "xs @ ahead decode (conns w' n) = ahead decode (conns w n)" "\<not> is_closed (queue w')"
    using serve_turn [OF Q, of w decode n] serve by metis
  then have turn: "drop (length (submitted w)) (map fst (submitted w')) @ ahead decode (conns w' n) = ahead decode (conns w n)"
    by (simp add: drop_map [symmetric])
  have same: "conns w' m = conns w m" if "m \<noteq> n" for m using serve.hyps(2) that by simp
  have idle: "w' = w" if "conns w n = None" using serve.hyps(2) that by (simp add: serve_connection_def)
  show ?case
  proof (intro conjI allI impI)
    fix m
    show "(offered(n := offered n @ drop (length (submitted w)) (map fst (submitted w')))) m @ ahead decode (conns w' m) =
        ahead decode (streams m)"
      using serve.IH turn same [of m] by (cases "m = n") simp_all
    assume "streams m = None"
    then show "conns w' m = None" "(offered(n := offered n @ drop (length (submitted w)) (map fst (submitted w')))) m = []"
      using serve.IH same [of m] idle by (cases "m = n"; simp)+
  qed (rule \<open>\<not> is_closed (queue w')\<close>)
next
  case (heart_beat w streams offered item)
  obtain r q' where "submit Q item w = (r, w\<lparr>queue := q', submitted := submitted w @ [(item, r)]\<rparr>)" "\<not> is_closed q'"
    using submit_open [OF Q] heart_beat.IH by metis
  then show ?case using heart_beat.IH by (simp add: tx_report_def)
next
  case (consume w streams offered r w')
  obtain r' q' where run: "q_try_recv Q (queue w) = (r', q')" by fastforce
  with bounded_fifo_recvD [OF Q run] consume show ?case by (auto simp: try_consume_def)
qed

text \<open>What one connection submits when it is served to its end, whatever the queue answers.\<close>

lemma serve_to_end:
  assumes Q: "bounded_fifo cap Q view is_closed"
  shows "\<not> is_closed (queue w) \<Longrightarrow> conns w n = Some ins \<Longrightarrow> length ins < k \<Longrightarrow>
    conns ((serve_connection Q decode n ^^ k) w) n = None \<and>
    map fst (submitted ((serve_connection Q decode n ^^ k) w)) = map fst (submitted w) @ items_of (receive_loop decode ins) \<and>
    (\<forall>m. m \<noteq> n \<longrightarrow> conns ((serve_connection Q decode n ^^ k) w) m = conns w m)"
proof (induction k arbitrary: w ins)
  case (Suc k)
  let ?go = "serve_connection Q decode n"
  have ended: "(?go ^^ j) v = v" if "conns v n = None" for j v
    using that by (induction j) (simp_all add: serve_connection_def funpow_swap1)
  have swap: "(?go ^^ Suc k) w = (?go ^^ k) (?go w)" by (simp add: funpow_swap1)
  obtain res rest where run: "channel_receive decode ins = (res, rest)" by fastforce
  note loop = receive_loop.simps [of decode ins]
  show ?case
  proof (cases res)
    case (Item x)
    obtain r q where sub: "submit Q x w = (r, w\<lparr>queue := q, submitted := submitted w @ [(x, r)]\<rparr>)" "r \<noteq> Closed" "\<not> is_closed q"
      using submit_open [OF Q Suc.prems(1)] by metis
    let ?w = "set_conn n (Some rest) (w\<lparr>queue := q, submitted := submitted w @ [(x, r)]\<rparr>)"
    have step: "?go w = ?w"
      using Suc.prems run Item sub by (cases r) (simp_all add: serve_connection_def)
    have "length rest < k" using channel_receive_shrinks [OF run] Item Suc.prems by simp
    with Suc.IH [of ?w rest] sub show ?thesis
      unfolding swap step using loop run Item by simp
  next
    case (Failed e)
    show ?thesis
    proof (cases "e = Io UnexpectedEof")
      case True
      have step: "?go w = set_conn n None w" using Suc.prems run Failed True by (simp add: serve_connection_def)
      show ?thesis unfolding swap step using loop run Failed True by (simp add: ended)
    next
      case False
      have step: "?go w = set_conn n (Some rest) w" using Suc.prems run Failed False by (simp add: serve_connection_def)
      have "length rest < length ins" by (rule channel_receive_shrinks [OF run]) (use Failed False in simp)
      then have "length rest < k" using Suc.prems by simp
      with Suc.IH [of "set_conn n (Some rest) w" rest] Suc.prems show ?thesis
        unfolding swap step using loop run Failed False by (auto split: receive_error.splits io_error.splits)
    qed
  next
    case (Died p)
    have step: "?go w = set_conn n None w" using Suc.prems run Died by (simp add: serve_connection_def)
    show ?thesis unfolding swap step using loop run Died by (simp add: ended)
  qed
qed simp

text \<open>While nothing is consumed, the queue holds the first items offered to it.\<close>

definition undrained :: "nat \<Rightarrow> ('q \<Rightarrow> 'i list) \<Rightarrow> ('q \<Rightarrow> bool) \<Rightarrow> ('i, 'q) worker \<Rightarrow> bool" where
  "undrained cap view is_closed w \<longleftrightarrow>
     view (queue w) = take cap (map fst (submitted w)) \<and> \<not> is_closed (queue w)"

lemma undrained_submit:
  assumes "bounded_fifo cap Q view is_closed" "undrained cap view is_closed w"
  shows "undrained cap view is_closed (snd (submit Q x w))"
proof -
  obtain r q where "q_try_send Q x (queue w) = (r, q)" by fastforce
  with bounded_fifo_sendD [OF assms(1) this] assms(2) show ?thesis
    by (auto simp: undrained_def submit_def split: if_splits)
qed

lemma undrained_set_conn [simp]: "undrained cap view is_closed (set_conn n c w) = undrained cap view is_closed w"
  by (simp add: undrained_def)

lemma undrained_serve:
  assumes "bounded_fifo cap Q view is_closed" "undrained cap view is_closed w"
  shows "undrained cap view is_closed (serve_connection Q decode n w)"
proof -
  have "undrained cap view is_closed w'" if "submit Q x w = (r, w')" for x r w'
    using undrained_submit [OF assms, of x] that by simp
  then show ?thesis using assms(2)
    by (auto simp: serve_connection_def split: option.split prod.split received.split send_result.split)
qed

lemma undrained_serves:
  "bounded_fifo cap Q view is_closed \<Longrightarrow> undrained cap view is_closed w \<Longrightarrow>
   undrained cap view is_closed ((serve_connection Q decode n ^^ k) w)"
  by (induction k) (auto intro: undrained_serve)

lemma serve_consumed: "consumed ((serve_connection Q decode n ^^ k) w) = consumed w"
proof (induction k)
  case (Suc k)
  have "consumed w' = consumed v" if "submit Q x v = (r, w')" for x r w' and v :: "('a, 'b) worker"
    using submit_sel(2) [of Q x v] that by simp
  then show ?case using Suc
    by (auto simp: serve_connection_def split: option.split prod.split received.split send_result.split)
qed simp

text \<open>The reporter asks for an item a number of times.\<close>

fun draw :: "('i, 'q) mpsc \<Rightarrow> nat \<Rightarrow> ('i, 'q) worker \<Rightarrow> ('i, 'q) worker" where
  "draw Q 0 w = w"
| "draw Q (Suc k) w = draw Q k (snd (try_consume Q w))"

lemma draw_consumes:
  "bounded_fifo cap Q view is_closed \<Longrightarrow>
   consumed (draw Q k w) = consumed w @ take k (view (queue w)) \<and> view (queue (draw Q k w)) = drop k (view (queue w))"
proof (induction k arbitrary: w)
  case (Suc k)
  obtain r q where run: "q_try_recv Q (queue w) = (r, q)" by fastforce
  have "view (queue (snd (try_consume Q w))) = drop 1 (view (queue w))"
    "consumed (snd (try_consume Q w)) = consumed w @ take 1 (view (queue w))"
    using bounded_fifo_recvD [OF Suc.prems run] run
    by (auto simp: try_consume_def split: list.splits)
  with Suc.IH [OF Suc.prems, of "snd (try_consume Q w)"] show ?case
    by (cases "view (queue w)") simp_all
qed simp

section \<open>Properties\<close>

text \<open>
  (C18) The worker accounts for everything it receives.  However connections, the heart beat
  and the reporter interleave, as long as the receiver of the queue lives: the items that the task
  of a connection has offered to the queue, with those still ahead in its stream, are exactly
  the items of its whole stream, in order and none twice, and if the task has returned it has
  offered them all; the items the queue took are, in their order, those the reporter has consumed
  followed by those still waiting, and never more than 255 are waiting.
\<close>

theorem worker_queue_accounting:
  assumes Q: "bounded_fifo QUEUE_CAPACITY Q view is_closed" and "view q = []" and "\<not> is_closed q"
    and run: "worker_run Q decode q w streams offered"
  shows "(\<forall>n ins. streams n = Some ins \<longrightarrow>
      offered n @ (case conns w n of Some rest \<Rightarrow> items_of (receive_loop decode rest) | None \<Rightarrow> []) =
      items_of (receive_loop decode ins)) \<and>
    sent (submitted w) = consumed w @ view (queue w) \<and> length (view (queue w)) \<le> 255"
  using run_offers [OF Q assms(3) run] accounted_run [OF Q assms(2) run]
  by (simp add: accounted_def QUEUE_CAPACITY_def ahead_def [symmetric]) (simp add: ahead_def)

text \<open>A queue as a list, of which the documentation's promises are true.\<close>

definition list_queue :: "nat \<Rightarrow> ('i, 'i list) mpsc" where
  "list_queue cap =
     \<lparr>q_try_send = (\<lambda>x q. if length q < cap then (Sent, q @ [x]) else (Full, q)),
      q_try_recv = (\<lambda>q. case q of [] \<Rightarrow> (None, []) | x # xs \<Rightarrow> (Some x, xs))\<rparr>"

lemma list_queue_fifo: "bounded_fifo cap (list_queue cap) (\<lambda>q. q) (\<lambda>q. False)"
  by (auto simp: bounded_fifo_def list_queue_def split: list.splits if_splits)

lemma sample_stream: "receive_loop sample_decode (map Data (frame_of [7])) = [Inr 7]"
proof -
  have "receive_loop sample_decode (map Data (frame_of [7]) @ []) = [Inr 7]"
    by (subst receive_loop_frame) (simp_all add: content_fits_def max_alloc_def decoded_def sample_decode_def)
  then show ?thesis by simp
qed

theorem worker_queue_accounting_witness:
  "\<exists>w offered. worker_run (list_queue 255) sample_decode [] w [3 \<mapsto> map Data (frame_of [7])] offered \<and>
     offered 3 @ ahead sample_decode (conns w 3) = [7]"
proof -
  let ?w = "accept 3 (map Data (frame_of [7])) (worker_start [])"
  have "worker_run (list_queue 255) sample_decode [] ?w [3 \<mapsto> map Data (frame_of [7])] (\<lambda>n. [])"
    by (intro worker_run.accept worker_run.start) simp
  then obtain w offered where run: "worker_run (list_queue 255) sample_decode [] w [3 \<mapsto> map Data (frame_of [7])] offered"
    using worker_run.serve by blast
  from worker_queue_accounting [OF list_queue_fifo [of 255, folded QUEUE_CAPACITY_def] refl _ run [folded QUEUE_CAPACITY_def]]
  have "offered 3 @ ahead sample_decode (conns w 3) = [7]" by (simp add: sample_stream ahead_def)
  with run show ?thesis by blast
qed

text \<open>
  (C19) A connection is never held up by the reporter.  While the receiver of the queue is
  alive, the task of a connection returns after at most one round more than its stream has
  elements, and by then it has offered to the queue every item that the stream contains, in
  order, whether the queue had room or not; the other connections are as they were.
\<close>

theorem connection_is_served_to_its_end:
  assumes Q: "bounded_fifo QUEUE_CAPACITY Q view is_closed" and "\<not> is_closed (queue w)"
    and "conns w n = Some ins"
  shows "\<exists>k \<le> Suc (length ins). \<exists>w'. w' = (serve_connection Q decode n ^^ k) w \<and> conns w' n = None \<and>
    map fst (submitted w') = map fst (submitted w) @ items_of (receive_loop decode ins) \<and>
    (\<forall>m. m \<noteq> n \<longrightarrow> conns w' m = conns w m)"
  using serve_to_end [OF Q assms(2,3), of "Suc (length ins)" decode] by auto

theorem connection_is_served_to_its_end_witness:
  "\<exists>k w'. w' = (serve_connection (list_queue 255) sample_decode 3 ^^ k)
      (accept 3 (map Data (frame_of [7])) (worker_start [])) \<and> conns w' 3 = None \<and> map fst (submitted w') = [7]"
proof -
  let ?w = "accept 3 (map Data (frame_of [7])) (worker_start [])"
  have c: "conns ?w 3 = Some (map Data (frame_of [7]))" and "map fst (submitted ?w) = []"
    by (simp_all add: accept_def worker_start_def)
  then show ?thesis
    using connection_is_served_to_its_end [OF list_queue_fifo [of 255, folded QUEUE_CAPACITY_def] _ c, of sample_decode]
    by (auto simp: QUEUE_CAPACITY_def sample_stream)
qed

end
