(* ===== verification/Reporters.thy ===== *)
theory Reporters
  imports Text
begin

text \<open>
  The reporters of the worker: \<^verbatim>\<open>src/worker/src/reporter/mod.rs\<close>, \<^verbatim>\<open>reporter_grpc.rs\<close> and
  \<^verbatim>\<open>reporter_kafka.rs\<close>.

  What the network, the files and the client libraries answer is a record; the calls that are
  made are a list of actions, in their order.  A reporter that goes on reporting, or goes on
  trying to connect, has not ended: its result is \<open>None\<close>.
\<close>

section \<open>Configuration\<close>

record grpc_config =
  server_addr :: bytes
  authentication :: bytes
  enable_tls :: bool
  ssl_cert_chain_path :: bytes
  ssl_key_path :: bytes
  ssl_trusted_ca_path :: bytes

record kafka_config =
  kafka_bootstrap_servers :: bytes
  kafka_producer_config :: bytes

datatype reporter_config = Grpc grpc_config | Kafka kafka_config

section \<open>The gRPC endpoint\<close>

record tls_config =
  tls_domain :: bytes
  tls_ca :: "bytes option"
  tls_identity :: "(bytes \<times> bytes) option"

record endpoint =
  ep_url :: bytes
  ep_tls :: "tls_config option"

text \<open>
  \<open>valid_url\<close>: \<^verbatim>\<open>Endpoint::from_shared\<close>; \<open>read_file\<close>: \<^verbatim>\<open>tokio::fs::read\<close>; \<open>tls_check\<close>: \<^verbatim>\<open>tls_config\<close>
  of the endpoint; \<open>connect_answer ep n\<close>: the answer to the \<open>n\<close>-th attempt to connect; \<open>parse_json\<close>:
  \<^verbatim>\<open>serde_json::from_str\<close> at the type of a map of strings, the entries in the order in which the map
  is iterated; \<open>kafka_build\<close>: building the client; \<open>reporting_end\<close>: how the spawned reporting task
  ends, \<open>None\<close> as long as it runs and \<open>Some (Some e)\<close> if it could not be joined.
\<close>

record net =
  valid_url :: "bytes \<Rightarrow> error option"
  read_file :: "bytes \<Rightarrow> error + bytes"
  tls_check :: "tls_config \<Rightarrow> error option"
  connect_answer :: "endpoint \<Rightarrow> nat \<Rightarrow> error + unit"
  parse_json :: "bytes \<Rightarrow> (bytes \<times> bytes) list option"
  kafka_build :: "(bytes \<rightharpoonup> bytes) \<Rightarrow> error option"
  reporting_end :: "bytes option option"

datatype reporter_action =
    ReadFile bytes | Connected endpoint nat | WithAuthentication bytes | BuildKafka "bytes \<rightharpoonup> bytes" | SpawnReporting

definition fs_read :: "net \<Rightarrow> bytes \<Rightarrow> (reporter_action list, bytes) act" where
  "fs_read N path = (\<lambda>as. (case read_file N path of Inl e \<Rightarrow> Err e | Inr c \<Rightarrow> Ok c, as @ [ReadFile path]))"

definition checked :: "error option \<Rightarrow> 'a \<Rightarrow> ('s, 'a) act" where
  "checked e x = (case e of None \<Rightarrow> ret x | Some e \<Rightarrow> fail e)"

definition endpoint_url :: "grpc_config \<Rightarrow> bytes" where
  "endpoint_url c = (if enable_tls c then ''https'' else ''http'') @ ''://'' @ server_addr c"

definition domain_name :: "bytes \<Rightarrow> bytes" where
  "domain_name addr = (case split (CHR '':'') addr of [] \<Rightarrow> [] | d # _ \<Rightarrow> d)"

definition create_endpoint :: "net \<Rightarrow> grpc_config \<Rightarrow> (reporter_action list, endpoint) act" where
  "create_endpoint N c =
     andthen (checked (valid_url N (endpoint_url c)) \<lparr>ep_url = endpoint_url c, ep_tls = None\<rparr>) (\<lambda>ep.
     if enable_tls c then
       andthen (if ssl_trusted_ca_path c \<noteq> [] then andthen (fs_read N (ssl_trusted_ca_path c)) (\<lambda>ca. ret (Some ca))
                else ret None) (\<lambda>ca.
       andthen (if ssl_key_path c \<noteq> [] \<and> ssl_cert_chain_path c \<noteq> [] then
                  andthen (fs_read N (ssl_cert_chain_path c)) (\<lambda>cert.
                  andthen (fs_read N (ssl_key_path c)) (\<lambda>key. ret (Some (cert, key))))
                else ret None) (\<lambda>identity.
       let tls = \<lparr>tls_domain = domain_name (server_addr c), tls_ca = ca, tls_identity = identity\<rparr> in
       checked (tls_check N tls) (ep\<lparr>ep_tls := Some tls\<rparr>)))
     else ret ep)"

text \<open>\<^verbatim>\<open>connect\<close>: try again, after a pause, until the server is there; \<open>answers n\<close> is the \<open>n\<close>-th answer.\<close>

partial_function (option) connect_from :: "(nat \<Rightarrow> error + 'c) \<Rightarrow> nat \<Rightarrow> ('c \<times> nat) option" where
  "connect_from answers n =
     (case answers n of Inr c \<Rightarrow> Some (c, n) | Inl e \<Rightarrow> connect_from answers (Suc n))"

definition connect :: "(nat \<Rightarrow> error + 'c) \<Rightarrow> ('c \<times> nat) option" where
  "connect answers = connect_from answers 0"

section \<open>The Kafka client\<close>

text \<open>A later entry overwrites an earlier one of its key.\<close>

definition kafka_client_config :: "(bytes \<Rightarrow> (bytes \<times> bytes) list option) \<Rightarrow> kafka_config \<Rightarrow> (bytes \<rightharpoonup> bytes) outcome" where
  "kafka_client_config parse c =
     (let base = [''bootstrap.servers'' \<mapsto> kafka_bootstrap_servers c] in
      case parse (kafka_producer_config c) of
        None \<Rightarrow> Err (Anyhow ''parse kafka producer config failed'')
      | Some kvs \<Rightarrow> Ok (fold (\<lambda>(k, v) m. m(k \<mapsto> v)) kvs base))"

section \<open>Running a reporter\<close>

definition grpc_run_reporter :: "net \<Rightarrow> grpc_config \<Rightarrow> unit outcome option \<times> reporter_action list" where
  "grpc_run_reporter N c =
     (case create_endpoint N c [] of
        (Err e, as) \<Rightarrow> (Some (Err e), as)
      | (Panic p, as) \<Rightarrow> (Some (Panic p), as)
      | (Ok ep, as) \<Rightarrow>
          (case connect (connect_answer N ep) of
             None \<Rightarrow> (None, as)
           | Some (channel, n) \<Rightarrow>
               (case reporting_end N of
                  None \<Rightarrow> None
                | Some None \<Rightarrow> Some (Ok ())
                | Some (Some err) \<Rightarrow> Some (Err (Anyhow (''Tracer reporting failed: '' @ err))),
                as @ [Connected ep n] @
                (if authentication c \<noteq> [] then [WithAuthentication (authentication c)] else []) @ [SpawnReporting])))"

definition kafka_run_reporter :: "net \<Rightarrow> kafka_config \<Rightarrow> unit outcome option \<times> reporter_action list" where
  "kafka_run_reporter N c =
     (case kafka_client_config (parse_json N) c of
        Err e \<Rightarrow> (Some (Err e), [])
      | Panic p \<Rightarrow> (Some (Panic p), [])
      | Ok conf \<Rightarrow>
          (case kafka_build N conf of
             Some e \<Rightarrow> (Some (Err e), [BuildKafka conf])
           | None \<Rightarrow>
               (case reporting_end N of
                  None \<Rightarrow> None
                | Some None \<Rightarrow> Some (Ok ())
                | Some (Some err) \<Rightarrow> Some (Err (Anyhow (''wait handle failed: '' @ err))),
                [BuildKafka conf, SpawnReporting])))"

fun run_reporter :: "net \<Rightarrow> reporter_config \<Rightarrow> unit outcome option \<times> reporter_action list" where
  "run_reporter N (Grpc c) = grpc_run_reporter N c"
| "run_reporter N (Kafka c) = kafka_run_reporter N c"

section \<open>Properties\<close>

lemma checked_Ok [simp]: "checked e x s = (Ok y, s') \<longleftrightarrow> e = None \<and> y = x \<and> s' = s"
  by (auto simp: checked_def split: option.split)

lemma fs_read_Ok [simp]: "fs_read N p s = (Ok c, s') \<longleftrightarrow> read_file N p = Inr c \<and> s' = s @ [ReadFile p]"
  by (auto simp: fs_read_def split: sum.split)

text \<open>The files the TLS settings ask for, in the order in which they are read.\<close>

definition tls_files :: "grpc_config \<Rightarrow> bytes list" where
  "tls_files c =
     (if \<not> enable_tls c then []
      else (if ssl_trusted_ca_path c = [] then [] else [ssl_trusted_ca_path c]) @
        (if ssl_key_path c = [] \<or> ssl_cert_chain_path c = [] then [] else [ssl_cert_chain_path c, ssl_key_path c]))"

text \<open>
  Without \<^verbatim>\<open>enable_tls\<close> the endpoint is \<^verbatim>\<open>http\<close> and has no TLS.  With it the endpoint is \<^verbatim>\<open>https\<close> for
  the host part of the address; the trusted CA is used exactly if its path is set, and the client
  identity exactly if both the key and the certificate chain are set.
\<close>

definition endpoint_suits :: "net \<Rightarrow> grpc_config \<Rightarrow> endpoint \<Rightarrow> bool" where
  "endpoint_suits N c ep \<longleftrightarrow>
     ep_url ep = (if enable_tls c then ''https://'' else ''http://'') @ server_addr c \<and>
     ep_tls ep =
       (if enable_tls c then
          Some \<lparr>tls_domain = domain_name (server_addr c),
            tls_ca = (if ssl_trusted_ca_path c = [] then None else Some (projr (read_file N (ssl_trusted_ca_path c)))),
            tls_identity =
              (if ssl_key_path c = [] \<or> ssl_cert_chain_path c = [] then None
               else Some (projr (read_file N (ssl_cert_chain_path c)), projr (read_file N (ssl_key_path c))))\<rparr>
        else None)"

lemma create_endpoint_Ok:
  "create_endpoint N c as = (Ok ep, as') \<Longrightarrow> endpoint_suits N c ep \<and> as' = as @ map ReadFile (tls_files c)"
  by (cases "enable_tls c"; cases "ssl_trusted_ca_path c = []"; cases "ssl_key_path c = [] \<or> ssl_cert_chain_path c = []")
    (auto simp: create_endpoint_def endpoint_suits_def endpoint_url_def tls_files_def Let_def elim!: andthen_OkE)

lemma create_endpoint_succeeds:
  assumes "valid_url N (endpoint_url c) = None" "\<forall>p \<in> set (tls_files c). \<exists>x. read_file N p = Inr x"
    and "\<forall>t. tls_check N t = None"
  shows "\<exists>ep as'. create_endpoint N c as = (Ok ep, as')"
proof -
  obtain content where "p \<in> set (tls_files c) \<Longrightarrow> read_file N p = Inr (content p)" for p
    using bchoice [OF assms(2)] by blast
  then show ?thesis
    using assms(1,3)
    by (cases "enable_tls c"; cases "ssl_trusted_ca_path c = []"; cases "ssl_key_path c = [] \<or> ssl_cert_chain_path c = []")
      (auto simp: create_endpoint_def checked_def tls_files_def fs_read_def andthen_def ret_def Let_def)
qed

lemma connect_reaches_server:
  assumes "answers n = Inr c" and "\<forall>m < n. \<exists>e. answers m = Inl e"
  shows "connect answers = Some (c, n)"
proof -
  have "j \<le> n \<Longrightarrow> connect_from answers (n - j) = Some (c, n)" for j
  proof (induction j)
    case 0
    then show ?case using assms(1) by (simp add: connect_from.simps)
  next
    case (Suc j)
    then obtain e where "answers (n - Suc j) = Inl e" using assms(2) by fastforce
    then show ?case using Suc by (subst connect_from.simps) (simp add: Suc_diff_Suc)
  qed
  from this [of n] show ?thesis by (simp add: connect_def)
qed

text \<open>
  (C35) The gRPC reporter gets to work.  If the address makes a valid URL, the TLS files can be
  read and used, and the server answers an attempt to connect after any number of failed ones,
  then the reporter has read exactly the files its settings ask for, is connected to the endpoint
  that suits its settings by the first attempt that is answered, uses the authentication exactly
  if it is set, and is reporting; it ends with an error exactly if the reporting task does.
\<close>

theorem grpc_reporter_works:
  assumes "valid_url N (endpoint_url c) = None" "\<forall>p \<in> set (tls_files c). \<exists>x. read_file N p = Inr x"
    and "\<forall>t. tls_check N t = None"
    and reach: "\<forall>ep. connect_answer N ep n = Inr ()" and fails: "\<forall>ep. \<forall>m < n. \<exists>e. connect_answer N ep m = Inl e"
  shows "\<exists>ep. endpoint_suits N c ep \<and>
    snd (run_reporter N (Grpc c)) = map ReadFile (tls_files c) @ Connected ep n #
      (if authentication c = [] then [] else [WithAuthentication (authentication c)]) @ [SpawnReporting] \<and>
    (fst (run_reporter N (Grpc c)) = None \<longleftrightarrow> reporting_end N = None) \<and>
    (fst (run_reporter N (Grpc c)) = Some (Ok ()) \<longleftrightarrow> reporting_end N = Some None)"
proof -
  obtain ep as where ok: "create_endpoint N c [] = (Ok ep, as)"
    using create_endpoint_succeeds [OF assms(1-3)] by blast
  have "connect (connect_answer N ep) = Some ((), n)"
    by (rule connect_reaches_server) (use reach fails in auto)
  with ok create_endpoint_Ok [OF ok] show ?thesis
    by (intro exI [of _ ep]) (auto simp: grpc_run_reporter_def split: option.split)
qed

definition sample_net :: net where
  "sample_net = \<lparr>valid_url = (\<lambda>u. None), read_file = (\<lambda>p. Inr ''PEM''), tls_check = (\<lambda>t. None),
     connect_answer = (\<lambda>ep n. if n < 3 then Inl (Anyhow ''refused'') else Inr ()),
     parse_json = (\<lambda>s. if s = ''{}'' then Some [] else None), kafka_build = (\<lambda>c. None), reporting_end = None\<rparr>"

definition sample_grpc :: grpc_config where
  "sample_grpc = \<lparr>server_addr = ''oap:11800'', authentication = ''token'', enable_tls = True,
     ssl_cert_chain_path = ''c'', ssl_key_path = [], ssl_trusted_ca_path = ''ca''\<rparr>"

theorem grpc_reporter_works_witness:
  "\<exists>ep. ep_url ep = ''https://oap:11800'' \<and>
     snd (run_reporter sample_net (Grpc sample_grpc)) =
       [ReadFile ''ca'', Connected ep 3, WithAuthentication ''token'', SpawnReporting]"
proof -
  have "\<exists>ep. endpoint_suits sample_net sample_grpc ep \<and>
    snd (run_reporter sample_net (Grpc sample_grpc)) = map ReadFile (tls_files sample_grpc) @ Connected ep 3 #
      (if authentication sample_grpc = [] then [] else [WithAuthentication (authentication sample_grpc)]) @ [SpawnReporting]"
    using grpc_reporter_works [of sample_net sample_grpc 3] by (auto simp: sample_net_def)
  then show ?thesis by (auto simp: endpoint_suits_def sample_grpc_def tls_files_def)
qed

text \<open>The settings of the Kafka producer may replace the servers themselves.\<close>

lemma kafka_config_lookup:
  assumes "parse (kafka_producer_config c) = Some kvs" "distinct (map fst kvs)"
  shows "\<exists>conf. kafka_client_config parse c = Ok conf \<and>
    conf k = (case map_of kvs k of Some v \<Rightarrow> Some v
              | None \<Rightarrow> if k = ''bootstrap.servers'' then Some (kafka_bootstrap_servers c) else None)"
proof -
  have "fold (\<lambda>(k, v) m. m(k \<mapsto> v)) kvs m k = (case map_of kvs k of Some v \<Rightarrow> Some v | None \<Rightarrow> m k)" for m
    using assms(2)
  proof (induction kvs arbitrary: m)
    case (Cons kv kvs)
    obtain j v where kv: "kv = (j, v)" by fastforce
    have "map_of kvs j = None" using Cons.prems kv by (auto simp: map_of_eq_None_iff)
    then show ?case using Cons.IH [of "m(j \<mapsto> v)"] Cons.prems kv by (auto split: option.split)
  qed simp
  then show ?thesis using assms(1) by (auto simp: kafka_client_config_def split: option.split)
qed

end
