(* ===== verification/Worker_Start.thy ===== *)
theory Worker_Start
  imports Worker Reporters
begin

text \<open>
  Start and end of the worker: \<^verbatim>\<open>start_worker\<close> of \<^verbatim>\<open>src/worker/src/lib.rs\<close> with the heart beat, and
  the standalone worker (\<^verbatim>\<open>src/worker/src/main.rs\<close>).

  What the operating system answers is an argument; the calls that are made are the result, in
  their order.
\<close>

section \<open>Configuration\<close>

record heart_beat_config =
  hb_service_instance :: bytes
  hb_service_name :: bytes
  heartbeat_period :: i64
  properties_report_period_factor :: i64

record worker_config =
  socket_file_path :: bytes
  heart_beat :: "heart_beat_config option"
  reporter_config :: reporter_config

section \<open>The heart beat\<close>

text \<open>
  What \<^verbatim>\<open>report_properties_and_keep_alive\<close> hands to the manager of the library: service and
  instance, how the properties are made whenever they are reported (from the parent's process
  number at that moment), the period in seconds and the factor.  \<^verbatim>\<open>as u64\<close> and \<^verbatim>\<open>as usize\<close> keep the
  64 bits of the settings.
\<close>

datatype instance_property = OsInfo | Language bytes | ProcessNo bytes

record heart_beat_plan =
  plan_service :: bytes
  plan_instance :: bytes
  plan_properties :: "bytes \<Rightarrow> instance_property list"
  plan_period :: nat
  plan_factor :: nat

definition report_properties_and_keep_alive :: "heart_beat_config \<Rightarrow> heart_beat_plan" where
  "report_properties_and_keep_alive c =
     \<lparr>plan_service = hb_service_name c, plan_instance = hb_service_instance c,
      plan_properties = (\<lambda>ppid. [OsInfo, Language ''php'', ProcessNo ppid]),
      plan_period = unat (heartbeat_period c), plan_factor = unat (properties_report_period_factor c)\<rparr>"

section \<open>Start and end\<close>

datatype worker_action =
    BindSocket bytes | ChmodSocket bytes nat | SpawnAcceptLoop nat | SpawnHeartBeat heart_beat_plan
  | Reporter reporter_action | RemoveSocket bytes

datatype exit_cause = SigTerm | SigInt | FutureReady

text \<open>
  \<open>cause\<close> is the branch of \<^verbatim>\<open>select!\<close> that is ready first; after a signal the future has got as far
  as its first \<open>progress\<close> actions.  \<open>build_error\<close> is how the error of building the runtime prints, if
  the system does not let it be built.
\<close>

record worker_os =
  build_error :: "bytes option"
  install_term :: "error option"
  install_int :: "error option"
  bind_error :: "error option"
  network :: net
  cause :: exit_cause
  progress :: nat

definition change_permission :: "bytes \<Rightarrow> nat \<Rightarrow> worker_action" where [simp]:
  "change_permission f mode = ChmodSocket f mode"

text \<open>The drop of \<^verbatim>\<open>WorkerExitGuard\<close>; that the file cannot be removed is only logged.\<close>

definition drop_exit_guard :: "bytes \<Rightarrow> worker_action" where [simp]:
  "drop_exit_guard socket_file = RemoveSocket socket_file"

text \<open>\<^verbatim>\<open>chmod\<close> cannot fail the start; \<open>None\<close> is a future that is never ready.\<close>

definition worker_future :: "worker_os \<Rightarrow> worker_config \<Rightarrow> unit outcome option \<times> worker_action list" where
  "worker_future os c =
     (let path = socket_file_path c in
      case bind_error os of
        Some e \<Rightarrow> (Some (Err e), [BindSocket path])
      | None \<Rightarrow>
          (case run_reporter (network os) (reporter_config c) of
             (r, as) \<Rightarrow>
               (r, [BindSocket path, change_permission path 511, SpawnAcceptLoop QUEUE_CAPACITY] @
                 (case heart_beat c of Some hb \<Rightarrow> [SpawnHeartBeat (report_properties_and_keep_alive hb)] | None \<Rightarrow> []) @
                 map Reporter as)))"

text \<open>
  The guard that removes the socket file lives from the first line to every end of the function;
  a worker that waits for a signal has not ended.
\<close>

definition start_worker :: "worker_os \<Rightarrow> worker_config \<Rightarrow> unit outcome option \<times> worker_action list" where
  "start_worker os c =
     (let guard = [drop_exit_guard (socket_file_path c)] in
      case install_term os of
        Some e \<Rightarrow> (Some (Err e), guard)
      | None \<Rightarrow>
          (case install_int os of
             Some e \<Rightarrow> (Some (Err e), guard)
           | None \<Rightarrow>
               (case worker_future os c of
                  (r, as) \<Rightarrow>
                    if cause os \<noteq> FutureReady then (Some (Ok ()), take (progress os) as @ guard)
                    else case r of None \<Rightarrow> (None, as) | Some r \<Rightarrow> (Some r, as @ guard))))"

section \<open>The standalone worker\<close>

datatype reporter_args =
    GrpcArgs bytes "bytes option" bool "bytes option" "bytes option" "bytes option"
  | KafkaArgs bytes "bytes option"

definition unwrap_or_default :: "bytes option \<Rightarrow> bytes" where
  "unwrap_or_default v = (case v of Some x \<Rightarrow> x | None \<Rightarrow> [])"

fun reporter_config_from :: "reporter_args \<Rightarrow> reporter_config" where
  "reporter_config_from (GrpcArgs addr auth tls cert key ca) =
     Grpc \<lparr>server_addr = addr, authentication = unwrap_or_default auth, enable_tls = tls,
           ssl_cert_chain_path = unwrap_or_default cert, ssl_key_path = unwrap_or_default key,
           ssl_trusted_ca_path = unwrap_or_default ca\<rparr>"
| "reporter_config_from (KafkaArgs servers conf) =
     Kafka \<lparr>kafka_bootstrap_servers = servers, kafka_producer_config = unwrap_or_default conf\<rparr>"

text \<open>\<open>parallelism\<close> is \<^verbatim>\<open>available_parallelism()\<close>, a positive number if it is known.\<close>

definition main_worker_threads :: "nat option \<Rightarrow> nat option \<Rightarrow> nat" where
  "main_worker_threads parallelism arg =
     (case arg of Some n \<Rightarrow> n | None \<Rightarrow> (case parallelism of Some p \<Rightarrow> p | None \<Rightarrow> 1))"

text \<open>
  \<^verbatim>\<open>worker_threads(0)\<close> of the runtime's builder panics, as documented; the failure of \<^verbatim>\<open>build()\<close> is
  unwrapped.  A runtime is its number of threads.
\<close>

definition new_tokio_runtime :: "worker_os \<Rightarrow> nat \<Rightarrow> nat outcome" where
  "new_tokio_runtime os threads =
     (if threads = 0 then Panic (PanicStr ''Worker threads cannot be set to 0'')
      else case build_error os of
        Some e \<Rightarrow> Panic (PanicString (''called `Result::unwrap()` on an `Err` value: '' @ e))
      | None \<Rightarrow> Ok threads)"

record args =
  arg_socket_file_path :: bytes
  arg_worker_threads :: "nat option"
  arg_log_level :: bytes
  arg_reporter :: reporter_args

text \<open>The filter of the log; \<open>rust_log\<close> is a valid \<^verbatim>\<open>RUST_LOG\<close> of the environment.\<close>

definition log_filter :: "bytes option \<Rightarrow> bytes \<Rightarrow> bytes" where
  "log_filter rust_log level =
     (case rust_log of
        Some f \<Rightarrow> f
      | None \<Rightarrow> ''info,skywalking_agent='' @ level @ '',skywalking_php_worker='' @ level)"

text \<open>\<open>subscribe\<close> is \<^verbatim>\<open>set_global_default\<close> for a filter.\<close>

definition main_init_logger :: "bytes option \<Rightarrow> (bytes \<Rightarrow> error option) \<Rightarrow> bytes \<Rightarrow> unit outcome" where [simp]:
  "main_init_logger rust_log subscribe level =
     (case subscribe (log_filter rust_log level) of Some e \<Rightarrow> Err e | None \<Rightarrow> Ok ())"

text \<open>\<^verbatim>\<open>main\<close> behind the parser of the command line.\<close>

definition worker_main ::
  "bytes option \<Rightarrow> (bytes \<Rightarrow> error option) \<Rightarrow> nat option \<Rightarrow> worker_os \<Rightarrow> args \<Rightarrow> unit outcome option \<times> worker_action list" where
  "worker_main rust_log subscribe parallelism os a =
     (case main_init_logger rust_log subscribe (arg_log_level a) of
        Err e \<Rightarrow> (Some (Err e), [])
      | Panic p \<Rightarrow> (Some (Panic p), [])
      | Ok _ \<Rightarrow>
          (case new_tokio_runtime os (main_worker_threads parallelism (arg_worker_threads a)) of
             Err e \<Rightarrow> (Some (Err e), [])
           | Panic p \<Rightarrow> (Some (Panic p), [])
           | Ok n \<Rightarrow>
               start_worker os
                 \<lparr>socket_file_path = arg_socket_file_path a, heart_beat = None,
                  reporter_config = reporter_config_from (arg_reporter a)\<rparr>))"

section \<open>Properties\<close>

lemma hd_take_mem: "x \<in> set (take n xs) \<Longrightarrow> hd (take n xs) = hd xs"
  by (cases n; cases xs) auto

text \<open>
  (C34) The socket file does not outlive the worker.  Whichever way \<^verbatim>\<open>start_worker\<close> ends, with an error
  of the signal handlers or the socket, with the end of the reporter or with a signal at any
  moment, its last action removes the socket file it was configured with; it never binds another
  one and never removes it earlier, and the reporter acts only behind a bound socket.  And it does
  end when a signal comes.
\<close>

theorem socket_file_is_removed:
  assumes "start_worker os c = (res, as)"
  shows "(res \<noteq> None \<longrightarrow> last as = RemoveSocket (socket_file_path c) \<and> as \<noteq> []) \<and>
     (\<forall>p. RemoveSocket p \<notin> set (butlast as)) \<and>
     (\<forall>p. BindSocket p \<in> set as \<longrightarrow> p = socket_file_path c) \<and>
     (\<forall>r. Reporter r \<in> set as \<longrightarrow> hd as = BindSocket (socket_file_path c)) \<and>
     (cause os \<noteq> FutureReady \<longrightarrow> res \<noteq> None)"
proof -
  obtain r fas where f: "worker_future os c = (r, fas)" by fastforce
  then have fut: "RemoveSocket p \<notin> set fas" "BindSocket p \<in> set fas \<longrightarrow> p = socket_file_path c"
      "fas \<noteq> []" "hd fas = BindSocket (socket_file_path c)" for p
    by (auto simp: worker_future_def Let_def split: option.splits prod.splits)
  show ?thesis
  proof (cases "install_term os = None \<and> install_int os = None")
    case False
    then show ?thesis using assms by (auto simp: start_worker_def Let_def split: option.splits)
  next
    case True
    define n where "n = (if cause os = FutureReady then length fas else progress os)"
    define tl where "tl = (if res = None then [] else [RemoveSocket (socket_file_path c)])"
    have as: "as = take n fas @ tl" and sig: "cause os \<noteq> FutureReady \<longrightarrow> res \<noteq> None"
      using True assms f by (auto simp: start_worker_def Let_def n_def tl_def split: if_splits option.splits)
    have body: "RemoveSocket p \<notin> set (take n fas)" "BindSocket p \<in> set (take n fas) \<longrightarrow> p = socket_file_path c" for p
      using fut by (auto dest: in_set_takeD)
    have "hd as = BindSocket (socket_file_path c)" if "Reporter r \<in> set as" for r
      using that hd_take_mem [of "Reporter r" n fas] fut(4) by (cases "take n fas") (auto simp: as tl_def split: if_splits)
    then show ?thesis using body sig
      by (cases "res = None") (auto simp: as tl_def butlast_append dest: in_set_butlastD)
  qed
qed

definition sample_worker :: worker_config where
  "sample_worker = \<lparr>socket_file_path = ''/run/sw.sock'', heart_beat = None, reporter_config = Grpc sample_grpc\<rparr>"

definition sample_os :: worker_os where
  "sample_os = \<lparr>build_error = None, install_term = None, install_int = None, bind_error = None, network = sample_net,
     cause = SigTerm, progress = 2\<rparr>"

theorem socket_file_is_removed_witness:
  "\<exists>res as. start_worker sample_os sample_worker = (res, as) \<and> last as = RemoveSocket ''/run/sw.sock''"
proof -
  obtain res as where run: "start_worker sample_os sample_worker = (res, as)" by fastforce
  from socket_file_is_removed [OF run] have "last as = RemoveSocket (socket_file_path sample_worker)"
    by (simp add: sample_os_def)
  with run show ?thesis by (simp add: sample_worker_def)
qed

text \<open>
  The heart beat takes its period from the settings bit by bit.  A period that is not negative
  is the number of seconds between two beats; a negative one becomes a period of at least
  \<open>2 ^ 63\<close> seconds, so that after the first beat none follows.
\<close>

theorem heart_beat_period:
  "int (plan_period (report_properties_and_keep_alive c)) =
     (if 0 \<le> sint (heartbeat_period c) then sint (heartbeat_period c) else 2 ^ 64 + sint (heartbeat_period c)) \<and>
   (sint (heartbeat_period c) < 0) = (2 ^ 63 \<le> plan_period (report_properties_and_keep_alive c))"
proof -
  let ?w = "heartbeat_period c"
  have r: "- (2 ^ 63) \<le> sint ?w" "sint ?w < 2 ^ 63" using sint_ge [of ?w] sint_lt [of ?w] by simp_all
  have u: "uint ?w = sint ?w mod 2 ^ 64" by (simp add: uint_sint take_bit_eq_mod)
  have "sint ?w mod 2 ^ 64 = (if 0 \<le> sint ?w then sint ?w else 2 ^ 64 + sint ?w)"
    using r mod_add_self2 [of "sint ?w" "2 ^ 64"] mod_pos_pos_trivial [of "sint ?w + 2 ^ 64" "2 ^ 64"]
    by (auto simp: mod_pos_pos_trivial)
  with u r show ?thesis
    by (auto simp: report_properties_and_keep_alive_def nat_le_iff le_nat_iff simp flip: nat_uint_eq)
qed

text \<open>
  (C38) The standalone worker.  If its log cannot be set up it ends with that error and does nothing;
  behind the log it panics, before it has touched anything, exactly if it was told to run zero
  threads or the system does not let it build its runtime; otherwise it does what the worker of the
  extension does with the same reporter, but never with a heart beat.  Started for Kafka
  without a producer configuration it never reports: the missing configuration is passed on as an
  empty text, which is no JSON.
\<close>

theorem standalone_worker:
  assumes "parallelism \<noteq> Some 0" and "parse_json (network os) [] = None"
  shows "(\<forall>e. subscribe (log_filter rust_log (arg_log_level a)) = Some e \<longrightarrow>
      worker_main rust_log subscribe parallelism os a = (Some (Err e), [])) \<and>
    (subscribe (log_filter rust_log (arg_log_level a)) = None \<longrightarrow>
      (if arg_worker_threads a = Some 0 \<or> build_error os \<noteq> None
       then \<exists>p. worker_main rust_log subscribe parallelism os a = (Some (Panic p), [])
       else worker_main rust_log subscribe parallelism os a =
         start_worker os \<lparr>socket_file_path = arg_socket_file_path a, heart_beat = None,
           reporter_config = reporter_config_from (arg_reporter a)\<rparr> \<and>
         (\<forall>p. fst (worker_main rust_log subscribe parallelism os a) = Some p \<longrightarrow>
            snd (worker_main rust_log subscribe parallelism os a) \<noteq> []))) \<and>
    (\<forall>plan. SpawnHeartBeat plan \<notin> set (snd (worker_main rust_log subscribe parallelism os a))) \<and>
    (\<forall>servers. arg_reporter a = KafkaArgs servers None \<longrightarrow>
       Reporter SpawnReporting \<notin> set (snd (worker_main rust_log subscribe parallelism os a)))"
proof -
  let ?c = "\<lparr>socket_file_path = arg_socket_file_path a, heart_beat = None,
           reporter_config = reporter_config_from (arg_reporter a)\<rparr>"
  have zero: "main_worker_threads parallelism (arg_worker_threads a) = 0 \<longleftrightarrow> arg_worker_threads a = Some 0"
    using assms(1) by (auto simp: main_worker_threads_def split: option.splits)
  have ends: "snd (start_worker os ?c) \<noteq> []" if "fst (start_worker os ?c) = Some r" for r
    using that by (auto simp: start_worker_def Let_def split: option.splits prod.splits if_splits)
  have sub: "set (snd (start_worker os ?c)) \<subseteq> set (snd (worker_future os ?c)) \<union> {RemoveSocket (arg_socket_file_path a)}"
    by (auto simp: start_worker_def Let_def dest: in_set_takeD split: option.splits prod.splits)
  have nobeat: "SpawnHeartBeat plan \<notin> set (snd (worker_future os ?c))" for plan
    by (auto simp: worker_future_def Let_def split: option.splits prod.splits)
  have nokafka: "Reporter SpawnReporting \<notin> set (snd (worker_future os ?c))" if "arg_reporter a = KafkaArgs servers None" for servers
    using that assms(2)
    by (auto simp: worker_future_def Let_def kafka_run_reporter_def kafka_client_config_def unwrap_or_default_def
        split: option.splits)
  show ?thesis
  proof (cases "subscribe (log_filter rust_log (arg_log_level a)) = None \<and> arg_worker_threads a \<noteq> Some 0 \<and> build_error os = None")
    case True
    then have "worker_main rust_log subscribe parallelism os a = start_worker os ?c"
      using zero by (simp add: worker_main_def new_tokio_runtime_def)
    with True sub nobeat nokafka ends show ?thesis by auto
  next
    case False
    then show ?thesis using zero
      by (auto simp: worker_main_def new_tokio_runtime_def split: option.splits)
  qed
qed

theorem standalone_worker_witness:
  "\<exists>p. worker_main None (\<lambda>f. None) (Some 4) (sample_os\<lparr>build_error := Some ''EAGAIN''\<rparr>)
     \<lparr>arg_socket_file_path = ''s'', arg_worker_threads = Some 2, arg_log_level = ''INFO'', arg_reporter = KafkaArgs ''k'' None\<rparr>
     = (Some (Panic p), [])"
proof -
  let ?os = "sample_os\<lparr>build_error := Some ''EAGAIN''\<rparr>"
  have "parse_json (network ?os) [] = None" by (simp add: sample_os_def sample_net_def)
  from standalone_worker [where a = "\<lparr>arg_socket_file_path = ''s'', arg_worker_threads = Some 2, arg_log_level = ''INFO'',
        arg_reporter = KafkaArgs ''k'' None\<rparr>", OF _ this, of "Some 4" "\<lambda>f. None" None]
  show ?thesis by auto
qed

end
