(* ===== verification/Module.thy ===== *)
theory Module
  imports Settings Worker_Start
begin

text \<open>
  The start of the extension: \<^verbatim>\<open>init\<close> and \<^verbatim>\<open>try_init_logger\<close> of \<^verbatim>\<open>src/src/module.rs\<close>, \<^verbatim>\<open>init_worker\<close> of
  \<^verbatim>\<open>src/src/worker.rs\<close>, and the two functions of \<^verbatim>\<open>src/src/execute.rs\<close> that put the interceptors in
  place.  What is done is a list of actions, in their order.

  The settings are lazily initialised statics: the first read fixes the value.  The extension reads
  all of them before it forks, since two of them depend on the moment they are read at, and both
  sides of the fork need the same values.
\<close>

section \<open>Actions and answers\<close>

datatype mechanism = ExecuteInternal | ExecuteEx | Observer

datatype start_action =
    OpenLog bytes bytes
  | LoggerFailed error
  | CreateRuntimeDir bytes
  | ForkFailed
  | SetParentDeathSignal
  | RunWorker nat worker_config
  | Exit int
  | SetGlobalTracer bytes bytes bytes
  | SetGlobalLogger bytes bytes bytes
  | Intercept mechanism

datatype fork_result = ForkError | InChild | InParent

datatype level_filter = FilterOff | FilterLevel bytes

text \<open>
  \<open>parse_filter\<close>: \<^verbatim>\<open>LevelFilter::from_str\<close>; \<open>open_log\<close>: creating the parent directory of the log file
  and opening it, and registering the subscriber; \<open>worker_exit\<close>: how \<^verbatim>\<open>start_worker\<close> ends in the
  child; \<open>kafka_feature\<close>: whether the crate was built with the feature; \<open>later_id\<close>,
  \<open>later_networks\<close>, \<open>later_micros\<close>: what this process finds if it draws an identifier or looks at the
  network or the clock once more behind the call of \<^verbatim>\<open>fork\<close>.
\<close>

record start_os =
  parse_filter :: "bytes \<Rightarrow> error + level_filter"
  open_log :: "bytes \<Rightarrow> error option"
  create_dir_all :: "bytes \<Rightarrow> error option"
  fork :: fork_result
  worker_exit :: worker_os
  parallelism :: "nat option"
  kafka_feature :: bool
  later_id :: bytes
  later_networks :: "(bytes \<times> bytes option list) list option"
  later_micros :: nat

definition later_platform :: "start_os \<Rightarrow> platform \<Rightarrow> platform" where
  "later_platform os P =
     P\<lparr>random_id := later_id os, networks := later_networks os, now_micros := later_micros os\<rparr>"

section \<open>The lazy statics\<close>

datatype lazy_static =
    ServerAddr | ServiceName | ServiceInstance | SkywalkingVersion | RuntimeDir | SocketFilePath | Authentication
  | EnableTls | SslTrustedCaPath | SslKeyPath | SslCertChainPath | HeartbeatPeriod | PropertiesReportPeriodFactor
  | EnableZendObserver | WorkerThreads | ReporterType | KafkaBootstrapServers | KafkaProducerConfig | InjectContext
  | PsrLoggingLevel

text \<open>
  A static that has been read keeps what its initialiser saw of the platform then; its value is
  that of the initialiser there.  The settings themselves do not change while the process lives, so
  a static that is made of them alone has the same value at any time, and only
  \<^verbatim>\<open>SERVICE_INSTANCE\<close> and \<^verbatim>\<open>SOCKET_FILE_PATH\<close> are read through their cells below.
\<close>

type_synonym statics = "lazy_static \<Rightarrow> platform option"

definition lazy_force :: "platform \<Rightarrow> lazy_static \<Rightarrow> statics \<Rightarrow> statics" where
  "lazy_force P x st = (case st x of None \<Rightarrow> st(x \<mapsto> P) | Some _ \<Rightarrow> st)"

definition lazy_deref :: "statics \<Rightarrow> lazy_static \<Rightarrow> (platform \<Rightarrow> 'v) \<Rightarrow> platform \<Rightarrow> 'v" where
  "lazy_deref st x initialiser P = initialiser (case st x of Some P0 \<Rightarrow> P0 | None \<Rightarrow> P)"

definition force_settings :: "platform \<Rightarrow> statics \<Rightarrow> statics" where
  "force_settings P =
     fold (lazy_force P)
       [ServerAddr, ServiceName, ServiceInstance, SkywalkingVersion, RuntimeDir, SocketFilePath, Authentication,
        EnableTls, SslTrustedCaPath, SslKeyPath, SslCertChainPath, HeartbeatPeriod, PropertiesReportPeriodFactor,
        EnableZendObserver, WorkerThreads, ReporterType, KafkaBootstrapServers, KafkaProducerConfig, InjectContext,
        PsrLoggingLevel]"

lemma lazy_force_apply: "lazy_force P x st y = (if y = x \<and> st x = None then Some P else st y)"
  by (auto simp: lazy_force_def split: option.split)

lemma fold_lazy_force:
  "fold (lazy_force P) xs st x = (if x \<in> set xs \<and> st x = None then Some P else st x)"
  by (induction xs arbitrary: st) (auto simp: lazy_force_apply)

lemma force_settings_apply: "force_settings P Map.empty x = Some P"
  unfolding force_settings_def fold_lazy_force by (cases x) simp_all

lemma forced_deref [simp]: "lazy_deref (force_settings P Map.empty) x f P' = f P"
  by (simp add: lazy_deref_def force_settings_apply)

section \<open>The logger\<close>

text \<open>A state of actions done so far.\<close>

definition act_do :: "start_action \<Rightarrow> (start_action list, unit) act" where
  "act_do a = modify (\<lambda>as. as @ [a])"

definition try_init_logger :: "ini \<Rightarrow> start_os \<Rightarrow> (start_action list, unit) act" where
  "try_init_logger I os =
     (let log_level = trim (case Option.bind (ini_str I SKYWALKING_AGENT_LOG_LEVEL) to_str of Some s \<Rightarrow> s | None \<Rightarrow> ''OFF'') in
      case parse_filter os log_level of
        Inl e \<Rightarrow> fail e
      | Inr FilterOff \<Rightarrow> ret ()
      | Inr (FilterLevel l) \<Rightarrow>
          let log_file = trim (get_str_ini_with_default I SKYWALKING_AGENT_LOG_FILE) in
          if log_file = [] then fail (Anyhow ''log file can't be empty when log enabled'')
          else (case open_log os log_file of Some e \<Rightarrow> fail e | None \<Rightarrow> act_do (OpenLog log_file l)))"

section \<open>The worker\<close>

text \<open>\<^verbatim>\<open>as usize\<close> of a positive 64-bit number is that number.\<close>

definition worker_threads :: "nat option \<Rightarrow> i64 \<Rightarrow> nat" where
  "worker_threads par n =
     (if sint n \<le> 0 then (case par of Some p \<Rightarrow> p | None \<Rightarrow> 1) else unat n)"

definition reporter_config_of :: "ini \<Rightarrow> bool \<Rightarrow> Reporters.reporter_config option" where
  "reporter_config_of I kafka =
     (let typ = REPORTER_TYPE I in
      if typ = ''grpc'' then
        Some (Grpc \<lparr>server_addr = SERVER_ADDR I,
          authentication = AUTHENTICATION I,
          enable_tls = ENABLE_TLS I,
          ssl_cert_chain_path = SSL_CERT_CHAIN_PATH I,
          ssl_key_path = SSL_KEY_PATH I,
          ssl_trusted_ca_path = SSL_TRUSTED_CA_PATH I\<rparr>)
      else if typ = ''kafka'' \<and> kafka then
        Some (Kafka \<lparr>kafka_bootstrap_servers = KAFKA_BOOTSTRAP_SERVERS I,
          kafka_producer_config = KAFKA_PRODUCER_CONFIG I\<rparr>)
      else None)"

definition worker_config_of :: "ini \<Rightarrow> statics \<Rightarrow> platform \<Rightarrow> reporter_config \<Rightarrow> worker_config" where
  "worker_config_of I st P rc =
     \<lparr>socket_file_path = lazy_deref st SocketFilePath (SOCKET_FILE_PATH I) P,
      heart_beat = Some \<lparr>hb_service_instance = lazy_deref st ServiceInstance (service_instance I) P,
        hb_service_name = SERVICE_NAME I,
        heartbeat_period = HEARTBEAT_PERIOD I,
        properties_report_period_factor = PROPERTIES_REPORT_PERIOD_FACTOR I\<rparr>,
      reporter_config = rc\<rparr>"

fun exit_with :: "unit outcome option \<Rightarrow> start_action list" where
  "exit_with (Some (Ok _)) = [Exit 0]"
| "exit_with (Some (Err e)) = [Exit 1]"
| "exit_with _ = []"

text \<open>
  The actions, and whether this process goes on behind the call: the child never does, since it
  exits with the worker, runs as long as the worker does, or panics because the runtime cannot be
  built.
\<close>

definition init_worker :: "ini \<Rightarrow> statics \<Rightarrow> platform \<Rightarrow> start_os \<Rightarrow> start_action list \<times> bool" where
  "init_worker I st P os =
     (if is_standalone_reporter_type I then ([], True)
      else case fork os of
        ForkError \<Rightarrow> ([ForkFailed], True)
      | InParent \<Rightarrow> ([], True)
      | InChild \<Rightarrow>
          (case reporter_config_of I (kafka_feature os) of
             None \<Rightarrow> ([SetParentDeathSignal, Exit 1], False)
           | Some rc \<Rightarrow>
               let c = worker_config_of I st P rc in
               (case new_tokio_runtime (worker_exit os) (worker_threads (parallelism os) (WORKER_THREADS I)) of
                  Ok n \<Rightarrow>
                    ([SetParentDeathSignal, RunWorker n c] @ exit_with (fst (start_worker (worker_exit os) c)), False)
                | _ \<Rightarrow> ([SetParentDeathSignal], False))))"

section \<open>The interceptors\<close>

definition register_execute_functions :: "ini \<Rightarrow> platform \<Rightarrow> mechanism list" where
  "register_execute_functions I P =
     (if \<not> ENABLE_ZEND_OBSERVER I P \<or> \<not> IS_ZEND_OBSERVER_CALLED_FOR_INTERNAL P then [ExecuteInternal] else []) @
     (if \<not> ENABLE_ZEND_OBSERVER I P then [ExecuteEx] else [])"

text \<open>Compiled in for the major version 8 only.\<close>

definition register_observer_handlers :: "ini \<Rightarrow> platform \<Rightarrow> mechanism list" where
  "register_observer_handlers I P = (if php_major P = 8 \<and> ENABLE_ZEND_OBSERVER I P then [Observer] else [])"

section \<open>The start\<close>

definition init_logger :: "ini \<Rightarrow> start_os \<Rightarrow> start_action list" where
  "init_logger I os = (case try_init_logger I os [] of (Ok _, as) \<Rightarrow> as | (Err e, as) \<Rightarrow> as @ [LoggerFailed e] | (_, as) \<Rightarrow> as)"

definition init_hooks :: "ini \<Rightarrow> statics \<Rightarrow> platform \<Rightarrow> start_action list" where
  "init_hooks I st P =
     (let path = lazy_deref st SocketFilePath (SOCKET_FILE_PATH I) P;
          name = SERVICE_NAME I;
          inst = lazy_deref st ServiceInstance (service_instance I) P
      in [SetGlobalTracer name inst path, SetGlobalLogger name inst path] @
         map Intercept (register_execute_functions I P @ register_observer_handlers I P))"

text \<open>What is read behind the fork is read on the platform as it is then.\<close>

definition init :: "ini \<Rightarrow> platform \<Rightarrow> start_os \<Rightarrow> start_action list" where
  "init I P os =
     (if \<not> is_enable I P then []
      else let st = force_settings P Map.empty; P' = later_platform os P in
        init_logger I os @
        (if sint (SKYWALKING_VERSION I) < 8 then []
         else if RUNTIME_DIR I = [] then []
         else case create_dir_all os (RUNTIME_DIR I) of
           Some e \<Rightarrow> []
         | None \<Rightarrow>
             CreateRuntimeDir (RUNTIME_DIR I) #
             (case init_worker I st P' os of
                (as, goes_on) \<Rightarrow> as @ (if goes_on then init_hooks I st P' else []))))"

section \<open>Properties\<close>

text \<open>Which mechanisms see a call of an internal and of a user function.\<close>

fun sees :: "platform \<Rightarrow> bool \<Rightarrow> mechanism \<Rightarrow> bool" where
  "sees P internal ExecuteInternal \<longleftrightarrow> internal"
| "sees P internal ExecuteEx \<longleftrightarrow> \<not> internal"
| "sees P internal Observer \<longleftrightarrow> (internal \<longrightarrow> IS_ZEND_OBSERVER_CALLED_FOR_INTERNAL P)"

text \<open>
  Every call is intercepted exactly once.  For every version of PHP up to 8 and every
  setting of the observer, the mechanisms put in place at the start see each call of an
  internal function once and each call of a user function once: no call runs the hooks twice
  and none escapes them.
\<close>

theorem every_call_is_intercepted_once:
  assumes "php_major P \<le> 8"
  shows "length (filter (sees P internal) (register_execute_functions I P @ register_observer_handlers I P)) = 1"
  using assms
  by (cases internal)
    (auto simp: register_execute_functions_def register_observer_handlers_def ENABLE_ZEND_OBSERVER_def
      IS_ZEND_OBSERVER_CALLED_FOR_INTERNAL_def)

definition ini_of :: "(bytes \<times> ini_value) list \<Rightarrow> ini" where
  "ini_of vs =
     \<lparr>ini_bool = (\<lambda>k. map_of vs k = Some (IniBool True)),
      ini_long = (\<lambda>k. case map_of vs k of Some (IniLong n) \<Rightarrow> n | _ \<Rightarrow> 0),
      ini_str = (\<lambda>k. case map_of vs k of Some (IniStr s) \<Rightarrow> Some s | _ \<Rightarrow> None)\<rparr>"

definition sample_platform :: platform where
  "sample_platform = \<lparr>sapi = ''fpm-fcgi'', has_swoole = False, php_major = 8, php_minor = 1, random_id = ''id'',
     networks = None, now_micros = 255\<rparr>"

theorem every_call_is_intercepted_once_witness:
  "length (filter (sees sample_platform True) (register_execute_functions (ini_of registered_inis) sample_platform @
     register_observer_handlers (ini_of registered_inis) sample_platform)) = 1"
  by (rule every_call_is_intercepted_once) (simp add: sample_platform_def)

text \<open>What the process that goes on needs before any hook is put in place.\<close>

definition may_start :: "ini \<Rightarrow> platform \<Rightarrow> start_os \<Rightarrow> bool" where
  "may_start I P os \<longleftrightarrow> is_enable I P \<and> 8 \<le> sint (ini_long I SKYWALKING_AGENT_SKYWALKING_VERSION) \<and>
     RUNTIME_DIR I \<noteq> [] \<and> create_dir_all os (RUNTIME_DIR I) = None"

lemma init_logger_actions:
  "a \<in> set (init_logger I os) \<Longrightarrow> (\<exists>f l. a = OpenLog f l) \<or> (\<exists>e. a = LoggerFailed e)"
  by (auto simp: init_logger_def try_init_logger_def act_do_def Let_def
      split: sum.splits level_filter.splits if_splits option.splits outcome.splits prod.splits)

lemma register_later [simp]:
  "register_execute_functions I (later_platform os P) = register_execute_functions I P"
  "register_observer_handlers I (later_platform os P) = register_observer_handlers I P"
  by (simp_all add: register_execute_functions_def register_observer_handlers_def ENABLE_ZEND_OBSERVER_def
      IS_ZEND_OBSERVER_CALLED_FOR_INTERNAL_def later_platform_def)

text \<open>The state of the statics behind the lines that force them, and what they then give.\<close>

abbreviation forced :: "platform \<Rightarrow> statics" where
  "forced P \<equiv> force_settings P Map.empty"

lemma forced_worker_config:
  "socket_file_path (worker_config_of I (forced P) P' rc) = SOCKET_FILE_PATH I P"
  "\<exists>hb. heart_beat (worker_config_of I (forced P) P' rc) = Some hb \<and> hb_service_name hb = SERVICE_NAME I \<and>
     hb_service_instance hb = service_instance I P"
  by (simp_all add: worker_config_of_def)

lemma forced_hooks:
  "init_hooks I (forced P) (later_platform os P) =
     [SetGlobalTracer (SERVICE_NAME I) (service_instance I P) (SOCKET_FILE_PATH I P),
      SetGlobalLogger (SERVICE_NAME I) (service_instance I P) (SOCKET_FILE_PATH I P)] @
     map Intercept (register_execute_functions I P @ register_observer_handlers I P)"
  by (simp add: init_hooks_def Let_def)

lemma init_actions:
  assumes "\<And>f l. a \<noteq> OpenLog f l" "\<And>e. a \<noteq> LoggerFailed e" "\<And>d. a \<noteq> CreateRuntimeDir d"
  shows "a \<in> set (init I P os) \<longleftrightarrow> may_start I P os \<and>
    (a \<in> set (fst (init_worker I (forced P) (later_platform os P) os)) \<or>
     snd (init_worker I (forced P) (later_platform os P) os) \<and>
     a \<in> set (init_hooks I (forced P) (later_platform os P)))"
  using assms init_logger_actions [of a I os]
  by (cases "init_worker I (forced P) (later_platform os P) os")
    (auto simp: init_def may_start_def Let_def split: option.split)

lemma exit_with_actions: "a \<in> set (exit_with r) \<Longrightarrow> a = Exit 0 \<or> a = Exit 1"
  by (cases r rule: exit_with.cases) auto

lemma hooks_not_by_worker:
  "Intercept m \<notin> set (fst (init_worker I st P os))"
  "SetGlobalTracer name inst path \<notin> set (fst (init_worker I st P os))"
  by (auto simp: init_worker_def Let_def split: fork_result.splits option.splits outcome.splits dest: exit_with_actions)

lemma goes_on: "snd (init_worker I st P os) \<longleftrightarrow> is_standalone_reporter_type I \<or> fork os \<noteq> InChild"
  by (auto simp: init_worker_def Let_def split: fork_result.splits option.splits outcome.splits)

lemma worker_run_by_init:
  assumes "RunWorker n c \<in> set (fst (init_worker I st P os))"
  shows "\<exists>rc. c = worker_config_of I st P rc \<and>
    new_tokio_runtime (worker_exit os) (worker_threads (parallelism os) (WORKER_THREADS I)) = Ok n"
  using assms
  by (auto simp: init_worker_def Let_def simp del: WORKER_THREADS_def
      split: if_splits fork_result.splits option.splits outcome.splits dest: exit_with_actions)

lemma tracer_of_init: "SetGlobalTracer name inst path \<in> set (init I P os) \<Longrightarrow> name = SERVICE_NAME I"
  by (subst (asm) init_actions) (auto simp: hooks_not_by_worker forced_hooks)

text \<open>
  Hooks are put in place exactly when they may be: the agent is enabled for this kind of
  server, the version of the backend is at least 8, the runtime directory is set and could be
  created, and the process is not the forked worker.  Then they are the ones chosen for the
  version of PHP; a fork that fails does not prevent them.
\<close>

theorem hooks_are_gated:
  "Intercept m \<in> set (init I P os) \<longleftrightarrow>
     is_enable I P \<and> 8 \<le> sint (ini_long I SKYWALKING_AGENT_SKYWALKING_VERSION) \<and> RUNTIME_DIR I \<noteq> [] \<and>
     create_dir_all os (RUNTIME_DIR I) = None \<and> (is_standalone_reporter_type I \<or> fork os \<noteq> InChild) \<and>
     m \<in> set (register_execute_functions I P @ register_observer_handlers I P)"
  by (subst init_actions) (auto simp: hooks_not_by_worker goes_on forced_hooks may_start_def)

text \<open>
  (C36) The two sides of the fork meet.  Child and parent of a fork come out of the same start, with
  the same runtime directory, but from then on each finds its own identifiers, network and
  clock.  If the child runs a worker, then all the same the parent gives a tracer and a logger for the
  service and instance of the worker's heart beat, with a reporter for exactly the socket file the
  worker binds: the identifier and the time stamp in them were fixed when the settings were forced,
  before the fork.
\<close>

theorem parent_and_worker_meet:
  assumes "RunWorker n c \<in> set (init I P (child\<lparr>fork := InChild\<rparr>))"
    and "create_dir_all parent = create_dir_all child"
  shows "\<exists>name inst hb. heart_beat c = Some hb \<and> hb_service_name hb = name \<and> hb_service_instance hb = inst \<and>
    inst = service_instance I P \<and> socket_file_path c = SOCKET_FILE_PATH I P \<and>
    SetGlobalTracer name inst (socket_file_path c) \<in> set (init I P (parent\<lparr>fork := InParent\<rparr>)) \<and>
    SetGlobalLogger name inst (socket_file_path c) \<in> set (init I P (parent\<lparr>fork := InParent\<rparr>))"
proof -
  let ?child = "child\<lparr>fork := InChild\<rparr>"
  have start: "may_start I P ?child"
    and run: "RunWorker n c \<in> set (fst (init_worker I (forced P) (later_platform ?child P) ?child))"
    using assms(1) by (simp_all add: init_actions forced_hooks) auto
  from worker_run_by_init [OF run] obtain rc where c: "c = worker_config_of I (forced P) (later_platform ?child P) rc"
    by blast
  have "may_start I P (parent\<lparr>fork := InParent\<rparr>)" using start assms(2) by (simp add: may_start_def)
  then show ?thesis
    using forced_worker_config [of I P "later_platform ?child P" rc]
    by (auto simp: init_actions goes_on forced_hooks c)
qed

text \<open>
  The extension never asks for zero worker threads, which the runtime would answer with a
  panic: a positive setting is taken as it is, over the whole range of the setting, and otherwise
  as many threads are used as the machine runs in parallel, or one if that is not known.  So the
  runtime is there whenever the system lets it be built.
\<close>

lemma worker_threads_suit:
  assumes "par \<noteq> Some 0" and "build_error os = None"
  shows "\<exists>k. new_tokio_runtime os (worker_threads par n) = Ok k \<and> 1 \<le> k \<and>
    (if 0 < sint n then int k = sint n else k \<in> {1} \<union> set_option par)"
proof -
  have pos: "int (unat n) = sint n" if "0 < sint n"
  proof -
    have "sint n < 2 ^ 63" using sint_lt [of n] by simp
    with that have "uint n = sint n" by (simp add: uint_sint take_bit_eq_mod)
    then show ?thesis by simp
  qed
  have ge: "1 \<le> unat n" if "0 < sint n" using pos [OF that] that by linarith
  have "1 \<le> worker_threads par n"
    using assms(1) ge by (cases par) (auto simp: worker_threads_def)
  moreover have "0 < sint n \<Longrightarrow> int (worker_threads par n) = sint n"
    "\<not> 0 < sint n \<Longrightarrow> worker_threads par n \<in> {1} \<union> set_option par"
    using assms(1) pos by (auto simp: worker_threads_def split: option.splits)
  ultimately show ?thesis using assms(2) by (auto simp: new_tokio_runtime_def)
qed

definition sample_ini :: ini where
  "sample_ini = ini_of ((SKYWALKING_AGENT_ENABLE, IniBool True) # registered_inis)"

lemma sample_ini_settings:
  "get_str_ini_with_default sample_ini SKYWALKING_AGENT_REPORTER_TYPE = ''grpc''"
  "get_str_ini_with_default sample_ini SKYWALKING_AGENT_SERVER_ADDR = ''127.0.0.1:11800''"
  "get_str_ini_with_default sample_ini SKYWALKING_AGENT_AUTHENTICATION = []"
  "get_str_ini_with_default sample_ini SKYWALKING_AGENT_SSL_CERT_CHAIN_PATH = []"
  "get_str_ini_with_default sample_ini SKYWALKING_AGENT_SSL_KEY_PATH = []"
  "get_str_ini_with_default sample_ini SKYWALKING_AGENT_SSL_TRUSTED_CA_PATH = []"
  "get_str_ini_with_default sample_ini SKYWALKING_AGENT_SERVICE_NAME = ''hello-skywalking''"
  "get_str_ini_with_default sample_ini SKYWALKING_AGENT_INSTANCE_NAME = []"
  "get_str_ini_with_default sample_ini SKYWALKING_AGENT_PSR_LOGGING_LEVEL = []"
  "ini_bool sample_ini SKYWALKING_AGENT_ENABLE_TLS = False"
  "RUNTIME_DIR sample_ini = ''/tmp/skywalking-agent''"
  by code_simp+

definition sample_start :: start_os where
  "sample_start = \<lparr>parse_filter = (\<lambda>l. Inr FilterOff), open_log = (\<lambda>f. None), create_dir_all = (\<lambda>d. None),
     fork = InChild, worker_exit = sample_os, parallelism = Some 4, kafka_feature = False,
     later_id = ''child'', later_networks = Some [], later_micros = 256\<rparr>"

text \<open>The same start in the parent, where identifier and clock have moved on.\<close>

definition sample_parent :: start_os where
  "sample_parent = sample_start\<lparr>fork := InParent, later_id := ''parent'', later_micros := 257\<rparr>"

lemma sample_start_runs_worker:
  "\<exists>n c. RunWorker n c \<in> set (init sample_ini sample_platform (sample_start\<lparr>fork := InChild\<rparr>))"
proof -
  have enabled: "is_enable sample_ini sample_platform"
    "8 \<le> sint (ini_long sample_ini SKYWALKING_AGENT_SKYWALKING_VERSION)" by code_simp+
  obtain k where "new_tokio_runtime sample_os (worker_threads (Some 4) (WORKER_THREADS sample_ini)) = Ok k"
    using worker_threads_suit [of "Some 4" sample_os] by (auto simp: sample_os_def)
  with enabled show ?thesis
    by (auto simp: init_actions may_start_def init_worker_def reporter_config_of_def sample_ini_settings
        is_standalone_reporter_type_def sample_start_def Let_def)
qed

theorem parent_and_worker_meet_witness:
  "SetGlobalTracer ''hello-skywalking'' ''id@127.0.0.1'' ''/tmp/skywalking-agent/ff.sock''
     \<in> set (init sample_ini sample_platform (sample_parent\<lparr>fork := InParent\<rparr>))"
proof -
  obtain n c where r: "RunWorker n c \<in> set (init sample_ini sample_platform (sample_start\<lparr>fork := InChild\<rparr>))"
    using sample_start_runs_worker by blast
  have "create_dir_all sample_parent = create_dir_all sample_start" by (simp add: sample_parent_def)
  from parent_and_worker_meet [OF r this] obtain name where s:
    "SetGlobalTracer name (service_instance sample_ini sample_platform) (SOCKET_FILE_PATH sample_ini sample_platform)
       \<in> set (init sample_ini sample_platform (sample_parent\<lparr>fork := InParent\<rparr>))"
    by metis
  have "char_of (102 :: nat) = CHR ''f''" by code_simp
  then have "service_instance sample_ini sample_platform = ''id@127.0.0.1''"
    "SOCKET_FILE_PATH sample_ini sample_platform = ''/tmp/skywalking-agent/ff.sock''"
    by (simp_all add: service_instance_def SOCKET_FILE_PATH_def is_standalone_reporter_type_def sample_ini_settings
        sample_platform_def IPS_def path_push_def show_hex.simps)
  moreover have "name = ''hello-skywalking''"
    using tracer_of_init [OF s] by (simp only: SERVICE_NAME_def sample_ini_settings)
  ultimately show ?thesis using s by simp
qed

text \<open>
  The settings out of the box.  With the defaults the extension registers the agent is off;
  switched on and nothing else set, it runs under PHP-FPM, reports by gRPC without TLS to
  \<^verbatim>\<open>127.0.0.1:11800\<close> through a socket below \<^verbatim>\<open>/tmp/skywalking-agent\<close>, as the service
  \<^verbatim>\<open>hello-skywalking\<close> under a generated instance name, with the observer from PHP 8 on, without
  collecting logs and without changing \<^verbatim>\<open>$_SERVER\<close>.
\<close>

theorem default_settings:
  "\<not> is_enable (ini_of registered_inis) P \<and>
   is_enable sample_ini P = (sapi P = ''fpm-fcgi'' \<or> sapi P = ''cli'' \<and> has_swoole P) \<and>
   reporter_config_of sample_ini kafka =
     Some (Grpc \<lparr>server_addr = ''127.0.0.1:11800'', authentication = [], enable_tls = False,
       ssl_cert_chain_path = [], ssl_key_path = [], ssl_trusted_ca_path = []\<rparr>) \<and>
   SOCKET_FILE_PATH sample_ini P = ''/tmp/skywalking-agent/'' @ show_hex (now_micros P) @ ''.sock'' \<and>
   get_str_ini_with_default sample_ini SKYWALKING_AGENT_SERVICE_NAME = ''hello-skywalking'' \<and>
   service_instance sample_ini P = random_id P @ ''@'' @ hd (IPS P) \<and>
   ENABLE_ZEND_OBSERVER sample_ini P = (8 \<le> php_major P) \<and>
   PSR_LOGGING_LEVEL sample_ini = Off \<and>
   \<not> ini_bool sample_ini SKYWALKING_AGENT_INJECT_CONTEXT \<and>
   8 \<le> sint (ini_long sample_ini SKYWALKING_AGENT_SKYWALKING_VERSION)"
proof (intro conjI)
  show "\<not> is_enable (ini_of registered_inis) P"
    "is_enable sample_ini P = (sapi P = ''fpm-fcgi'' \<or> sapi P = ''cli'' \<and> has_swoole P)"
    by (simp_all add: is_enable_def sample_ini_def ini_of_def registered_inis_def ini_keys)
  show "reporter_config_of sample_ini kafka =
    Some (Grpc \<lparr>server_addr = ''127.0.0.1:11800'', authentication = [], enable_tls = False,
       ssl_cert_chain_path = [], ssl_key_path = [], ssl_trusted_ca_path = []\<rparr>)"
    by (simp add: reporter_config_of_def sample_ini_settings)
  show "SOCKET_FILE_PATH sample_ini P = ''/tmp/skywalking-agent/'' @ show_hex (now_micros P) @ ''.sock''"
    by (simp add: SOCKET_FILE_PATH_def is_standalone_reporter_type_def sample_ini_settings path_push_def)
  show "service_instance sample_ini P = random_id P @ ''@'' @ hd (IPS P)"
    by (simp add: service_instance_def sample_ini_settings)
  show "ENABLE_ZEND_OBSERVER sample_ini P = (8 \<le> php_major P)"
    by (simp add: ENABLE_ZEND_OBSERVER_def sample_ini_def ini_of_def registered_inis_def ini_keys)
  show "PSR_LOGGING_LEVEL sample_ini = Off"
    by (simp add: PSR_LOGGING_LEVEL_def sample_ini_settings) code_simp
qed (simp_all add: sample_ini_settings, simp_all add: sample_ini_def ini_of_def registered_inis_def ini_keys)

end
