(* ===== verification/Extension.thy ===== *)
theory Extension
  imports Observers Coroutines Module
begin

text \<open>
  The extension as the engine runs it: what \<^verbatim>\<open>get_module\<close> of \<^verbatim>\<open>src/src/lib.rs\<close> registers, and the life
  of a process of PHP, with the start of the module, requests one after the other, and in each
  the calls of the program through the mechanisms that the start has put in place.
\<close>

section \<open>What is registered\<close>

text \<open>The shutdown of the module only logs, and that only if the agent is enabled.\<close>

definition shutdown :: "ini \<Rightarrow> platform \<Rightarrow> agent \<Rightarrow> agent" where [simp]:
  "shutdown I P s = (if \<not> is_enable I P then s else s)"

record extension =
  module_inis :: "(bytes \<times> ini_value) list"
  on_module_init :: "ini \<Rightarrow> platform \<Rightarrow> start_os \<Rightarrow> start_action list"
  on_module_shutdown :: "ini \<Rightarrow> platform \<Rightarrow> agent \<Rightarrow> agent"
  on_request_init :: "ini \<Rightarrow> platform \<Rightarrow> env \<Rightarrow> agent \<Rightarrow> agent"
  on_request_shutdown :: "ini \<Rightarrow> platform \<Rightarrow> i32 \<Rightarrow> agent \<Rightarrow> agent"
  module_functions :: "(bytes \<times> (env \<Rightarrow> handler \<Rightarrow> zval list \<Rightarrow> agent \<Rightarrow> (bytes + zval) \<times> agent)) list"

definition get_module :: extension where
  "get_module =
     \<lparr>module_inis = registered_inis,
      on_module_init = init,
      on_module_shutdown = shutdown,
      on_request_init = (\<lambda>I P E. request_init E (is_enable I P) (sapi P)),
      on_request_shutdown = (\<lambda>I P. request_shutdown (is_enable I P) (sapi P)),
      module_functions = [(HACK_SWOOLE_ON_REQUEST_FUNCTION_NAME, skywalking_hack_swoole_on_request)]\<rparr>"

section \<open>Calls through the mechanisms in place\<close>

text \<open>
  The engine tells an observer of the beginning and the end of a call, if it has one that it calls for
  this kind of function; in between it calls the replaced execute function, if there is one.
\<close>

definition around :: "env \<Rightarrow> exec_data \<Rightarrow> zval option \<Rightarrow> (agent \<Rightarrow> agent) \<Rightarrow> agent \<Rightarrow> agent" where
  "around E ed rv go s =
     (case observer_handler E ed s of
        (False, s1) \<Rightarrow> go s1
      | (True, s1) \<Rightarrow> (case observer_begin E ed s1 of (ed1, s2) \<Rightarrow> observer_end E ed1 rv (go s2)))"

fun passes :: "platform \<Rightarrow> mechanism set \<Rightarrow> env \<Rightarrow> call_tree \<Rightarrow> agent \<Rightarrow> agent"
  and passes_all :: "platform \<Rightarrow> mechanism set \<Rightarrow> env \<Rightarrow> call_tree list \<Rightarrow> agent \<Rightarrow> agent" where
  "passes P M E (InternalCall ed rv ts) =
     (let body = passes_all P M E ts;
          go = (if ExecuteInternal \<in> M then (\<lambda>s. snd (execute_internal E (returning ed rv body) (Some ed) True s))
                else (\<lambda>s. body (emit (OriginalCalled (fn_name ed)) s)))
      in if Observer \<in> M \<and> sees P True Observer then around E ed (Some rv) go else go)"
| "passes P M E (UserCall ed has_rv rv ts) =
     (let body = passes_all P M E ts;
          go = (if ExecuteEx \<in> M then (\<lambda>s. snd (execute_ex E (returning ed rv body) (Some ed) has_rv s))
                else (\<lambda>s. body (emit (OriginalCalled (fn_name ed)) s)))
      in if Observer \<in> M \<and> sees P False Observer then around E ed (if has_rv then Some rv else None) go else go)"
| "passes_all P M E [] s = s"
| "passes_all P M E (t # ts) s = passes_all P M E ts (passes P M E t s)"

lemma around_observed: "around E ed rv (\<lambda>s. body (emit (OriginalCalled (fn_name ed)) s)) = observed E ed rv body"
  by (simp add: fun_eq_iff around_def observed_def)

text \<open>Where every call is seen once, it does not matter by which mechanism.\<close>

definition covers :: "platform \<Rightarrow> mechanism set \<Rightarrow> bool" where
  "covers P M \<longleftrightarrow>
     (ExecuteInternal \<in> M) = (\<not> (Observer \<in> M \<and> sees P True Observer)) \<and>
     (ExecuteEx \<in> M) = (Observer \<notin> M)"

lemma registered_cover:
  "php_major P \<le> 8 \<Longrightarrow> covers P (set (register_execute_functions I P @ register_observer_handlers I P))"
  by (auto simp: covers_def register_execute_functions_def register_observer_handlers_def ENABLE_ZEND_OBSERVER_def
      IS_ZEND_OBSERVER_CALLED_FOR_INTERNAL_def)

text \<open>An interceptor runs the function in a state with the same pending results.\<close>

lemma enter_call_keeps:
  assumes "enter_call E ed s = (a, ed1, s1)"
  shows "result_map s1 = result_map s"
proof (cases "get_function_and_class_name ed")
  case (Ok names)
  obtain f cls where names: "names = (f, cls)" by fastforce
  show ?thesis
  proof (cases f)
    case (Some g)
    obtain h s2 where p: "pick_hook E cls g s = (h, s2)" by fastforce
    note keep = pick_hook_grows [OF p]
    show ?thesis
    proof (cases h)
      case (Some h')
      obtain r s3 where b: "run_before E h' (infer_request_id ed s2) ed s2 = (r, s3)" by fastforce
      from blind_keeps [OF blind_before b] keep p b Ok names \<open>f = Some g\<close> Some assms show ?thesis
        by (cases r) (auto simp: enter_call_def catch_unwind_result_def split: if_splits)
    qed (use keep p Ok names \<open>f = Some g\<close> assms in \<open>auto simp: enter_call_def split: if_splits\<close>)
  qed (use Ok names assms in \<open>simp add: enter_call_def\<close>)
qed (use assms in \<open>simp_all add: enter_call_def\<close>)

lemma call_ori_same:
  assumes "\<And>s. \<forall>a \<in> A. result_map s a = None \<Longrightarrow> obody s = body s" and "\<forall>a \<in> A. result_map s a = None"
  shows "call_ori (returning ed rv obody) f e s = call_ori (returning ed rv body) f e s"
  using assms by (simp add: call_ori_def returning_def)

lemma replaced_call:
  assumes same: "\<And>s. \<forall>a \<in> A. result_map s a = None \<Longrightarrow> obody s = body s" and free: "\<forall>a \<in> A. result_map s a = None"
  shows "execute_internal E (returning ed rv obody) (Some ed) True s = execute_internal E (returning ed rv body) (Some ed) True s"
    and "fn_name ed \<noteq> Some HACK_SWOOLE_ON_REQUEST_FUNCTION_NAME \<Longrightarrow>
      execute_ex E (returning ed rv obody) (Some ed) has_rv s = execute_ex E (returning ed rv body) (Some ed) has_rv s"
proof -
  obtain a ed1 s1 where enter: "enter_call E ed s = (a, ed1, s1)" by (metis prod_cases3)
  with free have "\<forall>a \<in> A. result_map s1 a = None" using enter_call_keeps by simp
  note ori = call_ori_same [OF same this, where ed = ed and rv = rv]
  show "execute_internal E (returning ed rv obody) (Some ed) True s = execute_internal E (returning ed rv body) (Some ed) True s"
    by (simp add: execute_internal_halves enter ori)
  show "fn_name ed \<noteq> Some HACK_SWOOLE_ON_REQUEST_FUNCTION_NAME \<Longrightarrow>
      execute_ex E (returning ed rv obody) (Some ed) has_rv s = execute_ex E (returning ed rv body) (Some ed) has_rv s"
    by (subst (1 2) execute_ex_halves) (simp_all add: enter ori)
qed

lemma passes_all_eq:
  assumes "\<And>t s. t \<in> set ts \<Longrightarrow> \<forall>a \<in> addresses t. result_map s a = None \<Longrightarrow> passes P M E t s = run_tree E t s"
  shows "\<forall>a \<in> (\<Union>t \<in> set ts. addresses t). result_map s a = None \<Longrightarrow> passes_all P M E ts s = run_trees E ts s"
  using assms
proof (induction ts arbitrary: s)
  case (Cons t ts)
  have "result_map (run_tree E t s) = result_map s"
    using steady_tree [of E t] by (simp add: steady_def)
  then have "passes_all P M E ts (run_tree E t s) = run_trees E ts (run_tree E t s)"
    using Cons.prems by (intro Cons.IH) auto
  moreover have "passes P M E t s = run_tree E t s" using Cons.prems by simp
  ultimately show ?case by simp
qed simp

lemma passes_eq:
  assumes "covers P M"
  shows "stacked t \<Longrightarrow> \<forall>a \<in> addresses t. result_map s a = None \<Longrightarrow> passes P M E t s = run_tree E t s"
proof (induction t arbitrary: s)
  case (InternalCall ed rv ts)
  let ?A = "\<Union>t \<in> set ts. addresses t"
  have body: "steady (\<lambda>s. ((), run_trees E ts s))" by (rule steady_trees [OF steady_tree])
  have same: "passes_all P M E ts s = run_trees E ts s" if "\<forall>a \<in> ?A. result_map s a = None" for s
    by (rule passes_all_eq [OF _ that]) (use InternalCall in simp)
  have free: "result_map s (address ed) = None" "\<forall>a \<in> ?A. result_map s a = None" "address ed \<notin> ?A"
    using InternalCall.prems by auto
  show ?case
    using assms replaced_call(1) [where A = ?A and obody = "passes_all P M E ts" and body = "run_trees E ts" and E = E and ed = ed and rv = rv, OF same free(2)] observed_call(1) [OF body same free, where E = E and rv = rv]
    by (simp add: covers_def Let_def returning_def [symmetric] around_observed)
next
  case (UserCall ed has_rv rv ts)
  let ?A = "\<Union>t \<in> set ts. addresses t"
  have body: "steady (\<lambda>s. ((), run_trees E ts s))" by (rule steady_trees [OF steady_tree])
  have same: "passes_all P M E ts s = run_trees E ts s" if "\<forall>a \<in> ?A. result_map s a = None" for s
    by (rule passes_all_eq [OF _ that]) (use UserCall in simp)
  have free: "result_map s (address ed) = None" "\<forall>a \<in> ?A. result_map s a = None" "address ed \<notin> ?A"
    and name: "fn_name ed \<noteq> Some HACK_SWOOLE_ON_REQUEST_FUNCTION_NAME"
    using UserCall.prems by auto
  show ?case
    using assms replaced_call(2) [where A = ?A and obody = "passes_all P M E ts" and body = "run_trees E ts" and E = E and ed = ed and rv = rv and has_rv = has_rv, OF same free(2) name] observed_call(2) [OF body same free name, where E = E and rv = rv and has_rv = has_rv]
    by (simp add: covers_def Let_def returning_def [symmetric] around_observed)
qed

section \<open>The life of a process\<close>

text \<open>The mechanisms that the actions of the start put in place.\<close>

definition in_place :: "start_action list \<Rightarrow> mechanism set" where
  "in_place as = set (List.map_filter (\<lambda>a. case a of Intercept m \<Rightarrow> Some m | _ \<Rightarrow> None) as)"

lemma in_place_iff: "m \<in> in_place as \<longleftrightarrow> Intercept m \<in> set as"
  by (induction as) (auto simp: in_place_def split: start_action.split)

lemma in_place_registered:
  assumes "in_place (init I P os) \<noteq> {}"
  shows "in_place (init I P os) = set (register_execute_functions I P @ register_observer_handlers I P)"
  using assms unfolding set_eq_iff in_place_iff hooks_are_gated by auto

text \<open>A request: the variables the engine has for it, the calls of the program, and the status of the response.\<close>

record web_request =
  request_table :: "bytes \<rightharpoonup> zval"
  request_calls :: "call_tree list"
  response_code :: i32

definition serve :: "ini \<Rightarrow> platform \<Rightarrow> mechanism set \<Rightarrow> env \<Rightarrow> web_request \<Rightarrow> agent \<Rightarrow> agent" where
  "serve I P M E r s =
     on_request_shutdown get_module I P (response_code r)
       (passes_all P M E (request_calls r) (on_request_init get_module I P E (s\<lparr>symbol_table := request_table r\<rparr>)))"

definition run_process :: "ini \<Rightarrow> platform \<Rightarrow> start_os \<Rightarrow> env \<Rightarrow> web_request list \<Rightarrow> agent \<Rightarrow> agent" where
  "run_process I P os E rs s =
     on_module_shutdown get_module I P
       (fold (serve I P (in_place (on_module_init get_module I P os)) E) rs s)"

definition process_calls :: "web_request list \<Rightarrow> event list" where
  "process_calls rs = concat (map tree_calls (concat (map request_calls rs)))"

lemma process_calls_simps [simp]:
  "process_calls [] = []" "process_calls (r # rs) = concat (map tree_calls (request_calls r)) @ process_calls rs"
  by (simp_all add: process_calls_def)

text \<open>The start and the end of a request look at no pending result.\<close>

lemma result_map_requests [simp]:
  "result_map (started rid p meth u s) = result_map s" "result_map (put_server a s) = result_map s"
  "result_map (take_ctx rid s) = result_map s" "result_map (ended status rc s) = result_map s"
  by (simp_all add: started_def insert_ctx_def drop_req_ctx_def put_server_def take_ctx_def ended_def split: option.split)

lemma result_map_request_init [simp]: "result_map (request_init E enabled kind s) = result_map s"
proof -
  obtain r s1 where "request_init_for_fpm E s = (r, s1)" by fastforce
  with request_init_for_fpm_cases [OF this] show ?thesis
    by (cases r) (auto simp: request_init_def catch_unwind_result_def)
qed

lemma result_map_request_shutdown [simp]: "result_map (request_shutdown enabled kind status s) = result_map s"
  by (cases "request_context s None")
    (simp_all add: request_shutdown_def request_shutdown_for_fpm_def finish_request_context_eq catch_unwind_result_def)

lemma result_map_run_trees [simp]: "result_map (run_trees E ts s) = result_map s"
  using steady_trees [of ts E] steady_tree by (simp add: steady_def)

lemma symbol_table_view [simp]:
  "spans_wf (s\<lparr>symbol_table := T\<rparr>) = spans_wf s" "loose_spans (s\<lparr>symbol_table := T\<rparr>) = loose_spans s"
  "originals (s\<lparr>symbol_table := T\<rparr>) = originals s"
  by (simp_all add: spans_wf_def loose_spans_def fresh_ids_def transfers_def originals_def open_spans_def multi_spans_def)

text \<open>Without a mechanism in place the calls of the program just run.\<close>

definition called :: "event list \<Rightarrow> agent \<Rightarrow> agent" where
  "called evs s = s\<lparr>log := log s @ evs\<rparr>"

lemma called_simps [simp]:
  "called [] s = s" "called es (called ds s) = called (ds @ es) s" "called es (emit ev s) = called (ev # es) s"
  by (simp_all add: called_def emit_def)

lemma passes_all_none:
  "(\<And>t s. t \<in> set ts \<Longrightarrow> passes P {} E t s = called (tree_calls t) s) \<Longrightarrow>
   passes_all P {} E ts s = called (concat (map tree_calls ts)) s"
  by (induction ts arbitrary: s) simp_all

lemma passes_none: "passes P {} E t s = called (tree_calls t) s"
  by (induction t arbitrary: s) (simp_all add: passes_all_none)

lemma tree_calls_original: "\<forall>ev \<in> set (tree_calls t). is_original ev"
  by (induction t) auto

lemma called_accounts:
  "originals (called (concat (map tree_calls ts)) s) = originals s @ concat (map tree_calls ts)"
  "spans_wf (called es s) = spans_wf s" "loose_spans (called es s) = loose_spans s"
  "request_context (called es s) = request_context s" "result_map (called es s) = result_map s"
proof -
  have "filter is_original (concat (map tree_calls ts)) = concat (map tree_calls ts)"
    using tree_calls_original by (auto simp: filter_id_conv)
  then show "originals (called (concat (map tree_calls ts)) s) = originals s @ concat (map tree_calls ts)"
    by (simp add: originals_def called_def)
qed (simp_all add: called_def spans_wf_def loose_spans_def fresh_ids_def transfers_def open_spans_def multi_spans_def)

lemma called_settles: "settles (concat (map tree_calls ts)) (\<lambda>s. ((), called (concat (map tree_calls ts)) s))"
  by (simp add: settles_def called_accounts)

text \<open>Requests whose frames are on a stack and unknown to the agent.\<close>

definition well_stacked :: "agent \<Rightarrow> web_request list \<Rightarrow> bool" where
  "well_stacked s rs \<longleftrightarrow>
     (\<forall>r \<in> set rs. \<forall>t \<in> set (request_calls r). stacked t \<and> (\<forall>a \<in> addresses t. result_map s a = None))"

lemma passes_run:
  assumes "covers P M" "well_stacked s [r]" "result_map s' = result_map s"
  shows "passes_all P M E (request_calls r) s' = run_trees E (request_calls r) s'"
  using assms(2,3) by (intro passes_all_eq) (auto simp: well_stacked_def intro!: passes_eq [OF assms(1)])

lemma passes_nothing: "passes_all P {} E ts = called (concat (map tree_calls ts))"
  by (simp add: fun_eq_iff passes_all_none passes_none)

text \<open>One request, with all mechanisms that the settings ask for or, when the start stopped early, with none.\<close>

lemma serve_accounts:
  assumes "covers P M \<or> M = {}" "well_stacked s [r]" "spans_wf s" "request_context s None = None"
  shows "originals (serve I P M E r s) = originals s @ concat (map tree_calls (request_calls r)) \<and>
    loose_spans (serve I P M E r s) = loose_spans s \<and> spans_wf (serve I P M E r s) \<and>
    request_context (serve I P M E r s) = request_context s \<and> result_map (serve I P M E r s) = result_map s"
proof -
  let ?s = "s\<lparr>symbol_table := request_table r\<rparr>"
  let ?s1 = "request_init E (is_enable I P) (sapi P) ?s"
  have s: "spans_wf ?s" "request_context ?s None = None" using assms by simp_all
  show ?thesis
  proof (cases "M = {}")
    case True
    show ?thesis
      using request_accounts [OF called_settles s, of "is_enable I P" "sapi P" "response_code r" "request_calls r" E]
      by (simp add: serve_def get_module_def True passes_nothing Let_def called_accounts)
  next
    case False
    with assms have "passes_all P M E (request_calls r) ?s1 = run_trees E (request_calls r) ?s1"
      by (intro passes_run [of P M s]) simp_all
    then show ?thesis
      using request_accounts [OF run_trees_settles [OF run_tree_settles] s,
          of "is_enable I P" "sapi P" "response_code r" E "request_calls r"]
      by (simp add: serve_def get_module_def Let_def)
  qed
qed

lemma serves_account:
  assumes "covers P M \<or> M = {}"
  shows "well_stacked s rs \<Longrightarrow> spans_wf s \<Longrightarrow> request_context s None = None \<Longrightarrow> t = fold (serve I P M E) rs s \<Longrightarrow>
    originals t = originals s @ process_calls rs \<and> loose_spans t = loose_spans s \<and> spans_wf t \<and>
    request_context t = request_context s"
proof (induction rs arbitrary: s)
  case (Cons r rs)
  have "well_stacked s [r]" "well_stacked (serve I P M E r s) rs"
    using Cons.prems serve_accounts [OF assms, of s r I E] by (auto simp: well_stacked_def)
  with Cons.IH [of "serve I P M E r s"] serve_accounts [OF assms, of s r I E] Cons.prems show ?case by simp
qed simp

lemma not_enabled: "\<not> is_enable I P \<Longrightarrow> init I P os = []"
  by (simp add: init_def)

lemma serve_disabled:
  assumes "\<not> is_enable I P"
  shows "serve I P {} E r s = called (concat (map tree_calls (request_calls r))) (s\<lparr>symbol_table := request_table r\<rparr>)"
  using assms
  by (simp add: serve_def get_module_def request_init_def request_shutdown_def passes_nothing)

lemma called_table: "(called es s)\<lparr>symbol_table := T\<rparr> = called es (s\<lparr>symbol_table := T\<rparr>)"
  by (simp add: called_def)

lemma serves_disabled:
  assumes "\<not> is_enable I P"
  shows "\<exists>T. fold (serve I P {} E) rs s = called (process_calls rs) (s\<lparr>symbol_table := T\<rparr>)"
proof (induction rs arbitrary: s)
  case Nil
  then show ?case by (intro exI [of _ "symbol_table s"]) simp
next
  case (Cons r rs)
  let ?s = "serve I P {} E r s"
  obtain T where T: "fold (serve I P {} E) rs ?s = called (process_calls rs) (?s\<lparr>symbol_table := T\<rparr>)"
    using Cons.IH by blast
  have "fold (serve I P {} E) (r # rs) s = called (process_calls (r # rs)) (s\<lparr>symbol_table := T\<rparr>)"
    by (simp add: T) (simp add: serve_disabled [OF assms] called_table)
  then show ?case by blast
qed

section \<open>Properties\<close>

text \<open>
  (C2) The settings and the version of PHP do not change what the agent does.  For every version up
  to 8 and every setting with which the start puts its mechanisms in place, whether functions are
  replaced, observed, or internal ones replaced and user functions observed: a program, started
  with no pending result for any of its frames, leaves the agent in the very same state as
  by the two replaced execute functions.
\<close>

theorem every_setting_intercepts_alike:
  assumes "php_major P \<le> 8" and "in_place (init I P os) \<noteq> {}"
    and "stacked t" and "\<forall>a \<in> addresses t. result_map s a = None"
  shows "passes P (in_place (init I P os)) E t s = run_tree E t s"
  unfolding in_place_registered [OF assms(2)]
  using registered_cover [OF assms(1)] assms(3,4) by (rule passes_eq)

definition sample_program :: call_tree where
  "sample_program =
     UserCall (sample_frame None (Some ''main'') None []) True ZNull
       [InternalCall (sample_frame None (Some ''curl_close'') None [ZRes 7]\<lparr>address := 8\<rparr>) ZNull []]"

text \<open>PHP 8.1: user functions are observed, internal ones replaced.\<close>

lemma sample_in_place: "in_place (init sample_ini sample_platform sample_parent) = {ExecuteInternal, Observer}"
proof -
  have s: "is_enable sample_ini sample_platform" "8 \<le> sint (ini_long sample_ini SKYWALKING_AGENT_SKYWALKING_VERSION)"
    "ENABLE_ZEND_OBSERVER sample_ini sample_platform" "\<not> IS_ZEND_OBSERVER_CALLED_FOR_INTERNAL sample_platform"
    "php_major sample_platform = 8" by code_simp+
  have "m \<in> in_place (init sample_ini sample_platform sample_parent) \<longleftrightarrow> m \<in> {ExecuteInternal, Observer}" for m
    unfolding in_place_iff hooks_are_gated
    by (auto simp: s sample_ini_settings sample_parent_def sample_start_def register_execute_functions_def
        register_observer_handlers_def)
  then show ?thesis by blast
qed

lemma sample_program_stacked: "stacked sample_program"
  by (simp add: sample_program_def HACK_SWOOLE_ON_REQUEST_FUNCTION_NAME_def)

theorem every_setting_intercepts_alike_witness:
  "passes sample_platform {ExecuteInternal, Observer} sample_env sample_program sample_agent =
   run_tree sample_env sample_program sample_agent"
  unfolding sample_in_place [symmetric]
  by (rule every_setting_intercepts_alike) (simp_all add: sample_in_place sample_program_stacked, simp add: sample_platform_def)

text \<open>
  (C37) A disabled extension is inert.  If the agent is switched off, or the server is neither PHP-FPM
  nor Swoole on the command line, the start does nothing, and however many requests the process
  serves and whatever they call, nothing of the agent's state changes: the program's calls run
  as if the extension were not there.
\<close>

theorem disabled_extension_is_inert:
  assumes "ini_bool I SKYWALKING_AGENT_ENABLE \<longrightarrow> sapi P \<noteq> ''fpm-fcgi'' \<and> \<not> (sapi P = ''cli'' \<and> has_swoole P)"
  shows "on_module_init get_module I P os = [] \<and>
    (\<exists>T. run_process I P os E rs s = s\<lparr>symbol_table := T, log := log s @ process_calls rs\<rparr>)"
proof -
  have off: "\<not> is_enable I P" using assms by (auto simp: is_enable_def)
  obtain T where "fold (serve I P {} E) rs s = called (process_calls rs) (s\<lparr>symbol_table := T\<rparr>)"
    using serves_disabled [OF off] by blast
  then show ?thesis
    by (auto simp: run_process_def get_module_def not_enabled [OF off] in_place_def called_def)
qed

definition sample_request :: web_request where
  "sample_request = \<lparr>request_table = [''_SERVER'' \<mapsto> ZArr sample_server], request_calls = [sample_program], response_code = 404\<rparr>"

theorem disabled_extension_is_inert_witness:
  "on_module_init get_module (ini_of registered_inis) sample_platform sample_parent = [] \<and>
   (\<exists>T. run_process (ini_of registered_inis) sample_platform sample_parent sample_env [sample_request] sample_idle =
      sample_idle\<lparr>symbol_table := T,
        log := log sample_idle @ [OriginalCalled (Some ''main''), OriginalCalled (Some ''curl_close'')]\<rparr>)"
proof -
  have "ini_bool (ini_of registered_inis) SKYWALKING_AGENT_ENABLE \<longrightarrow>
      sapi sample_platform \<noteq> ''fpm-fcgi'' \<and> \<not> (sapi sample_platform = ''cli'' \<and> has_swoole sample_platform)"
    by code_simp
  from disabled_extension_is_inert [OF this, of sample_parent sample_env "[sample_request]" sample_idle] show ?thesis
    by (simp add: sample_request_def sample_program_def)
qed

text \<open>
  (C3) A process leaves nothing behind.  For every version of PHP up to 8, every setting, every
  answer of the operating system, whether the start puts the mechanisms in place or stops early, with a
  tracer or none, and every sequence of requests: every function that the programs call runs exactly once, in order, and at the end the
  open spans (but for transfers of multi handles) and the requests being served are those of the
  beginning.
\<close>

theorem process_leaves_nothing:
  assumes "php_major P \<le> 8" and "well_stacked s rs" and "spans_wf s" and "request_context s None = None"
  shows "let t = run_process I P os E rs s in
    originals t = originals s @ process_calls rs \<and> loose_spans t = loose_spans s \<and> spans_wf t \<and>
    request_context t = request_context s"
proof -
  have "covers P (in_place (init I P os)) \<or> in_place (init I P os) = {}"
    using registered_cover [OF assms(1)] in_place_registered by metis
  from serves_account [OF this assms(2-4) refl] show ?thesis
    by (simp add: run_process_def get_module_def Let_def)
qed

theorem process_leaves_nothing_witness:
  "let t = run_process sample_ini sample_platform sample_parent sample_env [sample_request, sample_request] sample_idle in
    originals t = [OriginalCalled (Some ''main''), OriginalCalled (Some ''curl_close''),
      OriginalCalled (Some ''main''), OriginalCalled (Some ''curl_close'')] \<and>
    loose_spans t = {}"
proof -
  have "spans_wf sample_idle" "originals sample_idle = []" "loose_spans sample_idle = {}" "request_context sample_idle None = None"
    by (simp_all add: spans_wf_def fresh_ids_def open_spans_def transfers_def multi_spans_def originals_def
        loose_spans_def sample_idle_def init_agent_def)
  moreover have "well_stacked sample_idle [sample_request, sample_request]"
    by (simp add: well_stacked_def sample_request_def sample_program_stacked) (simp add: sample_idle_def init_agent_def)
  moreover have "php_major sample_platform \<le> 8" by (simp add: sample_platform_def)
  ultimately show ?thesis
    using process_leaves_nothing [of sample_platform sample_idle "[sample_request, sample_request]" sample_ini sample_parent sample_env]
    by (simp add: sample_in_place Let_def) (simp add: sample_request_def sample_program_def)
qed

end
