(* ===== verification/Package.thy ===== *)
theory Package
  imports Settings
begin

text \<open>
  The release script \<^verbatim>\<open>src/scripts\<close>: it renders the template of \<^verbatim>\<open>package.xml\<close> with the version, the
  date, the notes and the list of the files git knows.

  The template engine, git, the clock and the file system are a record of answers; the files that
  are written are the result.
\<close>

section \<open>Files of the package\<close>

record package_file =
  pf_name :: bytes
  pf_role :: bytes

definition trim_matches :: "char \<Rightarrow> bytes \<Rightarrow> bytes" where
  "trim_matches c s = rev (dropWhile (\<lambda>x. x = c) (rev (dropWhile (\<lambda>x. x = c) s)))"

definition ends_with :: "bytes \<Rightarrow> bytes \<Rightarrow> bool" where
  "ends_with s t \<longleftrightarrow> starts_with (rev s) (rev t)"

definition file_new :: "bytes \<Rightarrow> package_file" where
  "file_new raw =
     (let path = trim_matches (CHR 0x22) raw in
      \<lparr>pf_name = path,
       pf_role =
         (if ends_with path ''.md'' \<or> starts_with path ''docs/'' \<or> starts_with path ''dist-material/'' \<or>
             path \<in> {''LICENSE'', ''NOTICE''}
          then ''doc'' else ''src'')\<rparr>)"

text \<open>\<^verbatim>\<open>split_whitespace\<close>: \<open>word\<close> is what was read of the current word.\<close>

function split_words :: "bytes \<Rightarrow> bytes \<Rightarrow> bytes list" where
  "split_words word s =
     (let flush = (if word = [] then [] else [word]) in
      case s of
        [] \<Rightarrow> flush
      | c # rest \<Rightarrow>
          if first_prefix white_space s = 0 then split_words (word @ [c]) rest
          else flush @ split_words [] (drop (first_prefix white_space s) s))"
  by pat_completeness auto

termination split_words
  by (relation "measure (\<lambda>(word, s). length s)") auto

declare split_words.simps [simp del]

definition split_whitespace :: "bytes \<Rightarrow> bytes list" where
  "split_whitespace s = split_words [] s"

section \<open>The command\<close>

record create_package_xml =
  tpl_path :: bytes
  target_path :: bytes
  package_version :: bytes
  package_date :: "bytes option"
  package_notes :: bytes

text \<open>
  \<open>read_to_string\<close> and \<open>git_ls_tree\<close>: a file, and the output of \<^verbatim>\<open>git ls-tree -r HEAD --name-only\<close>;
  \<open>today\<close>: the local date as \<^verbatim>\<open>%Y-%m-%d\<close>; \<open>render\<close>: the template with date, version, notes and files;
  \<open>write_file\<close>: the error of writing a file.
\<close>

record script_os =
  read_to_string :: "bytes \<Rightarrow> error + bytes"
  git_ls_tree :: "error + bytes"
  today :: bytes
  render :: "bytes \<Rightarrow> bytes \<Rightarrow> bytes \<Rightarrow> bytes \<Rightarrow> package_file list \<Rightarrow> error + bytes"
  write_file :: "bytes \<Rightarrow> error option"

definition get_date :: "script_os \<Rightarrow> create_package_xml \<Rightarrow> bytes" where
  "get_date os c = (case package_date c of Some d \<Rightarrow> d | None \<Rightarrow> today os)"

definition get_git_files :: "script_os \<Rightarrow> package_file list outcome" where
  "get_git_files os =
     (case git_ls_tree os of
        Inl e \<Rightarrow> Err e
      | Inr output \<Rightarrow>
          (case to_str output of
             None \<Rightarrow> Err (Anyhow ''invalid utf-8 sequence'')
           | Some content \<Rightarrow> Ok (map file_new (split_whitespace content))))"

text \<open>The state is the list of the files written, with their contents.\<close>

definition run :: "script_os \<Rightarrow> create_package_xml \<Rightarrow> ((bytes \<times> bytes) list, unit) act" where
  "run os c =
     andthen (lift (case read_to_string os (tpl_path c) of Inl e \<Rightarrow> Err e | Inr t \<Rightarrow> Ok t)) (\<lambda>tpl.
     andthen (lift (get_git_files os)) (\<lambda>files.
     andthen (lift (case render os tpl (get_date os c) (package_version c) (package_notes c) files of
                      Inl e \<Rightarrow> Err e | Inr t \<Rightarrow> Ok t)) (\<lambda>contents.
     (case write_file os (target_path c) of
        Some e \<Rightarrow> fail e
      | None \<Rightarrow> modify (\<lambda>ws. ws @ [(target_path c, contents)])))))"

section \<open>The script\<close>

datatype commands = CreatePackageXml create_package_xml

fun commands_run :: "script_os \<Rightarrow> commands \<Rightarrow> ((bytes \<times> bytes) list, unit) act" where
  "commands_run os (CreatePackageXml cmd) = run os cmd"

record script_args =
  log_level :: bytes
  command :: commands

text \<open>\<open>subscribe\<close> tells whether the log of a level could be installed.\<close>

definition setup_log :: "(bytes \<Rightarrow> bool) \<Rightarrow> script_args \<Rightarrow> unit outcome" where
  "setup_log subscribe args =
     with_context ''setting default subscriber failed'' (if subscribe (log_level args) then Some () else None)"

text \<open>\<^verbatim>\<open>main\<close> behind the parser of the command line.\<close>

definition script_main ::
  "(bytes \<Rightarrow> bool) \<Rightarrow> script_os \<Rightarrow> script_args \<Rightarrow> ((bytes \<times> bytes) list, unit) act" where
  "script_main subscribe os args =
     andthen (lift (setup_log subscribe args)) (\<lambda>_.
     andthen (commands_run os (command args)) (\<lambda>_. ret ()))"

section \<open>Properties\<close>

text \<open>The script succeeds exactly if it writes its one file; otherwise it writes nothing.\<close>

lemma script_writes_once:
  assumes "script_main subscribe os args ws = (r, ws')" and "command args = CreatePackageXml c"
  shows "r = Ok () \<and> (\<exists>contents. ws' = ws @ [(target_path c, contents)]) \<or> r \<noteq> Ok () \<and> ws' = ws"
  using assms
  by (auto simp: script_main_def setup_log_def run_def andthen_def lift_def split: outcome.splits sum.splits option.splits if_splits)

text \<open>A byte that begins no white space.\<close>

definition graph_char :: "char \<Rightarrow> bool" where
  "graph_char c \<longleftrightarrow> 33 \<le> (of_char c :: nat) \<and> (of_char c :: nat) \<le> 126"

lemma first_prefix_0: "\<forall>w \<in> set ws. w \<noteq> [] \<longrightarrow> hd w \<noteq> c \<Longrightarrow> first_prefix ws (c # s) = 0"
proof (induction ws)
  case (Cons w ws)
  have "\<not> (w \<noteq> [] \<and> starts_with (c # s) w)"
    using Cons.prems by (cases w) (auto simp: starts_with_def)
  then show ?case using Cons by simp
qed simp

lemma white_space_heads: "w \<in> set white_space \<Longrightarrow> w \<noteq> [] \<and> \<not> graph_char (hd w)"
proof -
  have high: "w \<in> set (map (map char_of) wss) \<Longrightarrow> list_all (\<lambda>ns. ns \<noteq> [] \<and> 127 \<le> hd ns \<and> hd ns < 256) wss \<Longrightarrow>
      w \<noteq> [] \<and> \<not> graph_char (hd w)" for wss :: "nat list list"
    by (auto simp: list_all_iff graph_char_def hd_map of_char_of dest!: bspec)
  assume "w \<in> set white_space"
  then show "w \<noteq> [] \<and> \<not> graph_char (hd w)"
    unfolding white_space_def set_append
  proof (elim UnE)
    assume "w \<in> set [[CHR 0x09], [CHR 0x0A], [CHR 0x0B], [CHR 0x0C], [CHR 0x0D], '' '']"
    then show ?thesis by (auto simp: graph_char_def)
  qed (erule high, simp)
qed

lemma graph_char_no_space: "graph_char c \<Longrightarrow> first_prefix white_space (c # s) = 0"
  by (rule first_prefix_0) (use white_space_heads in auto)

lemma ascii_spaces:
  "first_prefix white_space (CHR 0x0A # s) = 1" "first_prefix white_space (CHR '' '' # s) = 1"
  by (simp_all add: white_space_def starts_with_def)

lemma split_words_name:
  "list_all graph_char name \<Longrightarrow> word @ name \<noteq> [] \<Longrightarrow> c \<in> {CHR 0x0A, CHR '' ''} \<Longrightarrow>
   split_words word (name @ c # rest) = (word @ name) # split_words [] rest"
proof (induction name arbitrary: word)
  case Nil
  then show ?case by (subst split_words.simps) (auto simp: ascii_spaces)
next
  case (Cons c name)
  then show ?case by (subst split_words.simps) (simp add: graph_char_no_space)
qed

lemma split_words_names:
  "\<forall>n \<in> set names. n \<noteq> [] \<and> list_all graph_char n \<Longrightarrow>
   split_words [] (concat (map (\<lambda>n. n @ [CHR 0x0A]) names)) = names"
proof (induction names)
  case Nil
  then show ?case by (subst split_words.simps) simp
next
  case (Cons n names)
  then show ?case using split_words_name [of n "[]" "CHR 0x0A"] by simp
qed

text \<open>
  Every file is in the package.  If git prints names of visible ASCII characters, one per line,
  then the list has exactly these names in order, each without the quotes around it, and a file is
  documentation exactly by its ending, its directory or its name.
\<close>

theorem package_lists_every_file:
  assumes "git_ls_tree os = Inr (concat (map (\<lambda>n. n @ [CHR 0x0A]) names))"
    and names: "\<forall>n \<in> set names. n \<noteq> [] \<and> list_all graph_char n"
  shows "get_git_files os = Ok (map file_new names)"
proof -
  have "is_ascii (concat (map (\<lambda>n. n @ [CHR 0x0A]) names))"
    using names by (fastforce simp: is_ascii_def graph_char_def list_all_iff)
  then show ?thesis
    using assms(1) split_words_names [OF names] by (simp add: get_git_files_def split_whitespace_def to_str_def)
qed

definition sample_script :: "bytes \<Rightarrow> script_os" where
  "sample_script out = \<lparr>read_to_string = (\<lambda>p. Inr ''tpl''), git_ls_tree = Inr out, today = ''2024-01-01'',
     render = (\<lambda>t d v n fs. Inr (d @ concat (map pf_name fs))), write_file = (\<lambda>p. None)\<rparr>"

theorem package_lists_every_file_witness:
  "get_git_files (sample_script (''README.md'' @ [CHR 0x0A] @ ''src/lib.rs'' @ [CHR 0x0A])) =
     Ok [\<lparr>pf_name = ''README.md'', pf_role = ''doc''\<rparr>, \<lparr>pf_name = ''src/lib.rs'', pf_role = ''src''\<rparr>]"
proof -
  have "get_git_files (sample_script (''README.md'' @ [CHR 0x0A] @ ''src/lib.rs'' @ [CHR 0x0A])) =
      Ok (map file_new [''README.md'', ''src/lib.rs''])"
    by (rule package_lists_every_file) (simp_all add: sample_script_def graph_char_def)
  moreover have "file_new ''README.md'' = \<lparr>pf_name = ''README.md'', pf_role = ''doc''\<rparr>"
    "file_new ''src/lib.rs'' = \<lparr>pf_name = ''src/lib.rs'', pf_role = ''src''\<rparr>" by code_simp+
  ultimately show ?thesis by simp
qed

text \<open>A name with a space becomes two entries.\<close>

lemma space_splits_name:
  "list_all graph_char a \<Longrightarrow> list_all graph_char b \<Longrightarrow> a \<noteq> [] \<Longrightarrow> b \<noteq> [] \<Longrightarrow>
   split_whitespace (a @ '' '' @ b @ [CHR 0x0A]) = [a, b]"
  using split_words_name [of a "[]" "CHR '' ''" "b @ [CHR 0x0A]"] split_words_name [of b "[]" "CHR 0x0A" "[]"]
  by (simp add: split_whitespace_def split_words.simps [of "[]" "[]"])

end
