(* ===== verification/Spec2Isabelle.thy ===== *)
theory Spec2Isabelle
  imports Own_Calls Extension Package
begin

text \<open>
  The SkyWalking agent for PHP: an extension that intercepts the functions a PHP program calls,
  opens spans around the ones it knows, and reports the finished spans through a socket to a worker
  process, which passes them on to the SkyWalking server.  This development models the Rust code of
  \<^verbatim>\<open>src/src\<close> (the extension), \<^verbatim>\<open>src/worker/src\<close> (the worker) and \<^verbatim>\<open>src/scripts/src\<close> (a release script).

  \<^bold>\<open>Parts of the program and where they are.\<close>

    \<^item> \<^verbatim>\<open>Prelude\<close>, \<^verbatim>\<open>Text\<close>: results (\<^verbatim>\<open>Result\<close>, panics as values), state passing with early returns, frame
      reasoning about it, and the functions on byte strings that the code takes from Rust (UTF-8,
      splitting, case, numbers in decimal).
    \<^item> \<^verbatim>\<open>Log_Level\<close>: \<^verbatim>\<open>log.rs\<close>.  \<^verbatim>\<open>Php\<close>: the values, objects, arrays and call frames of the engine as the
      code sees them, with \<^verbatim>\<open>style.rs\<close>.  \<^verbatim>\<open>Agent\<close>: the state of the extension, one field for each
      \<^verbatim>\<open>static\<close> and \<^verbatim>\<open>thread_local!\<close>, its spans and the log of what it calls; the constants of
      \<^verbatim>\<open>component.rs\<close> and \<^verbatim>\<open>tag.rs\<close>.  \<^verbatim>\<open>Context\<close>: \<^verbatim>\<open>context.rs\<close>, the contexts of the requests being served.
    \<^item> \<^verbatim>\<open>Plugin_Base\<close>: what plugins share.  \<^verbatim>\<open>Curl\<close>, \<^verbatim>\<open>Pdo\<close>, \<^verbatim>\<open>Mysqli\<close>, \<^verbatim>\<open>Swoole\<close>, \<^verbatim>\<open>Predis\<close>, \<^verbatim>\<open>Memcached\<close>,
      \<^verbatim>\<open>Redis\<close>, \<^verbatim>\<open>Amqplib\<close>, \<^verbatim>\<open>Mongodb\<close>, \<^verbatim>\<open>Memcache\<close>, \<^verbatim>\<open>Psr3\<close>: one file \<^verbatim>\<open>plugin/plugin_*.rs\<close> each, every hook a
      definition on the frame and the state.  \<^verbatim>\<open>Plugins\<close>: \<^verbatim>\<open>plugin/mod.rs\<close>, the choice of a hook and its cache.
      \<^verbatim>\<open>Samples\<close>: concrete states and frames for the witnesses.
    \<^item> \<^verbatim>\<open>Execute\<close>: \<^verbatim>\<open>execute.rs\<close>, the three interceptors, which run the hooks around a call.  \<^verbatim>\<open>Request\<close>:
      \<^verbatim>\<open>request.rs\<close>, start and end of a request under PHP-FPM and Swoole.  \<^verbatim>\<open>Coroutines\<close>: the same code split where it
      runs the program's function, as steps of a relation on a process in which coroutines take turns.
    \<^item> \<^verbatim>\<open>Settings\<close>, \<^verbatim>\<open>Module\<close>, \<^verbatim>\<open>Extension\<close>: \<^verbatim>\<open>lib.rs\<close>, \<^verbatim>\<open>module.rs\<close>, \<^verbatim>\<open>worker.rs\<close>: the settings, the start of the
      extension with the fork of the worker, and the life of a process of PHP.  The settings are lazy statics: a
      cell keeps what its initialiser saw of the platform when it was first read, and \<open>force_settings\<close> is
      the reading of all of them before the fork.
    \<^item> \<^verbatim>\<open>Hook_Types\<close>, \<^verbatim>\<open>Observers\<close>, \<^verbatim>\<open>Own_Calls\<close>, \<^verbatim>\<open>Whole_Request\<close>: no code of their own, but what holds of all
      hooks, of the two kinds of interception, of the calls hooks make, and of whole requests.
    \<^item> \<^verbatim>\<open>Channel\<close>: both ends of the socket (\<^verbatim>\<open>src/src/channel.rs\<close>, \<^verbatim>\<open>src/worker/src/channel.rs\<close>).  \<^verbatim>\<open>Worker\<close>: the
      tasks of the worker around its queue (\<^verbatim>\<open>src/worker/src/lib.rs\<close>) as a step relation \<open>worker_run\<close>, which also
      tells the stream each connection came with and what its task has offered to the queue so far.  \<^verbatim>\<open>Reporters\<close>:
      \<^verbatim>\<open>src/worker/src/reporter\<close>.  \<^verbatim>\<open>Worker_Start\<close>: start and end of the worker, and \<^verbatim>\<open>main.rs\<close>.
    \<^item> \<^verbatim>\<open>Package\<close>: the release script.

  \<^bold>\<open>What the lemmas show.\<close>

    \<^item> The contracts.  \<open>span_hook\<close> (with \<open>traced_hook\<close> and \<open>silent_hook\<close>) is what every pair of hooks promises:
      a before hook that fails leaves no span open, one that succeeds hands over at most the spans it
      opened, and the after hook closes them however it ends.  It is interpreted for every hook of
      every plugin, and \<^verbatim>\<open>Execute\<close> needs nothing else: nested calls run each function once and leave
      the open spans as they were.  \<open>keyed_table\<close> is the contract of the maps (isolation of requests, of
      Redis and Memcache objects), \<open>handler_patch\<close> that of the patched destructors, \<open>framing\<close> that of the
      socket's frames.
    \<^item> Functional behaviour: which span a hook opens, with which peer, tags and logs, on success and on
      each error; the life of a request's entry span; the headers that are passed on.
    \<^item> Transparency: the agent neither changes what a function or a request callback returns, nor is its
      own failure visible, panics included; the choice of hooks, which runs outside the panic handler,
      never panics.
    \<^item> All hooks together (\<^verbatim>\<open>Hook_Types\<close>): the untyped box that a before hook hands to its after hook is well
      typed, and the hooks that are chosen never panic, but in one case; a call that a hook makes has no hook
      itself (\<^verbatim>\<open>Own_Calls\<close>), but for a harmless one.
    \<^item> Equivalence: whether the engine's execute functions are replaced, or it observes the calls, or both,
      a program leaves the agent in the same state (\<^verbatim>\<open>Observers\<close>, \<^verbatim>\<open>Extension\<close>).
    \<^item> Composition: a whole request, under PHP-FPM and under Swoole, and a whole process with any settings leave
      no span and no context behind, whatever fails on the way; interleaved coroutines own their spans
      (\<^verbatim>\<open>Coroutines\<close>).  The open spans these statements balance are \<open>loose_spans\<close>, those that do not belong to a
      running transfer of a curl multi handle: such a transfer outlives the call that started it, and its span stays
      open in the table of multi handles until the handle has finished or is closed.
      Further, a disabled extension changes nothing; what is reported crosses the socket, is queued and drawn by the reporter
      in order, and the tasks of the worker offer every item of every stream to its queue; the forked worker and its parent agree on socket,
      service and instance, because the settings were read before the fork; the mechanisms
      chosen at the start see every call once.
    \<^item> Several theorems state behaviour that differs from what the code means to do; the theorem then
      says what the code does.

  \<^bold>\<open>Conventions.\<close>  Code outside the repository is an argument: the engine and the crates in the record
  \<open>env\<close>, the operating system, network and client libraries in \<open>start_os\<close>, \<open>worker_os\<close> and \<open>net\<close>, the
  queue in \<open>mpsc\<close> (with \<open>bounded_fifo\<close> for what its documentation promises), the encoding of items as
  a pair of functions.  What the engine answers may depend on everything that happened before.  A call
  into PHP made by a hook is answered by the engine and runs no interceptor; \<^verbatim>\<open>Own_Calls\<close> shows for each such
  call that the interceptors would only pass it on.  An intercepted function is
  an arbitrary transformer of the state, which may run further intercepted functions.  A span is its
  creation and the calls made on it, a mutation of the operating system or the start an action in a
  list.  Arrays and objects of PHP are values: a write through one reference is not seen through
  another.  Reading an argument behind the last one gives what happens to be in the slot.  Case mapping
  to upper case is exact where the result is ASCII.  Whether the start has set the tracer is told by the field \<open>no_tracer\<close>, since the
  tracing library holds it.  \<^verbatim>\<open>usize\<close> has 64 bits, and allocations below the
  limit of Rust succeed.  The iteration order of a hash map is an argument.

  \<^bold>\<open>Loops and bounds.\<close>  All recursion terminates by structure or by the length of what is read, but for
  the loop that connects to the server, which may not end (\<open>connect_from\<close> is an option).  The loop of a
  connection ends after at most one round more than its stream has bytes and faults.  The queue of the
  worker has 255 places.

  \<^bold>\<open>Not modelled.\<close>  Log output of the agent itself; \<^verbatim>\<open>longjmp\<close> out of a hook (a fatal error of PHP); the
  parsing of command lines, which derive macros do; the build script, and the tests.
\<close>

section \<open>From the settings to the agent\<close>

text \<open>The part of the settings that hooks and requests read.\<close>

definition config_of :: "ini \<Rightarrow> config" where
  "config_of I =
     \<lparr>psr_logging_level = PSR_LOGGING_LEVEL I, skywalking_version = SKYWALKING_VERSION I,
      inject_context = INJECT_CONTEXT I\<rparr>"

text \<open>Out of the box no logger is hooked and no variable is injected.\<close>

lemma default_agent:
  assumes "cfg E = config_of sample_ini"
  shows "Psr3Plugin \<notin> set (PLUGINS E)" "\<not> inject_context (cfg E)"
  using assms default_settings [of undefined undefined] by (auto simp: config_of_def PLUGINS_def)

section \<open>From the extension to the reporter of the worker\<close>

lemma items_of_Inr: "items_of (map Inr xs) = xs"
  by (induction xs) simp_all

text \<open>
  (C7) What is reported is consumed.  The items that a process of PHP reports over a fresh connection
  cross the socket, are received by the task the worker has for that connection, and are
  handed to its reporter in order: all of them if they are no more than 255, and else exactly the
  first 255, when the reporter draws nothing before the connection has ended.  The task has
  returned by then, and whatever the queue answered has held up nobody.
\<close>

theorem reported_items_are_consumed:
  fixes encode :: "'i \<Rightarrow> byte list outcome" and Q :: "('i, 'q) mpsc"
  assumes codec: "\<forall>i \<in> set items. \<exists>c. encode i = Ok c \<and> content_fits c \<and> decode c = Inr i"
    and "items \<noteq> []" and answer: "answer = Inr \<lparr>wire = [], room = None\<rparr>"
    and Q: "bounded_fifo QUEUE_CAPACITY Q view is_closed" and fresh: "view init_q = []" "\<not> is_closed init_q"
  shows "\<exists>s k w. stream (report_all answer encode items reporter_new) = Some s \<and>
    w = (serve_connection Q decode n ^^ k) (accept n (map Data (wire s)) (worker_start init_q)) \<and>
    conns w n = None \<and>
    consumed (draw Q 255 w) = take 255 items"
proof -
  obtain s where s: "stream (report_all answer encode items reporter_new) = Some s"
      and loop: "receive_loop decode (map Data (wire s)) = map Inr items"
    using reported_items_cross [OF codec \<open>items \<noteq> []\<close> answer] by blast
  let ?start = "accept n (map Data (wire s)) (worker_start init_q)"
  define k where "k = Suc (length (wire s))"
  let ?w = "(serve_connection Q decode n ^^ k) ?start"
  have c: "conns ?start n = Some (map Data (wire s))" and open0: "\<not> is_closed (queue ?start)"
    using fresh by (simp_all add: accept_def worker_start_def)
  have served: "conns ?w n = None" "map fst (submitted ?w) = items"
    using serve_to_end [OF Q open0 c, of k decode]
    by (simp_all add: loop k_def items_of_Inr accept_def worker_start_def)
  have "undrained QUEUE_CAPACITY view is_closed ?start"
    using fresh by (simp add: undrained_def accept_def worker_start_def)
  from undrained_serves [OF Q this] have "view (queue ?w) = take 255 items"
    using served(2) by (simp add: undrained_def QUEUE_CAPACITY_def)
  moreover have "consumed ?w = []" by (simp only: serve_consumed) (simp add: accept_def worker_start_def)
  ultimately have "consumed (draw Q 255 ?w) = take 255 items"
    using draw_consumes [OF Q, of 255 ?w] by simp
  with s served(1) show ?thesis by blast
qed

theorem reported_items_are_consumed_witness:
  "\<exists>w. consumed (draw (list_queue 255) 255 w) = [7, 9 :: byte]"
proof -
  have codec: "\<forall>i \<in> set [7, 9]. \<exists>c. Ok [i] = Ok c \<and> content_fits c \<and> sample_decode c = Inr i"
    by (simp add: content_fits_def max_alloc_def sample_decode_def)
  show ?thesis
    using reported_items_are_consumed [where encode = "\<lambda>b. Ok [b]" and decode = sample_decode and init_q = "[]",
        OF codec _ refl list_queue_fifo [of 255, folded QUEUE_CAPACITY_def]]
    by (auto simp: QUEUE_CAPACITY_def)
qed

end
